(* ===== verification/GoPrelude.thy ===== *)
theory GoPrelude
  imports Main "HOL-Library.Char_ord"
begin

text \<open>
  Shared ground of the development.

  \<^item> Go strings are byte strings, so they are \<^typ>\<open>string\<close> (a list of 8-bit characters).
  \<^item> Go's \<open>error\<close> values are the datatype \<open>error\<close>: a text made by
    \<open>errors.New\<close> or \<open>fmt.Errorf\<close> without \<open>%w\<close>, a context put in front of a wrapped
    error (\<open>fmt.Errorf("ctx: %w", err)\<close>), the sentinels of the repository, and the
    errors that library calls return. The rendering of the last is a parameter
    (\<open>error_text\<close>): no decision of the agent depends on it.
  \<^item> A Go call that returns \<open>(T, error)\<close> and may panic is a state transformer
    \<open>'s \<Rightarrow> 'a outcome \<times> 's\<close>. \<open>go_bind\<close> is the code's
    \<open>if err != nil { return err }\<close>, \<open>go_wrap\<close> the same with a context, and
    \<open>go_try\<close> hands the error to the caller, as \<open>x, err := f()\<close> does. A panic is
    caught by none of them, and neither is a loop that never ends (\<open>Diverge\<close>).
  \<^item> The functions of package \<open>strings\<close>, \<open>strconv\<close> and \<open>time\<close> the agent uses.
\<close>

section \<open>Collections of lemmas\<close>

named_theorems go_simps \<open>unfolding of the monad of Go calls\<close>
named_theorems go_effect \<open>introduction rules: every change a call makes is in a relation\<close>

section \<open>Errors\<close>

datatype lib_error =
    JsonSyntax
  | JsonType
  | Base64Corrupt
  | CtxDone
  | CtxDeadline
  | OsNotExist
  | LibText string

datatype error =
    Err string
  | Wrap string error
  | Lib lib_error
  | ErrRefreshRevoked
  | ErrPostJoinClosed

text \<open>The text \<open>err.Error()\<close> of an error, given the texts of the library's errors.\<close>

fun error_text :: "(lib_error \<Rightarrow> string) \<Rightarrow> error \<Rightarrow> string" where
  "error_text lib (Err t) = t"
| "error_text lib (Wrap ctx e) = ctx @ '': '' @ error_text lib e"
| "error_text lib (Lib e) = lib e"
| "error_text lib ErrRefreshRevoked = ''refresh token revoked''"
| "error_text lib ErrPostJoinClosed = ''realtime ws closed (post-join)''"

text \<open>\<open>errors.Is(err, target)\<close>: some error of the chain is the target.\<close>

fun errors_is :: "error \<Rightarrow> error \<Rightarrow> bool" where
  "errors_is (Wrap ctx e) t = (Wrap ctx e = t \<or> errors_is e t)"
| "errors_is e t = (e = t)"

lemma errors_is_refl [simp]: "errors_is e e"
  by (cases e) auto

section \<open>Calls that may fail or panic\<close>

text \<open>\<open>Diverge\<close> is the outcome of a call that never returns.\<close>

datatype 'a outcome = Ok 'a | Fail error | Panic string | Diverge

type_synonym ('s, 'a) go = "'s \<Rightarrow> 'a outcome \<times> 's"

definition go_return :: "'a \<Rightarrow> ('s, 'a) go" where
  "go_return a s = (Ok a, s)"

definition go_fail :: "error \<Rightarrow> ('s, 'a) go" where
  "go_fail e s = (Fail e, s)"

definition go_panic :: "string \<Rightarrow> ('s, 'a) go" where
  "go_panic msg s = (Panic msg, s)"

definition go_bind :: "('s, 'a) go \<Rightarrow> ('a \<Rightarrow> ('s, 'b) go) \<Rightarrow> ('s, 'b) go" where
  "go_bind m f s = (case m s of
      (Ok a, t) \<Rightarrow> f a t
    | (Fail e, t) \<Rightarrow> (Fail e, t)
    | (Panic p, t) \<Rightarrow> (Panic p, t)
    | (Diverge, t) \<Rightarrow> (Diverge, t))"

definition go_wrap :: "string \<Rightarrow> ('s, 'a) go \<Rightarrow> ('s, 'a) go" where
  "go_wrap ctx m s = (case m s of
      (Ok a, t) \<Rightarrow> (Ok a, t)
    | (Fail e, t) \<Rightarrow> (Fail (Wrap ctx e), t)
    | (Panic p, t) \<Rightarrow> (Panic p, t)
    | (Diverge, t) \<Rightarrow> (Diverge, t))"

definition go_try :: "('s, 'a) go \<Rightarrow> (error + 'a \<Rightarrow> ('s, 'b) go) \<Rightarrow> ('s, 'b) go" where
  "go_try m f s = (case m s of
      (Ok a, t) \<Rightarrow> f (Inr a) t
    | (Fail e, t) \<Rightarrow> f (Inl e) t
    | (Panic p, t) \<Rightarrow> (Panic p, t)
    | (Diverge, t) \<Rightarrow> (Diverge, t))"

definition go_gets :: "('s \<Rightarrow> 'a) \<Rightarrow> ('s, 'a) go" where
  "go_gets f s = (Ok (f s), s)"

definition go_modify :: "('s \<Rightarrow> 's) \<Rightarrow> ('s, unit) go" where
  "go_modify f s = (Ok (), f s)"

lemmas go_defs = go_return_def go_fail_def go_panic_def go_bind_def go_wrap_def go_try_def
  go_gets_def go_modify_def

lemma go_bind_simps [go_simps]:
  "m s = (Ok a, t) \<Longrightarrow> go_bind m f s = f a t"
  "m s = (Fail e, t) \<Longrightarrow> go_bind m f s = (Fail e, t)"
  "m s = (Panic p, t) \<Longrightarrow> go_bind m f s = (Panic p, t)"
  "m s = (Diverge, t) \<Longrightarrow> go_bind m f s = (Diverge, t)"
  by (simp_all add: go_bind_def)

lemma go_try_simps [go_simps]:
  "m s = (Ok a, t) \<Longrightarrow> go_try m f s = f (Inr a) t"
  "m s = (Fail e, t) \<Longrightarrow> go_try m f s = f (Inl e) t"
  "m s = (Panic p, t) \<Longrightarrow> go_try m f s = (Panic p, t)"
  "m s = (Diverge, t) \<Longrightarrow> go_try m f s = (Diverge, t)"
  by (simp_all add: go_try_def)

lemma go_wrap_simps [go_simps]:
  "m s = (Ok a, t) \<Longrightarrow> go_wrap ctx m s = (Ok a, t)"
  "m s = (Fail e, t) \<Longrightarrow> go_wrap ctx m s = (Fail (Wrap ctx e), t)"
  "m s = (Panic p, t) \<Longrightarrow> go_wrap ctx m s = (Panic p, t)"
  "m s = (Diverge, t) \<Longrightarrow> go_wrap ctx m s = (Diverge, t)"
  by (simp_all add: go_wrap_def)

lemma go_atom_simps [go_simps]:
  "go_return a s = (Ok a, s)"
  "go_fail e s = (Fail e, s)"
  "go_panic p s = (Panic p, s)"
  "go_gets g s = (Ok (g s), s)"
  "go_modify h s = (Ok (), h s)"
  by (simp_all add: go_defs)

lemma go_bind_OkE:
  assumes "go_bind m f s = (Ok b, t)"
  obtains a u where "m s = (Ok a, u)" "f a u = (Ok b, t)"
  using assms by (auto simp: go_bind_def split: outcome.splits prod.splits)

lemma go_wrap_OkE:
  assumes "go_wrap ctx m s = (Ok a, t)"
  obtains "m s = (Ok a, t)"
  using assms by (auto simp: go_wrap_def split: outcome.splits prod.splits)

lemma go_fail_Ok [simp]: "go_fail e s \<noteq> (Ok a, t)" "go_panic p s \<noteq> (Ok a, t)"
  by (simp_all add: go_defs)

lemma go_return_eq [simp]: "go_return a s = (r, t) \<longleftrightarrow> r = Ok a \<and> t = s"
  by (auto simp: go_defs)

subsection \<open>Every change a call makes is in a preorder\<close>

text \<open>
  \<open>changes R m\<close>: whatever the call \<open>m\<close> returns, the state it ends in is related by
  \<open>R\<close> to the state it started from. For a reflexive and transitive \<open>R\<close> the property
  is closed under the combinators; frame and log lemmas of the components are instances.
\<close>

definition changes :: "('s \<Rightarrow> 's \<Rightarrow> bool) \<Rightarrow> ('s, 'a) go \<Rightarrow> bool" where
  "changes R m \<longleftrightarrow> (\<forall>s. R s (snd (m s)))"

lemma changesI: "(\<And>s. R s (snd (m s))) \<Longrightarrow> changes R m"
  by (simp add: changes_def)

lemma changesD: "changes R m \<Longrightarrow> m s = (r, t) \<Longrightarrow> R s t"
  by (metis changes_def snd_conv)

lemma changes_mono: "changes R m \<Longrightarrow> (\<And>s t. R s t \<Longrightarrow> Q s t) \<Longrightarrow> changes Q m"
  by (auto simp: changes_def)

locale effect =
  fixes R :: "'s \<Rightarrow> 's \<Rightarrow> bool"
  assumes R_refl: "R s s"
    and R_trans: "R s t \<Longrightarrow> R t u \<Longrightarrow> R s u"
begin

lemma return: "changes R (go_return a)"
  by (simp add: changes_def go_defs R_refl)

lemma fail: "changes R (go_fail e)"
  by (simp add: changes_def go_defs R_refl)

lemma panic: "changes R (go_panic p)"
  by (simp add: changes_def go_defs R_refl)

lemma gets: "changes R (go_gets g)"
  by (simp add: changes_def go_defs R_refl)

lemma modify: "(\<And>s. R s (h s)) \<Longrightarrow> changes R (go_modify h)"
  by (simp add: changes_def go_defs)

lemma bind: "changes R m \<Longrightarrow> (\<And>a. changes R (f a)) \<Longrightarrow> changes R (go_bind m f)"
  by (auto simp: changes_def go_bind_def split: outcome.splits prod.splits)
    (metis R_trans snd_conv)+

lemma wrap: "changes R m \<Longrightarrow> changes R (go_wrap ctx m)"
  by (auto simp: changes_def go_wrap_def split: outcome.splits prod.splits) (metis snd_conv)+

lemma attempt: "changes R m \<Longrightarrow> (\<And>a. changes R (f a)) \<Longrightarrow> changes R (go_try m f)"
  by (auto simp: changes_def go_try_def split: outcome.splits prod.splits)
    (metis R_trans snd_conv)+

lemmas combinators = return fail panic gets bind wrap attempt

end

subsection \<open>Calls that return\<close>

text \<open>\<open>returns m\<close>: the call neither panics nor runs forever.\<close>

definition returned :: "'a outcome \<Rightarrow> bool" where
  "returned r = (case r of Ok _ \<Rightarrow> True | Fail _ \<Rightarrow> True | _ \<Rightarrow> False)"

definition returns :: "('s, 'a) go \<Rightarrow> bool" where
  "returns m \<longleftrightarrow> (\<forall>s. returned (fst (m s)))"

named_theorems go_total \<open>introduction rules: a call returns\<close>

lemma returned_simps [simp]:
  "returned (Ok a)" "returned (Fail e)" "\<not> returned (Panic p)" "\<not> returned Diverge"
  by (simp_all add: returned_def)

lemma returnsD: "returns m \<Longrightarrow> m s = (r, t) \<Longrightarrow> returned r"
  by (metis fst_conv returns_def)

lemma returns_atoms [go_total]:
  "returns (go_return a)" "returns (go_fail e)" "returns (go_gets g)" "returns (go_modify h)"
  by (simp_all add: returns_def go_defs)

lemma returns_bind [go_total]:
  "returns m \<Longrightarrow> (\<And>a. returns (f a)) \<Longrightarrow> returns (go_bind m f)"
  by (auto simp: returns_def go_bind_def split: outcome.splits prod.splits)
    (metis fst_conv returned_simps(3,4))+

lemma returns_try [go_total]:
  "returns m \<Longrightarrow> (\<And>a. returns (f a)) \<Longrightarrow> returns (go_try m f)"
  by (auto simp: returns_def go_try_def split: outcome.splits prod.splits)
    (metis fst_conv returned_simps(3,4))+

lemma returns_wrap [go_total]: "returns m \<Longrightarrow> returns (go_wrap ctx m)"
  by (auto simp: returns_def go_wrap_def split: outcome.splits prod.splits)
    (metis fst_conv returned_simps(3,4))+

section \<open>Package strings\<close>

definition has_prefix :: "string \<Rightarrow> string \<Rightarrow> bool" where
  "has_prefix s p \<longleftrightarrow> take (length p) s = p"

lemma has_prefix_append [simp]: "has_prefix (p @ s) p"
  by (simp add: has_prefix_def)

lemma has_prefix_iff: "has_prefix s p \<longleftrightarrow> (\<exists>r. s = p @ r)"
  unfolding has_prefix_def by (metis append_eq_conv_conj append_take_drop_id)

text \<open>\<open>strings.TrimRight(s, cutset)\<close>\<close>

definition trim_right :: "string \<Rightarrow> string \<Rightarrow> string" where
  "trim_right s cutset = rev (dropWhile (\<lambda>c. c \<in> set cutset) (rev s))"

lemma trim_right_last: "trim_right s cutset = [] \<or> last (trim_right s cutset) \<notin> set cutset"
proof (cases "dropWhile (\<lambda>c. c \<in> set cutset) (rev s)")
  case Nil
  then show ?thesis by (simp add: trim_right_def)
next
  case (Cons c r)
  then have "c \<notin> set cutset" by (simp add: dropWhile_eq_Cons_conv)
  with Cons show ?thesis by (simp add: trim_right_def)
qed

lemma trim_right_noop: "s = [] \<or> last s \<notin> set cutset \<Longrightarrow> trim_right s cutset = s"
  by (cases s rule: rev_cases) (simp_all add: trim_right_def)

lemma trim_right_idem: "trim_right (trim_right s cutset) cutset = trim_right s cutset"
  by (rule trim_right_noop) (rule trim_right_last)

text \<open>
  \<open>strings.TrimSpace\<close>: the six ASCII spaces, and the code points of
  \<open>unicode.IsSpace\<close> beyond ASCII, which are the byte sequences of
  \<open>uni_spaces\<close> (U+0085, U+00A0, U+1680, U+2000 to U+200A, U+2028, U+2029, U+202F, U+205F,
  U+3000).
\<close>

definition ascii_space :: "char \<Rightarrow> bool" where
  "ascii_space c \<longleftrightarrow> c \<in> {CHR 0x09, CHR 0x0A, CHR 0x0B, CHR 0x0C, CHR 0x0D, CHR 0x20}"

definition uni_spaces :: "string list" where
  "uni_spaces =
     [[CHR 0xC2, CHR 0x85], [CHR 0xC2, CHR 0xA0], [CHR 0xE1, CHR 0x9A, CHR 0x80], [CHR 0xE2, CHR 0x80, CHR 0xA8],
      [CHR 0xE2, CHR 0x80, CHR 0xA9], [CHR 0xE2, CHR 0x80, CHR 0xAF], [CHR 0xE2, CHR 0x81, CHR 0x9F],
      [CHR 0xE3, CHR 0x80, CHR 0x80]] @
     map (\<lambda>c. [CHR 0xE2, CHR 0x80, c])
       [CHR 0x80, CHR 0x81, CHR 0x82, CHR 0x83, CHR 0x84, CHR 0x85, CHR 0x86, CHR 0x87, CHR 0x88, CHR 0x89, CHR 0x8A]"

text \<open>The length of the space the string starts with, \<open>0\<close> for none.\<close>

definition space_len :: "string list \<Rightarrow> string \<Rightarrow> nat" where
  "space_len sps s = (case s of [] \<Rightarrow> 0
     | c # _ \<Rightarrow> if ascii_space c then 1
               else (case find (has_prefix s) sps of None \<Rightarrow> 0 | Some p \<Rightarrow> length p))"

function trim_left_space :: "string list \<Rightarrow> string \<Rightarrow> string" where
  "trim_left_space sps s =
     (if space_len sps s = 0 then s else trim_left_space sps (drop (space_len sps s) s))"
  by pat_completeness auto
termination
  by (relation "measure (\<lambda>(_, s). length s)")
    (auto simp: space_len_def split: list.splits)

declare trim_left_space.simps [simp del]

text \<open>An equation for evaluation, by recursion on a bound of the length.\<close>

fun trim_left_within :: "nat \<Rightarrow> string list \<Rightarrow> string \<Rightarrow> string" where
  "trim_left_within 0 sps s = s"
| "trim_left_within (Suc n) sps s =
     (if space_len sps s = 0 then s else trim_left_within n sps (drop (space_len sps s) s))"

lemma trim_left_within: "length s \<le> n \<Longrightarrow> trim_left_within n sps s = trim_left_space sps s"
proof (induction n arbitrary: s)
  case (Suc n)
  then have "trim_left_within n sps (drop (space_len sps s) s) = trim_left_space sps (drop (space_len sps s) s)"
    if "space_len sps s \<noteq> 0"
    using that by simp
  then show ?case by (simp add: trim_left_space.simps [of sps s])
qed (simp add: trim_left_space.simps space_len_def split: list.splits)

lemma trim_left_space_code [code]: "trim_left_space sps s = trim_left_within (length s) sps s"
  by (simp add: trim_left_within)

definition trim_space :: "string \<Rightarrow> string" where
  "trim_space s = rev (trim_left_space (map rev uni_spaces)
                        (rev (trim_left_space uni_spaces s)))"

lemma trim_space_Nil [simp]: "trim_space [] = []"
  by (simp add: trim_space_def trim_left_space.simps space_len_def)

text \<open>
  \<open>strings.ToLower\<close> on the strings it is used for, where the result is compared with
  ASCII words: the ASCII letters, and the two code points beyond ASCII whose lower case is an
  ASCII letter (U+0130 maps to \<open>i\<close>, U+212A to \<open>k\<close>). Other code points never become
  ASCII, so no comparison with an ASCII word depends on them.
\<close>

definition lower_char :: "char \<Rightarrow> char" where
  "lower_char c = (let n = of_char c :: nat in if 65 \<le> n \<and> n \<le> 90 then char_of (n + 32) else c)"

fun to_lower :: "string \<Rightarrow> string" where
  "to_lower (a # b # c # r) =
     (if [of_char a, of_char b, of_char c] = [0xE2::nat, 0x84, 0xAA] then CHR ''k'' # to_lower r
      else if [of_char a, of_char b] = [0xC4::nat, 0xB0] then CHR ''i'' # to_lower (c # r)
      else lower_char a # to_lower (b # c # r))"
| "to_lower [a, b] =
     (if [of_char a, of_char b] = [0xC4::nat, 0xB0] then ''i'' else [lower_char a, lower_char b])"
| "to_lower [a] = [lower_char a]"
| "to_lower [] = []"

section \<open>Package strconv and fmt: decimal numbers\<close>

definition digit_char :: "nat \<Rightarrow> char" where
  "digit_char n = ''0123456789'' ! n"

function nat_dec :: "nat \<Rightarrow> string" where
  "nat_dec n = (if n < 10 then [digit_char n]
                else nat_dec (n div 10) @ [digit_char (n mod 10)])"
  by pat_completeness auto
termination
  by (relation "measure id") auto

declare nat_dec.simps [simp del]

definition int_dec :: "int \<Rightarrow> string" where
  "int_dec i = (if i < 0 then CHR ''-'' # nat_dec (nat (- i)) else nat_dec (nat i))"

definition is_digit :: "char \<Rightarrow> bool" where
  "is_digit c \<longleftrightarrow> 48 \<le> (of_char c :: nat) \<and> (of_char c :: nat) \<le> 57"

fun parse_nat :: "nat \<Rightarrow> string \<Rightarrow> nat" where
  "parse_nat acc [] = acc"
| "parse_nat acc (c # cs) = parse_nat (10 * acc + (of_char c - 48)) cs"

lemma of_digit_char: "n < 10 \<Longrightarrow> of_char (digit_char n) = 48 + n"
  by (auto simp: digit_char_def less_Suc_eq eval_nat_numeral)

lemma parse_nat_append: "parse_nat acc (xs @ ys) = parse_nat (parse_nat acc xs) ys"
  by (induction xs arbitrary: acc) auto

lemma nat_dec_digits: "\<forall>c \<in> set (nat_dec n). is_digit c"
proof (induction n rule: nat_dec.induct)
  case (1 n)
  then show ?case
    by (cases "n < 10") (auto simp: nat_dec.simps [of n] is_digit_def of_digit_char)
qed

lemma nat_dec_nonempty: "nat_dec n \<noteq> []"
  by (subst nat_dec.simps) simp

lemma parse_nat_dec: "parse_nat 0 (nat_dec n) = n"
proof (induction n rule: nat_dec.induct)
  case (1 n)
  then show ?case
    by (cases "n < 10") (auto simp: nat_dec.simps [of n] parse_nat_append of_digit_char)
qed

lemma nat_dec_inj: "nat_dec m = nat_dec n \<Longrightarrow> m = n"
  by (metis parse_nat_dec)

lemma is_digit_minus [simp]: "\<not> is_digit CHR ''-''"
  by (simp add: is_digit_def)

lemma nat_dec_no_minus: "nat_dec n \<noteq> CHR ''-'' # r"
  using nat_dec_digits [of n] by (auto simp: is_digit_def)

lemma int_dec_inj: "int_dec i = int_dec j \<Longrightarrow> i = j"
proof (cases "i < 0"; cases "j < 0")
  assume "int_dec i = int_dec j" "i < 0" "j < 0"
  then have "nat (- i) = nat (- j)" by (auto simp: int_dec_def dest: nat_dec_inj)
  with \<open>i < 0\<close> \<open>j < 0\<close> show "i = j" by simp
next
  assume "int_dec i = int_dec j" "\<not> i < 0" "\<not> j < 0"
  then have "nat i = nat j" by (auto simp: int_dec_def dest: nat_dec_inj)
  with \<open>\<not> i < 0\<close> \<open>\<not> j < 0\<close> show "i = j" by simp
qed (auto simp: int_dec_def nat_dec_no_minus nat_dec_no_minus [symmetric])

section \<open>Package time: durations\<close>

text \<open>Durations and instants are in nanoseconds; an instant counts from the zero time.\<close>

abbreviation (input) dur_ms :: "int \<Rightarrow> int" where "dur_ms n \<equiv> n * 1000000"
abbreviation (input) dur_s :: "int \<Rightarrow> int" where "dur_s n \<equiv> n * 1000000000"
abbreviation (input) dur_min :: "int \<Rightarrow> int" where "dur_min n \<equiv> n * 60000000000"

text \<open>\<open>time.Duration.String\<close>: the fraction is printed without trailing zeros.\<close>

definition fmt_frac :: "nat \<Rightarrow> nat \<Rightarrow> string" where
  "fmt_frac v prec =
     (let d = nat_dec (v mod 10 ^ prec);
          padded = replicate (prec - length d) CHR ''0'' @ d;
          t = trim_right padded ''0''
      in if t = [] then [] else CHR ''.'' # t)"

definition duration_string :: "int \<Rightarrow> string" where
  "duration_string d =
     (let u = nat \<bar>d\<bar>; sign = (if d < 0 then ''-'' else '''') in
      if u = 0 then ''0s''
      else if u < 1000 then sign @ nat_dec u @ ''ns''
      else if u < 1000000 then
        sign @ nat_dec (u div 1000) @ fmt_frac u 3 @ [CHR 0xC2, CHR 0xB5] @ ''s''
      else if u < 1000000000 then sign @ nat_dec (u div 1000000) @ fmt_frac u 6 @ ''ms''
      else
        (let secs = u div 1000000000;
             s = nat_dec (secs mod 60) @ fmt_frac u 9 @ ''s'';
             mins = secs div 60 in
         if mins = 0 then sign @ s
         else if mins div 60 = 0 then sign @ nat_dec mins @ ''m'' @ s
         else sign @ nat_dec (mins div 60) @ ''h'' @ nat_dec (mins mod 60) @ ''m'' @ s))"

lemma duration_string_5m: "duration_string (dur_min 5) = ''5m0s''"
  by (simp add: duration_string_def fmt_frac_def nat_dec.simps trim_right_def digit_char_def Let_def)

end
