(* ===== verification/World.thy ===== *)
theory World
  imports GoPrelude
begin

text \<open>
  The agent process and what is outside of it.

  \<^item> \<open>'w env\<close> is everything the process talks to: the HTTP services, the WebSocket
    library, the clock, the scheduler (\<open>select\<close> on \<open>ctx.Done()\<close> and \<open>time.After\<close>)
    the operating system's file calls and standard input. It acts on a state \<open>'w\<close> of its own, so every theorem that holds for
    all \<open>env\<close> holds for any behaviour of the services, however they fail.
  \<^item> \<open>'w agent\<close> is the state of the process: the mutable fields of the Supabase client, the
    files, and the log of what was sent. The log is written by the model only, for the
    theorems to talk about; no operation reads it.
\<close>

section \<open>Requests and what comes of them\<close>

record http_request =
  rq_method :: string
  rq_url :: string
  rq_headers :: "(string \<times> string) list"
  rq_body :: "string option"

text \<open>
  \<open>http.NewRequestWithContext\<close>, \<open>httpClient.Do\<close> and \<open>io.ReadAll\<close> can each fail;
  the outcome says which did; a body that could not be read to its end comes with what was read.
  A request that could not be built is not sent.
\<close>

datatype http_outcome =
    BuildFailed lib_error
  | DoFailed lib_error
  | ReadFailed int string lib_error
  | Response int string

datatype event =
    Pve http_request
  | Sb http_request
  | Fetch http_request
  | Enroll http_request
  | FsWrite string
  | FsRename string string
  | FsRemove string
  | FsTemp string
  | FsChmod string
  | WsDial string
  | WsSend nat string
  | WsClose nat
  | Stdout string
  | Stderr string

record 'w env =
  env_http :: "http_request \<Rightarrow> 'w \<Rightarrow> http_outcome \<times> 'w"
  env_now :: "'w \<Rightarrow> int \<times> 'w"
  env_sleep :: "int \<Rightarrow> 'w \<Rightarrow> lib_error option \<times> 'w"
  env_read :: "string \<Rightarrow> 'w \<Rightarrow> lib_error option \<times> 'w"
  env_write :: "string \<Rightarrow> string \<Rightarrow> 'w \<Rightarrow> (lib_error \<times> string option) option \<times> 'w"
  env_temp :: "string \<Rightarrow> string \<Rightarrow> 'w \<Rightarrow> (lib_error + string) \<times> 'w"
  env_chmod :: "string \<Rightarrow> 'w \<Rightarrow> lib_error option \<times> 'w"
  env_rename :: "string \<Rightarrow> string \<Rightarrow> 'w \<Rightarrow> lib_error option \<times> 'w"
  env_remove :: "string \<Rightarrow> 'w \<Rightarrow> lib_error option \<times> 'w"
  env_mkdir :: "string \<Rightarrow> 'w \<Rightarrow> lib_error option \<times> 'w"
  env_open :: "string \<Rightarrow> 'w \<Rightarrow> lib_error option \<times> 'w"
  env_dial :: "string \<Rightarrow> 'w \<Rightarrow> (lib_error + nat) \<times> 'w"
  env_ws_write :: "nat \<Rightarrow> string \<Rightarrow> 'w \<Rightarrow> lib_error option \<times> 'w"
  env_ws_read :: "nat \<Rightarrow> 'w \<Rightarrow> (lib_error + string) \<times> 'w"
  env_rand :: "int \<Rightarrow> 'w \<Rightarrow> int \<times> 'w"
  env_ctx :: "'w \<Rightarrow> lib_error option \<times> 'w"
  env_line :: "'w \<Rightarrow> (string \<times> lib_error option) \<times> 'w"
  env_tty :: "'w \<Rightarrow> bool \<times> 'w"
  env_text :: "lib_error \<Rightarrow> string"

text \<open>
  \<open>sb_access\<close> to \<open>sb_loop\<close> are the mutable fields of the Supabase client, with the
  registry of subscriptions (\<open>sb_subs\<close>: topic to connection), the \<open>ref\<close> counter of each
  connection and whether the refresh loop was started; \<open>fs\<close> is the content of the files.
\<close>

record 'w agent =
  ext :: 'w
  log :: "event list"
  sb_access :: string
  sb_expires :: int
  sb_refresh :: string
  sb_subs :: "(string \<times> nat) list"
  sb_refs :: "nat \<Rightarrow> int"
  sb_loop :: bool
  fs :: "string \<Rightarrow> string option"

section \<open>Primitive effects\<close>

text \<open>\<open>time.Now()\<close>\<close>

definition now_val :: "'w env \<Rightarrow> 'w agent \<Rightarrow> int \<times> 'w agent" where
  "now_val env s = (case env_now env (ext s) of (t, w) \<Rightarrow> (t, s\<lparr>ext := w\<rparr>))"

definition now :: "'w env \<Rightarrow> ('w agent, int) go" where
  "now env s = (case now_val env s of (t, s') \<Rightarrow> (Ok t, s'))"

text \<open>
  \<open>select { case <-ctx.Done(): ... case <-time.After(d): }\<close>: \<open>Some\<close> is \<open>ctx.Err()\<close>.
\<close>

definition sleep_val :: "'w env \<Rightarrow> int \<Rightarrow> 'w agent \<Rightarrow> lib_error option \<times> 'w agent" where
  "sleep_val env d s = (case env_sleep env d (ext s) of (r, w) \<Rightarrow> (r, s\<lparr>ext := w\<rparr>))"

definition http_send ::
  "'w env \<Rightarrow> (http_request \<Rightarrow> event) \<Rightarrow> http_request \<Rightarrow> ('w agent, http_outcome) go" where
  "http_send env ev rq s = (case env_http env rq (ext s) of (res, w) \<Rightarrow>
     (Ok res, s\<lparr>ext := w,
        log := log s @ (case res of BuildFailed _ \<Rightarrow> [] | _ \<Rightarrow> [ev rq])\<rparr>))"

lemma returns_now [go_total]: "returns (now env)"
  by (auto simp: returns_def now_def split: prod.splits)

lemma returns_http [go_total]: "returns (http_send env ev rq)"
  by (auto simp: returns_def http_send_def split: prod.splits)

section \<open>What a call adds to the log\<close>

definition adds :: "(event \<Rightarrow> bool) \<Rightarrow> 'w agent \<Rightarrow> 'w agent \<Rightarrow> bool" where
  "adds P s t \<longleftrightarrow> (\<exists>es. log t = log s @ es \<and> list_all P es)"

interpretation adds: effect "adds P" for P :: "event \<Rightarrow> bool"
proof unfold_locales
  fix s :: "'w agent"
  show "adds P s s" by (simp add: adds_def)
next
  fix s t u :: "'w agent"
  assume "adds P s t" "adds P t u"
  then show "adds P s u" by (auto simp: adds_def)
qed

lemma adds_mono: "adds P s t \<Longrightarrow> (\<And>e. P e \<Longrightarrow> Q e) \<Longrightarrow> adds Q s t"
  unfolding adds_def by (meson list.pred_mono_strong)

lemma changes_adds_mono:
  "changes (adds P) m \<Longrightarrow> (\<And>e. P e \<Longrightarrow> Q e) \<Longrightarrow> changes (adds Q) m"
  by (auto simp: changes_def intro: adds_mono)

lemma now_val_log: "now_val env s = (x, t) \<Longrightarrow> log t = log s"
  by (auto simp: now_val_def split: prod.splits)

lemma sleep_val_log: "sleep_val env d s = (x, t) \<Longrightarrow> log t = log s"
  by (auto simp: sleep_val_def split: prod.splits)

lemma adds_now [go_effect]: "changes (adds P) (now env)"
  by (auto simp: changes_def now_def now_val_def adds_def split: prod.splits)

lemma adds_http [go_effect]: "P (ev rq) \<Longrightarrow> changes (adds P) (http_send env ev rq)"
  by (auto simp: changes_def http_send_def adds_def split: prod.splits http_outcome.splits)

lemmas adds_combinators [go_effect] = adds.combinators

section \<open>A clock\<close>

text \<open>
  What \<open>time\<close> promises, for the theorems that need it: some quantity of the outside is what
  \<open>time.Now()\<close> returns, nothing turns it back, and a timer that fires after \<open>d\<close> has
  waited at least \<open>d\<close>.
\<close>

definition clocked :: "'w env \<Rightarrow> ('w \<Rightarrow> int) \<Rightarrow> bool" where
  "clocked env clk \<longleftrightarrow>
     (\<forall>w. fst (env_now env w) = clk w \<and> clk w \<le> clk (snd (env_now env w))) \<and>
     (\<forall>rq w. clk w \<le> clk (snd (env_http env rq w))) \<and>
     (\<forall>d w. clk w \<le> clk (snd (env_sleep env d w)) \<and>
        (fst (env_sleep env d w) = None \<longrightarrow> clk w + d \<le> clk (snd (env_sleep env d w))))"

definition later :: "('w \<Rightarrow> int) \<Rightarrow> 'w agent \<Rightarrow> 'w agent \<Rightarrow> bool" where
  "later clk s t \<longleftrightarrow> clk (ext s) \<le> clk (ext t)"

interpretation later: effect "later clk" for clk :: "'w \<Rightarrow> int"
  by unfold_locales (auto simp: later_def)

lemmas later_combinators [go_effect] = later.combinators

lemma later_http [go_effect]: "clocked env clk \<Longrightarrow> changes (later clk) (http_send env ev rq)"
  by (auto simp: changes_def http_send_def later_def clocked_def split: prod.splits)
    (metis snd_conv)

lemma now_val_clock:
  "clocked env clk \<Longrightarrow> now_val env s = (x, t) \<Longrightarrow> x = clk (ext s) \<and> clk (ext s) \<le> clk (ext t)"
  by (auto simp: now_val_def clocked_def split: prod.splits) (metis fst_conv snd_conv)+

lemma sleep_val_clock:
  "clocked env clk \<Longrightarrow> sleep_val env d s = (None, t) \<Longrightarrow> clk (ext s) + d \<le> clk (ext t)"
  by (auto simp: sleep_val_def clocked_def split: prod.splits) (metis fst_conv snd_conv)

section \<open>Counting\<close>

text \<open>How many events of a kind the log holds; \<open>counts P n\<close>: a call adds at most \<open>n\<close>.\<close>

definition count_events :: "(event \<Rightarrow> bool) \<Rightarrow> 'w agent \<Rightarrow> nat" where
  "count_events P s = length (filter P (log s))"

lemma adds_count: "adds (\<lambda>e. \<not> P e) s t \<Longrightarrow> count_events P t = count_events P s"
  by (auto simp: adds_def count_events_def list_all_iff filter_empty_conv)

lemma count_http: "m s = (r, t) \<Longrightarrow> m = http_send env ev rq \<Longrightarrow>
  count_events P t \<le> Suc (count_events P s)"
  by (auto simp: http_send_def count_events_def split: prod.splits http_outcome.splits)

end
