(* ===== verification/GoJson.thy ===== *)
theory GoJson
  imports GoPrelude "HOL-Library.List_Lexorder"
begin

text \<open>
  Package \<open>encoding/json\<close>, as far as the agent uses it.

  \<^item> \<open>json_parse\<close> reads a JSON text (bytes) into a value, as \<open>json.Unmarshal\<close> does
    before it looks at the target: white space, escapes with surrogate pairs, invalid UTF-8
    replaced by U+FFFD, the nesting limit of 10000. Every array element and member carries the
    bytes it was read from, which is what a \<open>json.RawMessage\<close> field receives. The
    parser runs on fuel; \<open>p_value_fuel\<close> shows that twice the length of the text is enough.
  \<^item> \<open>decode_struct\<close> stores the members of an object into a struct: exact name first,
    then case-insensitively; unknown names are ignored, \<open>null\<close> changes nothing, and a
    value of another type is an error. Every caller of the agent drops the target when
    \<open>Unmarshal\<close> returns an error, so what a failed call has stored is not modelled.
  \<^item> \<open>json_marshal\<close> prints a value as \<open>json.Marshal\<close> does: sorted keys, no
    white space, HTML characters escaped, a \<open>RawMessage\<close> compacted.
\<close>

section \<open>Values\<close>

datatype json =
    JNull
  | JBool bool
  | JNum string
  | JStr string
  | JArr "(string \<times> json) list"
  | JObj "(string \<times> string \<times> json) list"

section \<open>UTF-8\<close>

definition byte_in :: "nat \<Rightarrow> nat \<Rightarrow> char \<Rightarrow> bool" where
  "byte_in lo hi c \<longleftrightarrow> lo \<le> of_char c \<and> of_char c \<le> hi"

definition cont_byte :: "char \<Rightarrow> bool" where
  "cont_byte = byte_in 0x80 0xBF"

text \<open>The width of the code point at the start, \<open>0\<close> where the bytes are no valid UTF-8.\<close>

definition utf8_width :: "string \<Rightarrow> nat" where
  "utf8_width s = (case s of [] \<Rightarrow> 0 | a # r \<Rightarrow>
     if of_char a < (0x80::nat) then 1
     else if byte_in 0xC2 0xDF a then
       (case r of b # _ \<Rightarrow> if cont_byte b then 2 else 0 | _ \<Rightarrow> 0)
     else if byte_in 0xE0 0xEF a then
       (case r of b # c # _ \<Rightarrow>
          if (if of_char a = (0xE0::nat) then byte_in 0xA0 0xBF b
              else if of_char a = (0xED::nat) then byte_in 0x80 0x9F b else cont_byte b)
             \<and> cont_byte c then 3 else 0
        | _ \<Rightarrow> 0)
     else if byte_in 0xF0 0xF4 a then
       (case r of b # c # d # _ \<Rightarrow>
          if (if of_char a = (0xF0::nat) then byte_in 0x90 0xBF b
              else if of_char a = (0xF4::nat) then byte_in 0x80 0x8F b else cont_byte b)
             \<and> cont_byte c \<and> cont_byte d then 4 else 0
        | _ \<Rightarrow> 0)
     else 0)"

definition replacement_utf8 :: string where
  "replacement_utf8 = [CHR 0xEF, CHR 0xBF, CHR 0xBD]"

definition utf8_encode :: "nat \<Rightarrow> string" where
  "utf8_encode n = map char_of
     (if n < 0x80 then [n]
      else if n < 0x800 then [0xC0 + n div 64, 0x80 + n mod 64]
      else if n < 0x10000 then [0xE0 + n div 4096, 0x80 + n div 64 mod 64, 0x80 + n mod 64]
      else [0xF0 + n div 262144, 0x80 + n div 4096 mod 64, 0x80 + n div 64 mod 64, 0x80 + n mod 64])"

section \<open>Reading\<close>

definition json_ws :: "char \<Rightarrow> bool" where
  "json_ws c \<longleftrightarrow> c = CHR '' '' \<or> of_char c \<in> {9::nat, 10, 13}"

definition skip_ws :: "string \<Rightarrow> string" where
  "skip_ws = dropWhile json_ws"

definition expect :: "char \<Rightarrow> string \<Rightarrow> string option" where
  "expect x s = (case skip_ws s of [] \<Rightarrow> None | c # r \<Rightarrow> if c = x then Some r else None)"

definition hex_val :: "char \<Rightarrow> nat option" where
  "hex_val c =
     (if is_digit c then Some (of_char c - 48)
      else if byte_in 97 102 c then Some (of_char c - 87)
      else if byte_in 65 70 c then Some (of_char c - 55) else None)"

text \<open>The four digits of a \<open>\u\<close> escape.\<close>

definition hex4 :: "string \<Rightarrow> nat option" where
  "hex4 s = (case s of a # b # c # d # _ \<Rightarrow>
       (case (hex_val a, hex_val b, hex_val c, hex_val d) of
          (Some w, Some x, Some y, Some z) \<Rightarrow> Some (((w * 16 + x) * 16 + y) * 16 + z)
        | _ \<Rightarrow> None)
     | _ \<Rightarrow> None)"

definition backslash :: char where "backslash = CHR 0x5C"

text \<open>\<open>getu4\<close>: a whole \<open>\uXXXX\<close> at the start.\<close>

definition getu4 :: "string \<Rightarrow> nat option" where
  "getu4 s = (case s of a # b # r \<Rightarrow> if a = backslash \<and> b = CHR ''u'' then hex4 r else None
     | _ \<Rightarrow> None)"

definition simple_escape :: "char \<Rightarrow> char option" where
  "simple_escape c =
     (if c = CHR 0x22 \<or> c = backslash \<or> c = CHR ''/'' then Some c
      else if c = CHR ''b'' then Some (char_of (8::nat))
      else if c = CHR ''f'' then Some (char_of (12::nat))
      else if c = CHR ''n'' then Some (char_of (10::nat))
      else if c = CHR ''r'' then Some (char_of (13::nat))
      else if c = CHR ''t'' then Some (char_of (9::nat)) else None)"

text \<open>
  One step inside a string literal, after the opening quote: \<open>None\<close> a syntax error,
  otherwise the bytes produced, how many bytes were read, and whether this was the closing quote.
\<close>

definition string_step :: "string \<Rightarrow> (string \<times> nat \<times> bool) option" where
  "string_step s = (case s of [] \<Rightarrow> None | c # r \<Rightarrow>
     if c = CHR 0x22 then Some ([], 1, True)
     else if c = backslash then
       (case r of [] \<Rightarrow> None | e # r' \<Rightarrow>
          if e = CHR ''u'' then
            (case hex4 r' of None \<Rightarrow> None | Some u \<Rightarrow>
               if 0xD800 \<le> u \<and> u < 0xE000 then
                 (case getu4 (drop 4 r') of
                    Some l \<Rightarrow> if u < 0xDC00 \<and> 0xDC00 \<le> l \<and> l < 0xE000
                              then Some (utf8_encode ((u - 0xD800) * 1024 + (l - 0xDC00) + 0x10000),
                                         12, False)
                              else Some (replacement_utf8, 6, False)
                  | None \<Rightarrow> Some (replacement_utf8, 6, False))
               else Some (utf8_encode u, 6, False))
          else (case simple_escape e of None \<Rightarrow> None | Some x \<Rightarrow> Some ([x], 2, False)))
     else if of_char c < (0x20::nat) then None
     else (case utf8_width s of 0 \<Rightarrow> Some (replacement_utf8, 1, False)
           | w \<Rightarrow> Some (take w s, w, False)))"

lemma string_step_pos: "string_step s = Some (out, n, e) \<Longrightarrow> 0 < n \<and> s \<noteq> []"
  by (auto simp: string_step_def split: list.splits if_splits option.splits nat.splits)

function p_string :: "string \<Rightarrow> (string \<times> string) option" where
  "p_string s = (case string_step s of None \<Rightarrow> None
     | Some (out, n, e) \<Rightarrow>
         if e then Some ([], drop n s)
         else (case p_string (drop n s) of None \<Rightarrow> None | Some (t, r) \<Rightarrow> Some (out @ t, r)))"
  by pat_completeness auto
termination
  by (relation "measure length") (auto dest: string_step_pos)

declare p_string.simps [simp del]

definition p_digits :: "string \<Rightarrow> string \<times> string" where
  "p_digits s = (takeWhile is_digit s, dropWhile is_digit s)"

text \<open>A number: its integer part, fraction and exponent, each the literal text and the rest.\<close>

definition p_digits1 :: "string \<Rightarrow> (string \<times> string) option" where
  "p_digits1 s = (case s of [] \<Rightarrow> None | c # r \<Rightarrow> if is_digit c then Some (p_digits s) else None)"

definition p_int :: "string \<Rightarrow> (string \<times> string) option" where
  "p_int s = (case s of [] \<Rightarrow> None | c # r \<Rightarrow>
     if c = CHR ''0'' then Some (''0'', r) else p_digits1 s)"

definition p_frac :: "string \<Rightarrow> (string \<times> string) option" where
  "p_frac s = (case s of [] \<Rightarrow> Some ('''', []) | c # r \<Rightarrow>
     if c = CHR ''.'' then map_option (\<lambda>(ds, t). (c # ds, t)) (p_digits1 r) else Some ('''', s))"

definition p_sign :: "string \<Rightarrow> string \<Rightarrow> string \<times> string" where
  "p_sign cs s = (case s of [] \<Rightarrow> ('''', []) | c # r \<Rightarrow> if c \<in> set cs then ([c], r) else ('''', s))"

definition p_exp :: "string \<Rightarrow> (string \<times> string) option" where
  "p_exp s = (case s of [] \<Rightarrow> Some ('''', []) | c # r \<Rightarrow>
     if c = CHR ''e'' \<or> c = CHR ''E''
     then (case p_sign ''+-'' r of (sg, r') \<Rightarrow>
             map_option (\<lambda>(ds, t). (c # sg @ ds, t)) (p_digits1 r'))
     else Some ('''', s))"

definition p_number :: "string \<Rightarrow> (string \<times> string) option" where
  "p_number s = (case p_sign ''-'' s of (sg, s1) \<Rightarrow>
     (case p_int s1 of None \<Rightarrow> None | Some (ip, s2) \<Rightarrow>
     (case p_frac s2 of None \<Rightarrow> None | Some (fp, s3) \<Rightarrow>
     (case p_exp s3 of None \<Rightarrow> None | Some (ep, s4) \<Rightarrow> Some (sg @ ip @ fp @ ep, s4)))))"

definition p_literal :: "string \<Rightarrow> json \<Rightarrow> string \<Rightarrow> (json \<times> string) option" where
  "p_literal w v s = (if has_prefix s w then Some (v, drop (length w) s) else None)"

definition max_depth :: nat where "max_depth = 10000"

fun p_value :: "nat \<Rightarrow> nat \<Rightarrow> string \<Rightarrow> (json \<times> string) option"
  and p_elems :: "nat \<Rightarrow> nat \<Rightarrow> string \<Rightarrow> ((string \<times> json) list \<times> string) option"
  and p_members :: "nat \<Rightarrow> nat \<Rightarrow> string \<Rightarrow> ((string \<times> string \<times> json) list \<times> string) option"
where
  "p_value 0 d s = None"
| "p_value (Suc f) d s = (case s of [] \<Rightarrow> None | c # r \<Rightarrow>
     if c = CHR ''{'' then
       (if max_depth \<le> d then None
        else (case expect (CHR ''}'') r of Some t \<Rightarrow> Some (JObj [], t)
              | None \<Rightarrow> (case p_members f (Suc d) r of None \<Rightarrow> None
                          | Some (ms, t) \<Rightarrow> Some (JObj ms, t))))
     else if c = CHR ''['' then
       (if max_depth \<le> d then None
        else (case expect (CHR '']'') r of Some t \<Rightarrow> Some (JArr [], t)
              | None \<Rightarrow> (case p_elems f (Suc d) r of None \<Rightarrow> None
                          | Some (vs, t) \<Rightarrow> Some (JArr vs, t))))
     else if c = CHR 0x22 then
       (case p_string r of None \<Rightarrow> None | Some (t, r') \<Rightarrow> Some (JStr t, r'))
     else if c = CHR ''t'' then p_literal ''true'' (JBool True) s
     else if c = CHR ''f'' then p_literal ''false'' (JBool False) s
     else if c = CHR ''n'' then p_literal ''null'' JNull s
     else (case p_number s of None \<Rightarrow> None | Some (n, t) \<Rightarrow> Some (JNum n, t)))"
| "p_elems 0 d s = None"
| "p_elems (Suc f) d s =
     (let s1 = skip_ws s in
      case p_value f d s1 of None \<Rightarrow> None
      | Some (v, t) \<Rightarrow>
          (let e = (take (length s1 - length t) s1, v) in
           case expect (CHR '','') t of
             Some u \<Rightarrow> (case p_elems f d u of None \<Rightarrow> None | Some (es, w) \<Rightarrow> Some (e # es, w))
           | None \<Rightarrow> (case expect (CHR '']'') t of None \<Rightarrow> None | Some u \<Rightarrow> Some ([e], u))))"
| "p_members 0 d s = None"
| "p_members (Suc f) d s =
     (case expect (CHR 0x22) s of None \<Rightarrow> None
      | Some s0 \<Rightarrow> (case p_string s0 of None \<Rightarrow> None
      | Some (k, s2) \<Rightarrow> (case expect (CHR '':'') s2 of None \<Rightarrow> None
      | Some s3 \<Rightarrow>
         (let s1 = skip_ws s3 in
          case p_value f d s1 of None \<Rightarrow> None
          | Some (v, t) \<Rightarrow>
              (let m = (k, take (length s1 - length t) s1, v) in
               case expect (CHR '','') t of
                 Some u \<Rightarrow> (case p_members f d u of None \<Rightarrow> None | Some (ms, w) \<Rightarrow> Some (m # ms, w))
               | None \<Rightarrow> (case expect (CHR ''}'') t of None \<Rightarrow> None | Some u \<Rightarrow> Some ([m], u)))))))"

definition json_parse :: "string \<Rightarrow> json option" where
  "json_parse s = (case p_value (Suc (2 * length s)) 0 (skip_ws s) of None \<Rightarrow> None
     | Some (v, t) \<Rightarrow> if skip_ws t = [] then Some v else None)"

subsection \<open>The fuel is enough\<close>

text \<open>Every parser consumes what it reads.\<close>

lemma skip_ws_length: "length (skip_ws s) \<le> length s"
  by (simp add: skip_ws_def length_dropWhile_le)

lemma expect_shrinks: "expect x s = Some r \<Longrightarrow> length r < length s"
  using skip_ws_length [of s] by (auto simp: expect_def split: list.splits if_splits)

lemma p_string_shrinks: "p_string s = Some (t, r) \<Longrightarrow> length r < length s"
proof (induction s arbitrary: t rule: p_string.induct)
  case (1 s)
  show ?case
  proof (cases "string_step s")
    case None
    with "1.prems" show ?thesis by (simp add: p_string.simps)
  next
    case (Some x)
    obtain out n e where x: "x = (out, n, e)" by (cases x)
    with Some have n: "0 < n" "s \<noteq> []" by (auto dest: string_step_pos)
    show ?thesis
    proof (cases e)
      case True
      with "1.prems" Some x n show ?thesis by (subst (asm) p_string.simps) auto
    next
      case False
      with "1.prems" Some x obtain t' where "p_string (drop n s) = Some (t', r)"
        by (subst (asm) p_string.simps) (auto split: option.splits)
      with "1.IH" Some x False have "length r < length (drop n s)" by auto
      with n show ?thesis by simp
    qed
  qed
qed

lemma p_digits1_length: "p_digits1 s = Some (ds, t) \<Longrightarrow> length t < length s"
  by (auto simp: p_digits1_def p_digits_def length_dropWhile_le le_imp_less_Suc
      split: list.splits if_splits)

lemma p_int_shrinks: "p_int s = Some (n, t) \<Longrightarrow> length t < length s"
  by (auto simp: p_int_def split: list.splits if_splits dest: p_digits1_length)

lemma p_sign_length: "p_sign cs s = (sg, t) \<Longrightarrow> length t \<le> length s"
  by (auto simp: p_sign_def split: list.splits if_splits)

lemma p_frac_length: "p_frac s = Some (ds, t) \<Longrightarrow> length t \<le> length s"
  by (auto simp: p_frac_def split: list.splits if_splits dest!: p_digits1_length)

lemma p_exp_length: "p_exp s = Some (ds, t) \<Longrightarrow> length t \<le> length s"
  by (auto simp: p_exp_def split: list.splits if_splits prod.splits
      dest!: p_digits1_length p_sign_length)

lemma p_number_shrinks: "p_number s = Some (n, t) \<Longrightarrow> length t < length s"
  by (auto simp: p_number_def split: option.splits prod.splits
      dest!: p_sign_length p_int_shrinks p_frac_length p_exp_length)

lemma p_literal_shrinks: "p_literal w v s = Some (x, t) \<Longrightarrow> w \<noteq> [] \<Longrightarrow> length t < length s"
  by (auto simp: p_literal_def has_prefix_def split: if_splits)
    (metis diff_less length_greater_0_conv list.size(3) nat_neq_iff take_eq_Nil)

lemmas shrinks = expect_shrinks p_string_shrinks p_number_shrinks p_literal_shrinks

lemma parsers_shrink:
  "p_value f d s = Some (v, t) \<Longrightarrow> length t < length s"
  "p_elems f d s = Some (vs, t) \<Longrightarrow> length t < length s"
  "p_members f d s = Some (ms, t) \<Longrightarrow> length t < length s"
proof (induction f d s and f d s and f d s arbitrary: v t and vs t and ms t
    rule: p_value_p_elems_p_members.induct)
  case (2 f d s)
  then show ?case
    by (fastforce split: list.splits if_splits option.splits dest: shrinks)
next
  case (4 f d s)
  then show ?case
    using skip_ws_length [of s]
    by (fastforce simp: Let_def split: option.splits dest: shrinks)
next
  case (6 f d s)
  show ?case
  proof -
    from "6.prems" obtain s0 k s2 s3 v u where
      *: "expect (CHR 0x22) s = Some s0" "p_string s0 = Some (k, s2)"
        "expect (CHR '':'') s2 = Some s3" "p_value f d (skip_ws s3) = Some (v, u)"
      by (auto simp: Let_def split: option.splits prod.splits)
    from * have "length u < length s"
      using "6.IH"(1) [OF *(1,2) refl *(3) refl, of v u] skip_ws_length [of s3]
      by (fastforce dest: shrinks)
    with * "6.prems" "6.IH"(2) [OF *(1,2) refl *(3) refl *(4) refl refl] show ?thesis
      by (fastforce simp: Let_def split: option.splits prod.splits dest: shrinks)
  qed
qed simp_all


text \<open>More fuel than the bound changes nothing.\<close>

lemma parsers_more_fuel:
  "2 * length s < f \<Longrightarrow> p_value (Suc f) d s = p_value f d s"
  "2 * length s + 1 < f \<Longrightarrow> p_elems (Suc f) d s = p_elems f d s"
  "2 * length s + 1 < f \<Longrightarrow> p_members (Suc f) d s = p_members f d s"
proof (induction f arbitrary: d s)
  case 0
  { case 1 then show ?case by simp next case 2 then show ?case by simp
    next case 3 then show ?case by simp }
next
  case (Suc f)
  {
    case 1
    show ?case
    proof (cases s)
      case Nil
      then show ?thesis by simp
    next
      case (Cons c r)
      with 1 have "2 * length r + 1 < f" by simp
      then have "p_elems (Suc f) (Suc d) r = p_elems f (Suc d) r"
        "p_members (Suc f) (Suc d) r = p_members f (Suc d) r"
        using Suc.IH(2,3) by blast+
      with Cons show ?thesis by (simp only: p_value.simps list.case)
    qed
  next
    case 2
    then have *: "p_value (Suc f) d (skip_ws s) = p_value f d (skip_ws s)"
      using Suc.IH(1) [of "skip_ws s"] skip_ws_length [of s] by simp
    have "p_elems (Suc f) d u = p_elems f d u"
      if "p_value f d (skip_ws s) = Some (v, t)" "expect x t = Some u" for v t x u
      using that 2 skip_ws_length [of s]
      by (intro Suc.IH(2)) (fastforce dest: parsers_shrink(1) expect_shrinks)
    then show ?case
      using * by (simp add: Let_def del: p_value.simps split: option.split)
  next
    case 3
    have *: "p_value (Suc f) d (skip_ws s3) = p_value f d (skip_ws s3)"
      if "expect x s = Some s0" "p_string s0 = Some (k, s2)" "expect y s2 = Some s3" for x y k s0 s2 s3
      using that 3 skip_ws_length [of s3]
      by (intro Suc.IH(1)) (fastforce dest: shrinks)
    have "p_members (Suc f) d u = p_members f d u"
      if "expect x s = Some s0" "p_string s0 = Some (k, s2)" "expect y s2 = Some s3"
        "p_value f d (skip_ws s3) = Some (v, t)" "expect z t = Some u" for x y z k s0 s2 s3 v t u
      using that 3 skip_ws_length [of s3]
      by (intro Suc.IH(3)) (fastforce dest: shrinks parsers_shrink(1))
    then show ?case
      using * by (simp add: Let_def del: p_value.simps split: option.split)
  }
qed

lemma p_value_fuel:
  assumes "2 * length s < f"
  shows "p_value f d s = p_value (Suc (2 * length s)) d s"
proof -
  have "p_value (Suc (2 * length s) + n) d s = p_value (Suc (2 * length s)) d s" for n
  proof (induction n)
    case (Suc n)
    have "p_value (Suc (Suc (2 * length s) + n)) d s = p_value (Suc (2 * length s) + n) d s"
      by (rule parsers_more_fuel(1)) simp
    with Suc show ?case by (simp del: p_value.simps)
  qed simp
  from this [of "f - Suc (2 * length s)"] assms show ?thesis by (simp del: p_value.simps)
qed

section \<open>Storing into a struct\<close>

text \<open>
  \<open>foldName\<close>: names are compared after folding ASCII letters, and the two other code
  points that fold to an ASCII letter (U+017F to \<open>S\<close>, U+212A to \<open>K\<close>).
\<close>

definition upper_char :: "char \<Rightarrow> char" where
  "upper_char c = (if byte_in 97 122 c then char_of (of_char c - 32 :: nat) else c)"

fun fold_name :: "string \<Rightarrow> string" where
  "fold_name (a # b # c # r) =
     (if [of_char a, of_char b, of_char c] = [0xE2::nat, 0x84, 0xAA] then CHR ''K'' # fold_name r
      else if [of_char a, of_char b] = [0xC5::nat, 0xBF] then CHR ''S'' # fold_name (c # r)
      else upper_char a # fold_name (b # c # r))"
| "fold_name [a, b] =
     (if [of_char a, of_char b] = [0xC5::nat, 0xBF] then ''S'' else [upper_char a, upper_char b])"
| "fold_name [a] = [upper_char a]"
| "fold_name [] = []"

text \<open>How a field takes a value (with its bytes); \<open>None\<close> is a type error.\<close>

type_synonym 'r setter = "string \<Rightarrow> json \<Rightarrow> 'r \<Rightarrow> 'r option"

definition find_field :: "(string \<times> 'r setter) list \<Rightarrow> string \<Rightarrow> 'r setter option" where
  "find_field fs key = (case map_of fs key of Some st \<Rightarrow> Some st
     | None \<Rightarrow> map_option snd (find (\<lambda>f. fold_name (fst f) = fold_name key) fs))"

fun decode_members ::
  "(string \<times> 'r setter) list \<Rightarrow> (string \<times> string \<times> json) list \<Rightarrow> 'r \<Rightarrow> 'r option" where
  "decode_members fs [] r = Some r"
| "decode_members fs ((k, raw, v) # ms) r =
     (case find_field fs k of None \<Rightarrow> decode_members fs ms r
      | Some st \<Rightarrow> (case st raw v r of None \<Rightarrow> None | Some r' \<Rightarrow> decode_members fs ms r'))"

definition decode_struct :: "(string \<times> 'r setter) list \<Rightarrow> json \<Rightarrow> 'r \<Rightarrow> 'r option" where
  "decode_struct fs v r =
     (case v of JNull \<Rightarrow> Some r | JObj ms \<Rightarrow> decode_members fs ms r | _ \<Rightarrow> None)"

text \<open>\<open>strconv.ParseInt(lit, 10, 64)\<close> on a number literal: digits only, and in range.\<close>

definition lit_int :: "string \<Rightarrow> int option" where
  "lit_int s =
     (let (neg, ds) = (case s of c # r \<Rightarrow> if c = CHR ''-'' then (True, r) else (False, s)
                       | [] \<Rightarrow> (False, []));
          n = (if neg then - int (parse_nat 0 ds) else int (parse_nat 0 ds))
      in if ds \<noteq> [] \<and> list_all is_digit ds \<and> - (2 ^ 63) \<le> n \<and> n < 2 ^ 63 then Some n else None)"

definition set_string :: "(string \<Rightarrow> 'r \<Rightarrow> 'r) \<Rightarrow> 'r setter" where
  "set_string upd raw v r = (case v of JNull \<Rightarrow> Some r | JStr s \<Rightarrow> Some (upd s r) | _ \<Rightarrow> None)"

definition set_bool :: "(bool \<Rightarrow> 'r \<Rightarrow> 'r) \<Rightarrow> 'r setter" where
  "set_bool upd raw v r = (case v of JNull \<Rightarrow> Some r | JBool b \<Rightarrow> Some (upd b r) | _ \<Rightarrow> None)"

definition set_int :: "(int \<Rightarrow> 'r \<Rightarrow> 'r) \<Rightarrow> 'r setter" where
  "set_int upd raw v r = (case v of JNull \<Rightarrow> Some r
     | JNum n \<Rightarrow> (case lit_int n of None \<Rightarrow> None | Some i \<Rightarrow> Some (upd i r)) | _ \<Rightarrow> None)"

text \<open>A \<open>json.RawMessage\<close> takes the bytes, also of \<open>null\<close>.\<close>

definition set_raw :: "(string \<Rightarrow> 'r \<Rightarrow> 'r) \<Rightarrow> 'r setter" where
  "set_raw upd raw v r = Some (upd raw r)"

definition set_struct :: "(string \<times> 'q setter) list \<Rightarrow> ('r \<Rightarrow> 'q) \<Rightarrow> ('q \<Rightarrow> 'r \<Rightarrow> 'r) \<Rightarrow> 'r setter" where
  "set_struct fs get put raw v r = map_option (\<lambda>q. put q r) (decode_struct fs v (get r))"

text \<open>\<open>json.Unmarshal(raw, &target)\<close>\<close>

definition json_unmarshal :: "(json \<Rightarrow> 'r option) \<Rightarrow> string \<Rightarrow> error + 'r" where
  "json_unmarshal dec raw = (case json_parse raw of None \<Rightarrow> Inl (Lib JsonSyntax)
     | Some v \<Rightarrow> (case dec v of None \<Rightarrow> Inl (Lib JsonType) | Some r \<Rightarrow> Inr r))"

text \<open>A slice target: \<open>null\<close> gives the empty slice.\<close>

definition decode_list :: "(string \<Rightarrow> json \<Rightarrow> 'r option) \<Rightarrow> json \<Rightarrow> 'r list option" where
  "decode_list dec v = (case v of JNull \<Rightarrow> Some []
     | JArr xs \<Rightarrow> those (map (\<lambda>(raw, x). dec raw x) xs) | _ \<Rightarrow> None)"

section \<open>Printing\<close>

datatype jval = VNull | VBool bool | VInt int | VStr string | VRaw string
  | VArr "jval list" | VMap "(string \<times> jval) list"

definition hex_digit :: "nat \<Rightarrow> char" where
  "hex_digit n = ''0123456789abcdef'' ! n"

definition u_escape :: "nat \<Rightarrow> string" where
  "u_escape n = backslash # CHR ''u'' #
     [hex_digit (n div 4096 mod 16), hex_digit (n div 256 mod 16),
      hex_digit (n div 16 mod 16), hex_digit (n mod 16)]"

definition escape_ascii :: "char \<Rightarrow> string" where
  "escape_ascii c =
     (if c = CHR 0x22 \<or> c = backslash then [backslash, c]
      else if of_char c = (8::nat) then [backslash, CHR ''b'']
      else if of_char c = (12::nat) then [backslash, CHR ''f'']
      else if of_char c = (10::nat) then [backslash, CHR ''n'']
      else if of_char c = (13::nat) then [backslash, CHR ''r'']
      else if of_char c = (9::nat) then [backslash, CHR ''t'']
      else if of_char c < (0x20::nat) \<or> c \<in> set ''<>&'' then u_escape (of_char c)
      else [c])"

text \<open>U+2028 and U+2029 are escaped too.\<close>

definition line_sep :: "string \<Rightarrow> nat option" where
  "line_sep s = (case map of_char (take 3 s) of [a, b, c] \<Rightarrow>
       if a = (0xE2::nat) \<and> b = 0x80 \<and> (c = 0xA8 \<or> c = 0xA9) then Some (0x2028 + c - 0xA8) else None
     | _ \<Rightarrow> None)"

function print_chars :: "string \<Rightarrow> string" where
  "print_chars s = (case s of [] \<Rightarrow> [] | c # r \<Rightarrow>
     if of_char c < (0x80::nat) then escape_ascii c @ print_chars r
     else (case line_sep s of Some n \<Rightarrow> u_escape n @ print_chars (drop 3 s)
       | None \<Rightarrow> (case utf8_width s of 0 \<Rightarrow> u_escape 0xFFFD @ print_chars r
                  | Suc w \<Rightarrow> take (Suc w) s @ print_chars (drop w r))))"
  by pat_completeness auto
termination
  by (relation "measure length") auto

declare print_chars.simps [simp del]

definition print_string :: "string \<Rightarrow> string" where
  "print_string s = CHR 0x22 # print_chars s @ [CHR 0x22]"

text \<open>
  \<open>json.Compact\<close> with HTML escaping: white space outside of strings goes, the bytes
  \<open><\<close>, \<open>>\<close>, \<open>&\<close> and the line separators become escapes. The state says whether
  we are inside a string and whether the last byte was a backslash there.
\<close>

function compact :: "bool \<Rightarrow> bool \<Rightarrow> string \<Rightarrow> string" where
  "compact ins esc s = (case s of [] \<Rightarrow> [] | c # r \<Rightarrow>
     if c \<in> set ''<>&'' then u_escape (of_char c) @ compact ins False r
     else (case line_sep s of Some n \<Rightarrow> u_escape n @ compact ins False (drop 3 s)
       | None \<Rightarrow>
         if ins then
           c # compact (\<not> (c = CHR 0x22 \<and> \<not> esc)) (c = backslash \<and> \<not> esc) r
         else if json_ws c then compact False False r
         else c # compact (c = CHR 0x22) False r))"
  by pat_completeness auto
termination
  by (relation "measure (\<lambda>(_, _, s). length s)") auto

declare compact.simps [simp del]

definition join :: "string \<Rightarrow> string list \<Rightarrow> string" where
  "join sep xs = concat (case xs of [] \<Rightarrow> [] | y # ys \<Rightarrow> y # map (\<lambda>z. sep @ z) ys)"

fun json_marshal :: "jval \<Rightarrow> string option" where
  "json_marshal VNull = Some ''null''"
| "json_marshal (VBool b) = Some (if b then ''true'' else ''false'')"
| "json_marshal (VInt i) = Some (int_dec i)"
| "json_marshal (VStr s) = Some (print_string s)"
| "json_marshal (VRaw raw) = (if json_parse raw = None then None else Some (compact False False raw))"
| "json_marshal (VArr vs) =
     map_option (\<lambda>ts. CHR ''['' # join '','' ts @ '']'') (those (map json_marshal vs))"
| "json_marshal (VMap kvs) =
     map_option (\<lambda>ts. CHR ''{'' # join '','' (map (\<lambda>(k, t). print_string k @ CHR '':'' # t)
                                                (sort_key fst ts)) @ ''}'')
       (those (map (\<lambda>(k, v). map_option (Pair k) (json_marshal v)) kvs))"

text \<open>A nil \<open>RawMessage\<close> marshals as \<open>null\<close>.\<close>

definition raw_value :: "string option \<Rightarrow> jval" where
  "raw_value m = (case m of None \<Rightarrow> VNull | Some raw \<Rightarrow> VRaw raw)"

lemmas json_eval = json_parse_def expect_def skip_ws_def json_ws_def p_string.simps
  string_step_def utf8_width_def p_number_def p_sign_def p_int_def p_frac_def p_exp_def
  p_digits1_def p_digits_def is_digit_def p_literal_def has_prefix_def max_depth_def
  backslash_def json_unmarshal_def decode_struct_def find_field_def set_string_def set_int_def
  set_bool_def set_raw_def lit_int_def

end
