(* ===== verification/Files.thy ===== *)
theory Files
  imports World GoJson
begin

text \<open>
  Package \<open>os\<close>, as far as the agent uses it: each call first asks the environment whether it
  fails. A write that fails may leave part of the data, a rename is atomic, and \<open>CreateTemp\<close>
  opens with \<open>O_EXCL\<close>, so the name it returns was not in use.
\<close>

definition ReadFile :: "'w env \<Rightarrow> string \<Rightarrow> ('w agent, string) go" where
  "ReadFile env path s = (case env_read env path (ext s) of
      (Some e, w) \<Rightarrow> (Fail (Lib e), s\<lparr>ext := w\<rparr>)
    | (None, w) \<Rightarrow> (case fs s path of
         None \<Rightarrow> (Fail (Lib OsNotExist), s\<lparr>ext := w\<rparr>)
       | Some data \<Rightarrow> (Ok data, s\<lparr>ext := w\<rparr>)))"

definition WriteFile :: "'w env \<Rightarrow> string \<Rightarrow> string \<Rightarrow> ('w agent, unit) go" where
  "WriteFile env path data s = (case env_write env path data (ext s) of
      (None, w) \<Rightarrow> (Ok (), s\<lparr>ext := w, log := log s @ [FsWrite path], fs := (fs s)(path \<mapsto> data)\<rparr>)
    | (Some (e, rest), w) \<Rightarrow> (Fail (Lib e), s\<lparr>ext := w, log := log s @ [FsWrite path],
         fs := (case rest of None \<Rightarrow> fs s | Some d \<Rightarrow> (fs s)(path \<mapsto> d))\<rparr>))"

definition CreateTemp :: "'w env \<Rightarrow> string \<Rightarrow> string \<Rightarrow> ('w agent, string) go" where
  "CreateTemp env dir pattern s = (case env_temp env dir pattern (ext s) of
      (Inl e, w) \<Rightarrow> (Fail (Lib e), s\<lparr>ext := w\<rparr>)
    | (Inr name, w) \<Rightarrow>
        if fs s name \<noteq> None then (Fail (Lib (LibText ''file exists'')), s\<lparr>ext := w\<rparr>)
        else (Ok name, s\<lparr>ext := w, log := log s @ [FsTemp name], fs := (fs s)(name \<mapsto> '''')\<rparr>))"

definition Chmod :: "'w env \<Rightarrow> string \<Rightarrow> ('w agent, unit) go" where
  "Chmod env path s = (case env_chmod env path (ext s) of
      (Some e, w) \<Rightarrow> (Fail (Lib e), s\<lparr>ext := w\<rparr>)
    | (None, w) \<Rightarrow> (Ok (), s\<lparr>ext := w, log := log s @ [FsChmod path]\<rparr>))"

definition Rename :: "'w env \<Rightarrow> string \<Rightarrow> string \<Rightarrow> ('w agent, unit) go" where
  "Rename env old new s = (case env_rename env old new (ext s) of
      (Some e, w) \<Rightarrow> (Fail (Lib e), s\<lparr>ext := w\<rparr>)
    | (None, w) \<Rightarrow> (case fs s old of
         None \<Rightarrow> (Fail (Lib OsNotExist), s\<lparr>ext := w\<rparr>)
       | Some data \<Rightarrow> (Ok (), s\<lparr>ext := w, log := log s @ [FsRename old new],
             fs := (fs s)(old := None, new \<mapsto> data)\<rparr>)))"

definition Remove :: "'w env \<Rightarrow> string \<Rightarrow> ('w agent, unit) go" where
  "Remove env path s = (case env_remove env path (ext s) of
      (Some e, w) \<Rightarrow> (Fail (Lib e), s\<lparr>ext := w\<rparr>)
    | (None, w) \<Rightarrow> (Ok (), s\<lparr>ext := w, log := log s @ [FsRemove path], fs := (fs s)(path := None)\<rparr>))"

definition MkdirAll :: "'w env \<Rightarrow> string \<Rightarrow> ('w agent, unit) go" where
  "MkdirAll env path s = (case env_mkdir env path (ext s) of
      (Some e, w) \<Rightarrow> (Fail (Lib e), s\<lparr>ext := w\<rparr>) | (None, w) \<Rightarrow> (Ok (), s\<lparr>ext := w\<rparr>))"

text \<open>\<open>os.OpenFile\<close> with \<open>O_CREATE\<close>, to see whether a file can be opened.\<close>

definition OpenCreate :: "'w env \<Rightarrow> string \<Rightarrow> ('w agent, unit) go" where
  "OpenCreate env path s = (case env_open env path (ext s) of
      (Some e, w) \<Rightarrow> (Fail (Lib e), s\<lparr>ext := w\<rparr>)
    | (None, w) \<Rightarrow> (Ok (), s\<lparr>ext := w,
         fs := (if fs s path = None then (fs s)(path \<mapsto> '''') else fs s)\<rparr>))"

section \<open>Package filepath\<close>

fun split_slash :: "string \<Rightarrow> string list" where
  "split_slash [] = [[]]"
| "split_slash (c # s) = (if c = CHR ''/'' then [] # split_slash s
     else (case split_slash s of [] \<Rightarrow> [[c]] | p # ps \<Rightarrow> (c # p) # ps))"

text \<open>One element of a path, on the reversed list of the elements so far.\<close>

definition clean_step :: "bool \<Rightarrow> string \<Rightarrow> string list \<Rightarrow> string list" where
  "clean_step rooted x acc =
     (if x = '''' \<or> x = ''.'' then acc
      else if x = ''..'' then
        (case acc of [] \<Rightarrow> if rooted then [] else [''..'']
         | y # ys \<Rightarrow> if y = ''..'' then ''..'' # acc else ys)
      else x # acc)"

definition path_clean :: "string \<Rightarrow> string" where
  "path_clean p =
     (if p = '''' then ''.''
      else let rooted = (hd p = CHR ''/'');
               out = (if rooted then ''/'' else '''') @ join ''/'' (rev (fold (clean_step rooted) (split_slash p) []))
           in if out = '''' then ''.'' else out)"

text \<open>\<open>filepath.Dir\<close> and \<open>filepath.Join\<close>\<close>

definition path_dir :: "string \<Rightarrow> string" where
  "path_dir p = path_clean (rev (dropWhile (\<lambda>c. c \<noteq> CHR ''/'') (rev p)))"

definition path_join :: "string \<Rightarrow> string \<Rightarrow> string" where
  "path_join a b = (if a = '''' \<and> b = '''' then '''' else
     path_clean (join ''/'' (filter (\<lambda>x. x \<noteq> '''') [a, b])))"

lemma path_examples:
  "path_dir ''/etc/proxmoxvue-agent/config.yml'' = ''/etc/proxmoxvue-agent''"
  "path_dir ''config.yml'' = ''.''"
  "path_join (path_dir ''/etc/proxmoxvue-agent/config.yml'') ''.last-poll'' = ''/etc/proxmoxvue-agent/.last-poll''"
  by code_simp+

lemmas file_ops = ReadFile_def WriteFile_def CreateTemp_def Chmod_def Rename_def Remove_def
  MkdirAll_def OpenCreate_def

lemma file_ops_return [go_total]:
  "returns (ReadFile env p)" "returns (WriteFile env p d)" "returns (CreateTemp env p d)"
  "returns (Chmod env p)" "returns (Rename env p d)" "returns (Remove env p)" "returns (MkdirAll env p)"
  "returns (OpenCreate env p)"
  by (auto simp: returns_def file_ops split: prod.splits option.splits sum.splits)

text \<open>Reading and the directory calls leave no trace in the log.\<close>

lemma quiet_files [go_effect]:
  "changes (adds P) (ReadFile env p)" "changes (adds P) (MkdirAll env p)"
  "changes (adds P) (OpenCreate env p)"
  by (auto simp: changes_def adds_def file_ops split: prod.splits option.splits)

lemma logged_files [go_effect]:
  "P (FsWrite p) \<Longrightarrow> changes (adds P) (WriteFile env p d)"
  "(\<And>name. P (FsTemp name)) \<Longrightarrow> changes (adds P) (CreateTemp env dir pat)"
  "P (FsChmod p) \<Longrightarrow> changes (adds P) (Chmod env p)"
  "P (FsRename p q) \<Longrightarrow> changes (adds P) (Rename env p q)"
  "P (FsRemove p) \<Longrightarrow> changes (adds P) (Remove env p)"
  by (auto simp: changes_def adds_def file_ops split: prod.splits option.splits sum.splits)

section \<open>Which files a call touches\<close>

definition keeps_files :: "string set \<Rightarrow> 'w agent \<Rightarrow> 'w agent \<Rightarrow> bool" where
  "keeps_files A s t \<longleftrightarrow> (\<forall>p \<in> A. fs t p = fs s p)"

interpretation keeps_files: effect "keeps_files A" for A :: "string set"
  by unfold_locales (auto simp: keeps_files_def)

lemmas keeps_files_combinators [go_effect] = keeps_files.combinators

lemma keeps_files_ops [go_effect]:
  "changes (keeps_files A) (ReadFile env p)" "changes (keeps_files A) (MkdirAll env p)"
  "changes (keeps_files A) (Chmod env p)"
  "p \<notin> A \<Longrightarrow> changes (keeps_files A) (WriteFile env p d)"
  "p \<notin> A \<Longrightarrow> q \<notin> A \<Longrightarrow> changes (keeps_files A) (Rename env p q)"
  "p \<notin> A \<Longrightarrow> changes (keeps_files A) (Remove env p)"
  "p \<notin> A \<Longrightarrow> changes (keeps_files A) (OpenCreate env p)"
  by (auto simp: changes_def keeps_files_def file_ops split: prod.splits option.splits)

end
