(* ===== verification/GoEncoding.thy ===== *)
theory GoEncoding
  imports GoJson
begin

text \<open>
  The encodings the agent takes from the standard library: \<open>url.QueryEscape\<close>,
  \<open>url.PathEscape\<close>, \<open>url.Values.Encode\<close> and \<open>base64.StdEncoding\<close>. The lemmas
  say what the agent relies on: an escaped path segment holds no separator, an encoded form
  can be read back, and base64 decoding inverts encoding.
\<close>

section \<open>Percent encoding\<close>

definition upper_hex :: "nat \<Rightarrow> char" where
  "upper_hex n = ''0123456789ABCDEF'' ! n"

definition pct :: "char \<Rightarrow> string" where
  "pct c = [CHR ''%'', upper_hex (of_char c div 16), upper_hex (of_char c mod 16)]"

definition is_alnum :: "char \<Rightarrow> bool" where
  "is_alnum c \<longleftrightarrow> byte_in 97 122 c \<or> byte_in 65 90 c \<or> is_digit c"

definition unreserved :: "char \<Rightarrow> bool" where
  "unreserved c \<longleftrightarrow> is_alnum c \<or> c \<in> set ''-_.~''"

definition query_char :: "char \<Rightarrow> string" where
  "query_char c = (if unreserved c then [c] else if c = CHR '' '' then ''+'' else pct c)"

definition path_char :: "char \<Rightarrow> string" where
  "path_char c = (if unreserved c \<or> c \<in> set ''$&+=:@'' then [c] else pct c)"

definition query_escape :: "string \<Rightarrow> string" where
  "query_escape s = concat (map query_char s)"

definition path_escape :: "string \<Rightarrow> string" where
  "path_escape s = concat (map path_char s)"

text \<open>
  \<open>url.Values\<close> with one value per key: a list of pairs with distinct keys; \<open>Set\<close>
  replaces, \<open>Encode\<close> prints in key order.
\<close>

type_synonym url_values = "(string \<times> string) list"

definition values_set :: "string \<Rightarrow> string \<Rightarrow> url_values \<Rightarrow> url_values" where
  "values_set k v q = filter (\<lambda>(k', _). k' \<noteq> k) q @ [(k, v)]"

definition values_encode :: "url_values \<Rightarrow> string" where
  "values_encode q = join ''&'' (map (\<lambda>(k, v). query_escape k @ CHR ''='' # query_escape v)
                                     (sort_key fst q))"

lemma nibbles: "(n::nat) < 256 \<Longrightarrow> n div 16 < 16" "n mod 16 < (16::nat)"
  by arith+

lemma hex_bytes: "n < 16 \<Longrightarrow> upper_hex n \<in> set ''0123456789ABCDEF''"
  unfolding upper_hex_def by (rule nth_mem) simp

lemma pct_chars: "x \<in> set (pct c) \<Longrightarrow> x = CHR ''%'' \<or> x \<in> set ''0123456789ABCDEF''"
  using hex_bytes [OF nibbles(1) [of "of_char c"]] hex_bytes [OF nibbles(2) [of "of_char c"]]
  by (simp add: pct_def) (elim disjE; simp)

text \<open>No escaped string holds a character that separates: in a segment neither \<open>/\<close> nor
  \<open>?\<close> nor \<open>#\<close>, in a form neither \<open>&\<close> nor \<open>=\<close>.\<close>

lemma unreserved_plain: "c \<in> set ''/?#&=%+ '' \<Longrightarrow> \<not> unreserved c"
  by (auto simp: unreserved_def is_alnum_def byte_in_def is_digit_def)

lemma pct_plain: "x \<in> set (pct c) \<Longrightarrow> x \<notin> set ''/?#&= ''"
  by (drule pct_chars) auto

lemma path_char_safe: "c \<in> set (path_char d) \<Longrightarrow> c \<notin> set ''/?# ''"
  using unreserved_plain [of c] pct_plain [of c d] by (auto simp: path_char_def split: if_splits)

lemma query_char_safe: "c \<in> set (query_char d) \<Longrightarrow> c \<notin> set ''/?#&= ''"
  using unreserved_plain [of c] pct_plain [of c d] by (auto simp: query_char_def split: if_splits)

lemma concat_map_set: "c \<in> set (concat (map f s)) \<Longrightarrow> \<exists>d. c \<in> set (f d)"
  by auto

lemma path_escape_safe: "c \<in> set (path_escape s) \<Longrightarrow> c \<notin> set ''/?# ''"
  unfolding path_escape_def by (drule concat_map_set) (elim exE, rule path_char_safe)

lemma query_escape_safe: "c \<in> set (query_escape s) \<Longrightarrow> c \<notin> set ''/?#&= ''"
  unfolding query_escape_def by (drule concat_map_set) (elim exE, rule query_char_safe)

lemma path_escape_plain: "list_all unreserved s \<Longrightarrow> path_escape s = s"
  by (induction s) (auto simp: path_escape_def path_char_def)

section \<open>Reading an escaped string back\<close>

fun query_unescape :: "string \<Rightarrow> string option" where
  "query_unescape [] = Some []"
| "query_unescape (c # r) =
     (if c = CHR ''%'' then
        (case r of a # b # t \<Rightarrow> (case (hex_val a, hex_val b) of
            (Some x, Some y) \<Rightarrow> map_option ((#) (char_of (x * 16 + y))) (query_unescape t)
          | _ \<Rightarrow> None)
         | _ \<Rightarrow> None)
      else map_option ((#) (if c = CHR ''+'' then CHR '' '' else c)) (query_unescape r))"

lemma hex_val_upper_hex: "n < 16 \<Longrightarrow> hex_val (upper_hex n) = Some n"
proof -
  have "list_all (\<lambda>n. hex_val (upper_hex n) = Some n) [0..<16]" by code_simp
  then show "n < 16 \<Longrightarrow> ?thesis" by (simp add: list_all_iff)
qed

lemma query_unescape_pct: "query_unescape (pct c @ r) = map_option ((#) c) (query_unescape r)"
  using nibbles [of "of_char c"] by (simp add: pct_def hex_val_upper_hex)

lemma query_unescape_escape: "query_unescape (query_escape s) = Some s"
proof (induction s)
  case Nil
  then show ?case by (simp add: query_escape_def)
next
  case (Cons c s)
  have *: "query_escape (c # s) = query_char c @ query_escape s"
    by (simp add: query_escape_def)
  show ?case
    using Cons unreserved_plain [of c] by (auto simp: * query_char_def query_unescape_pct)
qed

lemma query_escape_inj: "query_escape s = query_escape t \<Longrightarrow> s = t"
  by (metis query_unescape_escape option.inject)

section \<open>base64.StdEncoding\<close>

definition b64_table :: string where
  "b64_table = ''ABCDEFGHIJKLMNOPQRSTUVWXYZabcdefghijklmnopqrstuvwxyz0123456789+/''"

definition b64_char :: "nat \<Rightarrow> char" where
  "b64_char n = b64_table ! n"

definition b64_val :: "char \<Rightarrow> nat option" where
  "b64_val c =
     (if byte_in 65 90 c then Some (of_char c - 65)
      else if byte_in 97 122 c then Some (of_char c - 71)
      else if is_digit c then Some (of_char c + 4)
      else if c = CHR ''+'' then Some 62 else if c = CHR ''/'' then Some 63 else None)"

fun b64_encode_nats :: "nat list \<Rightarrow> string" where
  "b64_encode_nats (a # b # c # r) =
     [b64_char (a div 4), b64_char (a mod 4 * 16 + b div 16),
      b64_char (b mod 16 * 4 + c div 64), b64_char (c mod 64)] @ b64_encode_nats r"
| "b64_encode_nats [a, b] =
     [b64_char (a div 4), b64_char (a mod 4 * 16 + b div 16), b64_char (b mod 16 * 4), CHR ''='']"
| "b64_encode_nats [a] = [b64_char (a div 4), b64_char (a mod 4 * 16), CHR ''='', CHR ''='']"
| "b64_encode_nats [] = []"

text \<open>\<open>EncodeToString\<close>\<close>

definition b64_encode :: "string \<Rightarrow> string" where
  "b64_encode s = b64_encode_nats (map of_char s)"

definition dec2 :: "nat \<Rightarrow> nat \<Rightarrow> nat" where "dec2 w x = w * 4 + x div 16"
definition dec3 :: "nat \<Rightarrow> nat \<Rightarrow> nat" where "dec3 x y = x mod 16 * 16 + y div 4"
definition dec4 :: "nat \<Rightarrow> nat \<Rightarrow> nat" where "dec4 y z = y mod 4 * 64 + z"

fun b64_groups :: "string \<Rightarrow> nat list option" where
  "b64_groups [] = Some []"
| "b64_groups (a # b # c # d # r) =
     (case (b64_val a, b64_val b) of (Some w, Some x) \<Rightarrow>
        (case (b64_val c, b64_val d) of
           (Some y, Some z) \<Rightarrow> map_option (\<lambda>t. dec2 w x # dec3 x y # dec4 y z # t) (b64_groups r)
         | (Some y, None) \<Rightarrow> if d = CHR ''='' \<and> r = [] then Some [dec2 w x, dec3 x y] else None
         | (None, _) \<Rightarrow> if c = CHR ''='' \<and> d = CHR ''='' \<and> r = [] then Some [dec2 w x] else None)
      | _ \<Rightarrow> None)"
| "b64_groups _ = None"

text \<open>\<open>DecodeString\<close>: line breaks are skipped, the unused bits of the last group ignored.\<close>

definition b64_decode :: "string \<Rightarrow> error + string" where
  "b64_decode s = (case b64_groups (filter (\<lambda>c. of_char c \<notin> {10::nat, 13}) s) of
     None \<Rightarrow> Inl (Lib Base64Corrupt) | Some ns \<Rightarrow> Inr (map char_of ns))"

lemma below_64:
  assumes "P 0" "P 1" "list_all P [2..<64]" "n < (64::nat)"
  shows "P n"
proof (cases "n < 2")
  case True
  then have "n = 0 \<or> n = 1" by arith
  with assms show ?thesis by blast
next
  case False
  with assms(4) have "n \<in> set [2..<64]" unfolding set_upt by auto
  with assms(3) show ?thesis unfolding list_all_iff by blast
qed

lemma b64_val_char: "n < 64 \<Longrightarrow> b64_val (b64_char n) = Some n"
  by (rule below_64)
    (simp_all add: upt_rec_numeral b64_val_def b64_char_def b64_table_def byte_in_def is_digit_def)

lemma b64_char_plain: "n < 64 \<Longrightarrow> of_char (b64_char n) \<noteq> (10::nat) \<and> of_char (b64_char n) \<noteq> (13::nat)"
  by (rule below_64) (simp_all add: upt_rec_numeral b64_char_def b64_table_def)

lemma b64_bounds:
  assumes "a < 256" "b < 256" "c < (256::nat)"
  shows "a div 4 < 64" "a mod 4 * 16 + b div 16 < 64" "b mod 16 * 4 + c div 64 < 64" "c mod 64 < 64"
    "a mod 4 * 16 < 64" "b mod 16 * 4 < 64"
  using assms by arith+

lemma b64_bits:
  assumes "a < 256" "b < 256" "c < (256::nat)"
  shows "dec2 (a div 4) (a mod 4 * 16 + b div 16) = a" "dec2 (a div 4) (a mod 4 * 16) = a"
    "dec3 (a mod 4 * 16 + b div 16) (b mod 16 * 4 + c div 64) = b"
    "dec3 (a mod 4 * 16 + b div 16) (b mod 16 * 4) = b"
    "dec4 (b mod 16 * 4 + c div 64) (c mod 64) = c"
proof -
  have b: "b div 16 < 16" and c: "c div 64 < 4" using assms by arith+
  show "dec2 (a div 4) (a mod 4 * 16 + b div 16) = a" "dec2 (a div 4) (a mod 4 * 16) = a"
    "dec3 (a mod 4 * 16 + b div 16) (b mod 16 * 4 + c div 64) = b"
    "dec3 (a mod 4 * 16 + b div 16) (b mod 16 * 4) = b"
    "dec4 (b mod 16 * 4 + c div 64) (c mod 64) = c"
    using b c by (simp_all add: dec2_def dec3_def dec4_def)
qed

lemma b64_val_eq: "b64_val CHR ''='' = None"
  by (simp add: b64_val_def byte_in_def is_digit_def)

lemma b64_groups_encode: "\<forall>n \<in> set ns. n < 256 \<Longrightarrow> b64_groups (b64_encode_nats ns) = Some ns"
proof (induction ns rule: b64_encode_nats.induct)
  case (1 a b c r)
  then show ?case
    using b64_bounds [of a b c] b64_bits [of a b c] by (simp add: b64_val_char)
next
  case (2 a b)
  then show ?case
    using b64_bounds [of a b 0] b64_bits [of a b 0] by (simp add: b64_val_char b64_val_eq)
next
  case (3 a)
  then show ?case
    using b64_bounds [of a 0 0] b64_bits [of a 0 0] by (simp add: b64_val_char b64_val_eq)
qed simp

lemma b64_encode_plain:
  "\<forall>n \<in> set ns. n < 256 \<Longrightarrow> \<forall>c \<in> set (b64_encode_nats ns). of_char c \<notin> {10::nat, 13}"
proof (induction ns rule: b64_encode_nats.induct)
  case (1 a b c r)
  then show ?case using b64_bounds [of a b c] by (simp add: b64_char_plain)
next
  case (2 a b)
  then show ?case using b64_bounds [of a b 0] by (simp add: b64_char_plain)
next
  case (3 a)
  then show ?case using b64_bounds [of a 0 0] by (simp add: b64_char_plain)
qed simp

lemma b64_decode_encode: "b64_decode (b64_encode s) = Inr s"
proof -
  let ?ns = "map of_char s :: nat list"
  have b: "\<forall>n \<in> set ?ns. n < 256" by auto
  have "filter (\<lambda>c. of_char c \<notin> {10::nat, 13}) (b64_encode_nats ?ns) = b64_encode_nats ?ns"
    using b64_encode_plain [OF b] by (simp add: filter_id_conv)
  then show ?thesis
    by (simp add: b64_decode_def b64_encode_def b64_groups_encode [OF b] o_def map_idI)
qed

end
