(* ===== verification/GoUrl.thy ===== *)
theory GoUrl
  imports GoEncoding
begin

text \<open>
  Two more pieces of the standard library: the host that \<open>url.Parse\<close> finds in a URL (with its
  errors), which the realtime address is derived from, and the \<open>%q\<close> of package \<open>fmt\<close>.
\<close>

section \<open>url.Parse\<close>

definition cut_at :: "char \<Rightarrow> string \<Rightarrow> string \<times> string" where
  "cut_at c s = (takeWhile (\<lambda>x. x \<noteq> c) s, tl (dropWhile (\<lambda>x. x \<noteq> c) s))"

definition is_ctl :: "char \<Rightarrow> bool" where
  "is_ctl c \<longleftrightarrow> of_char c < (32::nat) \<or> of_char c = (127::nat)"

definition is_letter :: "char \<Rightarrow> bool" where
  "is_letter c \<longleftrightarrow> byte_in 97 122 c \<or> byte_in 65 90 c"

text \<open>\<open>getScheme\<close>: \<open>acc\<close> is what was read so far, reversed; \<open>None\<close> is the error.\<close>

fun get_scheme :: "string \<Rightarrow> string \<Rightarrow> (string \<times> string) option" where
  "get_scheme acc [] = Some ('''', rev acc)"
| "get_scheme acc (c # r) =
     (if is_letter c \<or> (acc \<noteq> [] \<and> (is_digit c \<or> c \<in> set ''+-.'')) then get_scheme (c # acc) r
      else if c = CHR '':'' then (if acc = [] then None else Some (rev acc, r))
      else Some ('''', rev acc @ c # r))"

datatype url_mode = UPath | UHost | UZone

definition should_escape_host :: "char \<Rightarrow> bool" where
  "should_escape_host c \<longleftrightarrow>
     \<not> (is_alnum c \<or> c \<in> set ''!$&()*+,;=:[]<>-_.~'' \<or> of_char c \<in> {0x22::nat, 0x27})"

fun url_unescape :: "url_mode \<Rightarrow> string \<Rightarrow> string option" where
  "url_unescape m [] = Some []"
| "url_unescape m (c # r) =
     (if c = CHR ''%'' then
        (case r of a # b # t \<Rightarrow> (case (hex_val a, hex_val b) of
            (Some x, Some y) \<Rightarrow>
              (let v = char_of (x * 16 + y); is25 = (a = CHR ''2'' \<and> b = CHR ''5'') in
               if (m = UHost \<and> x < 8 \<and> \<not> is25) \<or>
                  (m = UZone \<and> \<not> is25 \<and> v \<noteq> CHR '' '' \<and> should_escape_host v) then None
               else map_option ((#) v) (url_unescape m t))
          | _ \<Rightarrow> None)
         | _ \<Rightarrow> None)
      else if m \<noteq> UPath \<and> of_char c < (0x80::nat) \<and> should_escape_host c then None
      else map_option ((#) c) (url_unescape m r))"

definition valid_port :: "string \<Rightarrow> bool" where
  "valid_port s = (case s of [] \<Rightarrow> True | c # r \<Rightarrow> c = CHR '':'' \<and> list_all is_digit r)"

text \<open>What follows the last \<open>c\<close>, and what precedes it.\<close>

definition after_last :: "char \<Rightarrow> string \<Rightarrow> string" where
  "after_last c s = rev (takeWhile (\<lambda>x. x \<noteq> c) (rev s))"

definition before_last :: "char \<Rightarrow> string \<Rightarrow> string" where
  "before_last c s = rev (tl (dropWhile (\<lambda>x. x \<noteq> c) (rev s)))"

fun find_zone :: "string \<Rightarrow> string \<Rightarrow> (string \<times> string) option" where
  "find_zone acc [] = None"
| "find_zone acc (c # r) = (if has_prefix (c # r) ''%25'' then Some (rev acc, c # r)
     else find_zone (c # acc) r)"

definition parse_host :: "string \<Rightarrow> string option" where
  "parse_host h =
     (if has_prefix h ''['' then
        if CHR '']'' \<notin> set h then None
        else if \<not> valid_port (after_last CHR '']'' h) then None
        else (case find_zone [] (before_last CHR '']'' h) of
            None \<Rightarrow> url_unescape UHost h
          | Some (h1, z) \<Rightarrow>
              Option.bind (url_unescape UHost h1) (\<lambda>a.
              Option.bind (url_unescape UZone z) (\<lambda>b.
              Option.bind (url_unescape UHost ('']'' @ after_last CHR '']'' h)) (\<lambda>c.
                Some (a @ b @ c)))))
      else if CHR '':'' \<in> set h \<and> \<not> valid_port (CHR '':'' # after_last CHR '':'' h) then None
      else url_unescape UHost h)"

definition valid_userinfo :: "string \<Rightarrow> bool" where
  "valid_userinfo s \<longleftrightarrow>
     list_all (\<lambda>c. is_alnum c \<or> c \<in> set ''-._:~!$&()*+,;=%@'' \<or> of_char c = (0x27::nat)) s"

definition parse_authority :: "string \<Rightarrow> string option" where
  "parse_authority a =
     (if CHR ''@'' \<notin> set a then parse_host a
      else Option.bind (parse_host (after_last CHR ''@'' a)) (\<lambda>h.
        let u = before_last CHR ''@'' a in
        if \<not> valid_userinfo u \<or> url_unescape UPath (fst (cut_at CHR '':'' u)) = None
           \<or> url_unescape UPath (snd (cut_at CHR '':'' u)) = None then None
        else Some h))"

text \<open>\<open>u, err := url.Parse(s); u.Host\<close>\<close>

definition url_parse_host :: "string \<Rightarrow> string option" where
  "url_parse_host raw =
     (let u = fst (cut_at CHR ''#'' raw); frag = snd (cut_at CHR ''#'' raw) in
      if list_ex is_ctl u then None
      else Option.bind
        (if u = ''*'' then Some ''''
         else Option.bind (get_scheme [] u) (\<lambda>(scheme, r).
           let r = fst (cut_at CHR ''?'' r) in
           if \<not> has_prefix r ''/'' \<and> scheme \<noteq> '''' then Some ''''
           else if \<not> has_prefix r ''/'' \<and> CHR '':'' \<in> set (fst (cut_at CHR ''/'' r)) then None
           else if (scheme \<noteq> '''' \<or> \<not> has_prefix r ''///'') \<and> has_prefix r ''//'' then
             (let au = takeWhile (\<lambda>c. c \<noteq> CHR ''/'') (drop 2 r);
                  path = dropWhile (\<lambda>c. c \<noteq> CHR ''/'') (drop 2 r) in
              Option.bind (parse_authority au) (\<lambda>h.
                if url_unescape UPath path = None then None else Some h))
           else if url_unescape UPath r = None then None else Some ''''))
        (\<lambda>h. if frag \<noteq> '''' \<and> url_unescape UPath frag = None then None else Some h))"

lemma cut_at_plain: "c \<notin> set s \<Longrightarrow> cut_at c s = (s, '''')"
  by (induction s) (auto simp: cut_at_def)

lemma has_prefix_Cons [simp]:
  "has_prefix (c # s) (d # p) \<longleftrightarrow> c = d \<and> has_prefix s p" "has_prefix s []"
  "\<not> has_prefix [] (d # p)"
  by (auto simp: has_prefix_def)

text \<open>A host name, with or without a port.\<close>

definition host_char :: "char \<Rightarrow> bool" where
  "host_char c \<longleftrightarrow> is_alnum c \<or> c = CHR ''-'' \<or> c = CHR ''.''"

lemma host_char_not: "host_char c \<Longrightarrow> c \<notin> set ''%@:/?#[]*''"
  by (auto simp: host_char_def is_alnum_def byte_in_def is_digit_def)

lemma host_char_ok: "host_char c \<Longrightarrow> \<not> is_ctl c \<and> \<not> should_escape_host c"
  by (auto simp: host_char_def is_alnum_def byte_in_def is_digit_def is_ctl_def should_escape_host_def)

lemma url_unescape_plain:
  "list_all host_char h \<Longrightarrow> url_unescape m h = Some h"
  by (induction h) (auto dest: host_char_not host_char_ok)

lemma parse_host_plain:
  assumes "list_all host_char h"
  shows "parse_host h = Some h"
proof -
  have "CHR '':'' \<notin> set h" using assms host_char_not by (auto simp: list_all_iff)
  moreover have "\<not> has_prefix h ''[''"
    using assms host_char_not by (cases h) auto
  ultimately show ?thesis using assms by (simp add: parse_host_def url_unescape_plain)
qed

lemma url_parse_https:
  assumes h: "list_all host_char h"
  shows "url_parse_host (''https://'' @ h) = Some h"
proof -
  have nin: "c \<notin> set h" if "c \<in> set ''%@:/?#[]*''" for c
    using h host_char_not that by (auto simp: list_all_iff)
  have "list_all (\<lambda>c. \<not> is_ctl c) h" using h host_char_ok by (auto simp: list_all_iff)
  then have ctl: "\<not> list_ex is_ctl h" by (auto simp: list_all_iff list_ex_iff)
  have tw: "takeWhile (\<lambda>c. c \<noteq> CHR ''/'') h = h" "dropWhile (\<lambda>c. c \<noteq> CHR ''/'') h = []"
    using nin by (auto simp: takeWhile_eq_all_conv dropWhile_eq_Nil_conv)
  have c1: "cut_at CHR ''#'' (''https://'' @ h) = (''https://'' @ h, '''')"
    by (rule cut_at_plain) (use nin in simp)
  have c2: "cut_at CHR ''?'' (''//'' @ h) = (''//'' @ h, '''')"
    by (rule cut_at_plain) (use nin in simp)
  have ctl': "\<not> list_ex is_ctl (''https://'' @ h)" using ctl by (simp add: is_ctl_def)
  have g: "get_scheme [] (''https://'' @ h) = Some (''https'', ''//'' @ h)"
    by (simp add: is_letter_def byte_in_def is_digit_def)
  have a: "parse_authority h = Some h"
    using nin parse_host_plain [OF h] by (simp add: parse_authority_def)
  show ?thesis
    unfolding url_parse_host_def
    by (simp only: c1 g fst_conv snd_conv Let_def ctl')
      (simp add: c2 [simplified] a tw)
qed

section \<open>fmt.Sprintf with the verb q\<close>

text \<open>The code point that starts a string, for valid UTF-8 (\<open>utf8_width\<close> is its width).\<close>

definition utf8_point :: "string \<Rightarrow> nat" where
  "utf8_point s = (case map of_char (take (utf8_width s) s) of
     [a] \<Rightarrow> a
   | [a, b] \<Rightarrow> (a mod 32) * 64 + b mod 64
   | [a, b, c] \<Rightarrow> (a mod 16) * 4096 + (b mod 64) * 64 + c mod 64
   | [a, b, c, d] \<Rightarrow> (a mod 8) * 262144 + (b mod 64) * 4096 + (c mod 64) * 64 + d mod 64
   | _ \<Rightarrow> 0xFFFD)"

definition hex_str :: "nat \<Rightarrow> nat \<Rightarrow> string" where
  "hex_str w n = map (\<lambda>i. hex_digit (n div 16 ^ i mod 16)) (rev [0..<w])"

definition quote_ascii :: "char \<Rightarrow> string" where
  "quote_ascii c =
     (if c = CHR 0x22 \<or> c = backslash then [backslash, c]
      else if byte_in 32 126 c then [c]
      else (case map_of [(7::nat, CHR ''a''), (8, CHR ''b''), (9, CHR ''t''), (10, CHR ''n''),
                         (11, CHR ''v''), (12, CHR ''f''), (13, CHR ''r'')] (of_char c) of
              Some e \<Rightarrow> [backslash, e]
            | None \<Rightarrow> backslash # CHR ''x'' # hex_str 2 (of_char c)))"

text \<open>\<open>isprint\<close> is \<open>strconv.IsPrint\<close> beyond ASCII, a table of the Unicode standard.\<close>

function quote_chars :: "(nat \<Rightarrow> bool) \<Rightarrow> string \<Rightarrow> string" where
  "quote_chars isprint s = (case s of [] \<Rightarrow> [] | c # r \<Rightarrow>
     if of_char c < (0x80::nat) then quote_ascii c @ quote_chars isprint r
     else if utf8_width s = 0 then backslash # CHR ''x'' # hex_str 2 (of_char c) @ quote_chars isprint r
     else (let w = utf8_width s; p = utf8_point s in
           (if isprint p then take w s
            else if p < 0x10000 then backslash # CHR ''u'' # hex_str 4 p
            else backslash # CHR ''U'' # hex_str 8 p) @ quote_chars isprint (drop w s)))"
  by pat_completeness auto
termination
  by (relation "measure (\<lambda>(_, s). length s)") auto

declare quote_chars.simps [simp del]

definition quote :: "(nat \<Rightarrow> bool) \<Rightarrow> string \<Rightarrow> string" where
  "quote isprint s = CHR 0x22 # quote_chars isprint s @ [CHR 0x22]"

end
