(* ===== verification/Config.thy ===== *)
theory Config
  imports Files GoUrl
begin

text \<open>
  \<open>internal/config/config.go\<close>: the configuration file, its defaults, its redacted printing, and
  \<open>Save\<close> and \<open>Load\<close>. The YAML library is not part of the repository: it is the record
  \<open>yaml\<close>, and \<open>yaml_ok\<close> states what the agent relies on.
\<close>

section \<open>The file\<close>

record SupabaseConfig =
  sc_ClusterID :: string
  sc_RefreshToken :: string
  sc_PrivateKey :: string

record ProxmoxConfig =
  px_APIURL :: string
  px_APITokenID :: string
  px_APITokenSecret :: string
  px_VerifyTLS :: bool

record AgentConfig =
  ag_PollIntervalSeconds :: int
  ag_LogLevel :: string
  ag_LogFilePath :: string
  ag_LogMaxSizeMB :: int
  ag_LogMaxBackups :: int
  ag_LogMaxAgeDays :: int

record File =
  f_Supabase :: SupabaseConfig
  f_Proxmox :: ProxmoxConfig
  f_Agent :: AgentConfig

definition empty_agent :: AgentConfig where
  "empty_agent = \<lparr>ag_PollIntervalSeconds = 0, ag_LogLevel = '''', ag_LogFilePath = '''',
     ag_LogMaxSizeMB = 0, ag_LogMaxBackups = 0, ag_LogMaxAgeDays = 0\<rparr>"

definition empty_file :: File where
  "empty_file = \<lparr>f_Supabase = \<lparr>sc_ClusterID = '''', sc_RefreshToken = '''', sc_PrivateKey = ''''\<rparr>,
     f_Proxmox = \<lparr>px_APIURL = '''', px_APITokenID = '''', px_APITokenSecret = '''', px_VerifyTLS = False\<rparr>,
     f_Agent = empty_agent\<rparr>"

section \<open>Printing without the secrets\<close>

definition masked :: "string \<Rightarrow> string" where
  "masked s = (if s \<noteq> '''' then ''[REDACTED]'' else ''<unset>'')"

definition String_supabase :: "SupabaseConfig \<Rightarrow> string" where
  "String_supabase c = ''{ClusterID:'' @ sc_ClusterID c @ '' RefreshToken:'' @ masked (sc_RefreshToken c)
     @ '' PrivateKey:'' @ masked (sc_PrivateKey c) @ ''}''"

definition String_proxmox :: "ProxmoxConfig \<Rightarrow> string" where
  "String_proxmox c = ''{APIURL:'' @ px_APIURL c @ '' APITokenID:'' @ px_APITokenID c
     @ '' APITokenSecret:'' @ masked (px_APITokenSecret c) @ '' VerifyTLS:''
     @ (if px_VerifyTLS c then ''true'' else ''false'') @ ''}''"

section \<open>Defaults\<close>

definition DefaultLogFilePath :: string where "DefaultLogFilePath = ''/var/log/proxmoxvue-agent.log''"
definition DefaultPollIntervalSeconds :: int where "DefaultPollIntervalSeconds = 30"
definition DefaultLogLevel :: string where "DefaultLogLevel = ''info''"
definition DefaultLogMaxSizeMB :: int where "DefaultLogMaxSizeMB = 10"
definition DefaultLogMaxBackups :: int where "DefaultLogMaxBackups = 5"
definition DefaultLogMaxAgeDays :: int where "DefaultLogMaxAgeDays = 30"

lemmas defaults = DefaultLogFilePath_def DefaultPollIntervalSeconds_def DefaultLogLevel_def
  DefaultLogMaxSizeMB_def DefaultLogMaxBackups_def DefaultLogMaxAgeDays_def

record LogRotation =
  lr_FilePath :: string
  lr_MaxSizeMB :: int
  lr_MaxBackups :: int
  lr_MaxAgeDays :: int

definition EffectiveLogRotation :: "AgentConfig \<Rightarrow> LogRotation" where
  "EffectiveLogRotation c =
     (let r = \<lparr>lr_FilePath = ag_LogFilePath c, lr_MaxSizeMB = ag_LogMaxSizeMB c,
               lr_MaxBackups = ag_LogMaxBackups c, lr_MaxAgeDays = ag_LogMaxAgeDays c\<rparr>;
          r = (if lr_FilePath r = '''' then r\<lparr>lr_FilePath := DefaultLogFilePath\<rparr> else r);
          r = (if lr_MaxSizeMB r = 0 then r\<lparr>lr_MaxSizeMB := DefaultLogMaxSizeMB\<rparr> else r);
          r = (if lr_MaxBackups r = 0 then r\<lparr>lr_MaxBackups := DefaultLogMaxBackups\<rparr> else r)
      in (if lr_MaxAgeDays r = 0 then r\<lparr>lr_MaxAgeDays := DefaultLogMaxAgeDays\<rparr> else r))"

definition ValidateLogging :: "AgentConfig \<Rightarrow> error option" where
  "ValidateLogging c =
     (if ag_LogMaxSizeMB c < 0 then
        Some (Err (''log_max_size_mb must be >= 0, got '' @ int_dec (ag_LogMaxSizeMB c)))
      else if ag_LogMaxBackups c < 0 then
        Some (Err (''log_max_backups must be >= 0, got '' @ int_dec (ag_LogMaxBackups c)))
      else if ag_LogMaxAgeDays c < 0 then
        Some (Err (''log_max_age_days must be >= 0, got '' @ int_dec (ag_LogMaxAgeDays c)))
      else None)"

text \<open>One field of \<open>EnsureDefaults\<close>: the new value, and whether it changed.\<close>

definition fill :: "'a \<Rightarrow> 'a \<Rightarrow> 'a \<Rightarrow> 'a" where
  "fill unset dflt x = (if x = unset then dflt else x)"

definition EnsureDefaults :: "File \<Rightarrow> bool \<times> File" where
  "EnsureDefaults cfg =
     (let a = f_Agent cfg in
      (ag_PollIntervalSeconds a = 0 \<or> ag_LogLevel a = '''' \<or> ag_LogFilePath a = '''' \<or>
       ag_LogMaxSizeMB a = 0 \<or> ag_LogMaxBackups a = 0 \<or> ag_LogMaxAgeDays a = 0,
       cfg\<lparr>f_Agent :=
         \<lparr>ag_PollIntervalSeconds = fill 0 DefaultPollIntervalSeconds (ag_PollIntervalSeconds a),
          ag_LogLevel = fill '''' DefaultLogLevel (ag_LogLevel a),
          ag_LogFilePath = fill '''' DefaultLogFilePath (ag_LogFilePath a),
          ag_LogMaxSizeMB = fill 0 DefaultLogMaxSizeMB (ag_LogMaxSizeMB a),
          ag_LogMaxBackups = fill 0 DefaultLogMaxBackups (ag_LogMaxBackups a),
          ag_LogMaxAgeDays = fill 0 DefaultLogMaxAgeDays (ag_LogMaxAgeDays a)\<rparr>\<rparr>))"

datatype slog_level = LevelDebug | LevelInfo | LevelWarn | LevelError

definition ParseLogLevel :: "(nat \<Rightarrow> bool) \<Rightarrow> string \<Rightarrow> error + slog_level" where
  "ParseLogLevel isprint s =
     (let l = to_lower (trim_space s) in
      if l = '''' \<or> l = ''info'' then Inr LevelInfo
      else if l = ''debug'' then Inr LevelDebug
      else if l = ''warn'' \<or> l = ''warning'' then Inr LevelWarn
      else if l = ''error'' then Inr LevelError
      else Inl (Err (''invalid log_level '' @ quote isprint s @ '' (valid: debug, info, warn, error)'')))"

section \<open>YAML nodes and comments\<close>

text \<open>
  The part of \<open>yaml.Node\<close> the agent uses; \<open>'x\<close> is everything else a node holds. \<open>Encode\<close>
  builds trees without nil pointers.
\<close>

datatype yaml_kind = DocumentNode | MappingNode | OtherNode

datatype 'x yaml_node =
  YNode (Kind: yaml_kind) (Value: string) (Content: "'x yaml_node list") (HeadComment: string) (Rest: 'x)

record 'x yaml =
  y_encode :: "File \<Rightarrow> lib_error + 'x yaml_node"
  y_marshal :: "'x yaml_node \<Rightarrow> lib_error + string"
  y_unmarshal :: "string \<Rightarrow> lib_error + File"

definition configHeader :: string where
  "configHeader = ''# proxmoxvue-agent config (generated by --register / --run)'' @ [CHR 0x0A] @
     ''# Per-key documentation is rendered inline below.'' @ [CHR 0x0A, CHR 0x0A]"

definition fieldHeadComments :: "(string \<times> string) list" where
  "fieldHeadComments =
    [(''supabase'', ''Cluster identity issued at registration. Don'' @ [CHR 0x27] @ ''t edit manually.''),
     (''supabase.cluster_id'', ''Cluster UUID issued by the backend during enrollment.''),
     (''supabase.refresh_token'', ''Long-lived refresh token. Re-run --register if revoked.''),
     (''supabase.private_key'', ''X25519 private key (base64) for HPKE decrypt of LXC passwords. Generated at --register; treat as a secret.''),
     (''proxmox'', ''Direct connection to the local Proxmox VE API.''),
     (''proxmox.api_url'', ''Proxmox API endpoint, e.g. https://<host>:8006.''),
     (''proxmox.api_token_id'', ''Token ID in the form user@realm!tokenid.''),
     (''proxmox.api_token_secret'', ''Token secret (UUID). Treat like a password.''),
     (''proxmox.verify_tls'', ''Verify TLS cert; false for self-signed PVE certs.''),
     (''agent'', ''Agent loop + logging settings.''),
     (''agent.poll_interval_seconds'', ''Tick frequency for the snapshot push loop (default 30).''),
     (''agent.log_level'', ''debug | info | warn | error (default info).''),
     (''agent.log_file_path'', ''Plain-text log file (default /var/log/proxmoxvue-agent.log).''),
     (''agent.log_max_size_mb'', ''Rotate the active file once it reaches this many MB (default 10).''),
     (''agent.log_max_backups'', ''Keep this many rotated files; FIFO, oldest deleted first (default 5).''),
     (''agent.log_max_age_days'', ''Delete rotated files older than this many days (default 30).'')]"

definition head_comment :: "string \<Rightarrow> 'x yaml_node \<Rightarrow> 'x yaml_node" where
  "head_comment path n = (case map_of fieldHeadComments path of
     None \<Rightarrow> n | Some c \<Rightarrow> YNode (Kind n) (Value n) (Content n) c (Rest n))"

definition key_path :: "string \<Rightarrow> string \<Rightarrow> string" where
  "key_path prefix key = (if prefix \<noteq> '''' then prefix @ ''.'' @ key else key)"

fun annotateComments :: "string \<Rightarrow> 'x yaml_node \<Rightarrow> 'x yaml_node"
  and annotate_pairs :: "string \<Rightarrow> 'x yaml_node list \<Rightarrow> 'x yaml_node list" where
  "annotateComments prefix (YNode k v content c r) =
     (if k = DocumentNode then YNode k v (map (annotateComments prefix) content) c r
      else if k \<noteq> MappingNode then YNode k v content c r
      else YNode k v (annotate_pairs prefix content) c r)"
| "annotate_pairs prefix (keyNode # valNode # ns) =
     (let path = key_path prefix (Value keyNode) in
      head_comment path keyNode # annotateComments path valNode # annotate_pairs prefix ns)"
| "annotate_pairs prefix ns = ns"

section \<open>Save and Load\<close>

definition Save :: "'w env \<Rightarrow> 'x yaml \<Rightarrow> string \<Rightarrow> File \<Rightarrow> ('w agent, unit) go" where
  "Save env y path f = (case y_encode y f of
     Inl e \<Rightarrow> go_fail (Wrap ''encode'' (Lib e))
   | Inr root \<Rightarrow>
     (case y_marshal y (annotateComments '''' root) of
        Inl e \<Rightarrow> go_fail (Wrap ''marshal'' (Lib e))
      | Inr data \<Rightarrow> go_wrap (''write '' @ path) (WriteFile env path (configHeader @ data))))"

definition Load :: "'w env \<Rightarrow> 'x yaml \<Rightarrow> string \<Rightarrow> ('w agent, File) go" where
  "Load env y path = go_bind (go_wrap (''read '' @ path) (ReadFile env path)) (\<lambda>data.
     case y_unmarshal y data of
       Inl e \<Rightarrow> go_fail (Wrap ''unmarshal'' (Lib e))
     | Inr f \<Rightarrow> go_return f)"


section \<open>What the secrets can change in a log\<close>

text \<open>
  Claim C31: of a secret the printed configuration tells only whether it is set: two
  configurations that agree in everything but the secrets, and in which the same secrets are set, print
  the same text.
\<close>

theorem redacted:
  assumes "sc_ClusterID a = sc_ClusterID b" "sc_RefreshToken a = '''' \<longleftrightarrow> sc_RefreshToken b = ''''"
    "sc_PrivateKey a = '''' \<longleftrightarrow> sc_PrivateKey b = ''''"
    and "px_APIURL p = px_APIURL q" "px_APITokenID p = px_APITokenID q" "px_VerifyTLS p = px_VerifyTLS q"
    "px_APITokenSecret p = '''' \<longleftrightarrow> px_APITokenSecret q = ''''"
  shows "String_supabase a = String_supabase b \<and> String_proxmox p = String_proxmox q"
  using assms by (simp add: String_supabase_def String_proxmox_def masked_def)

section \<open>Defaults\<close>

lemma fill_idem [simp]: "fill u d (fill u d x) = fill u d x"
  by (simp add: fill_def)

lemma fill_unset: "d \<noteq> u \<Longrightarrow> fill u d x \<noteq> u"
  by (simp add: fill_def)

lemma fill_same: "d \<noteq> u \<Longrightarrow> fill u d x = x \<longleftrightarrow> x \<noteq> u"
  by (auto simp: fill_def)

text \<open>
  Claim C30: filling the defaults in says that it changed something exactly when it did, a second time
  it changes nothing, and it touches nothing but the agent's section.
\<close>

theorem EnsureDefaults_idempotent:
  "(fst (EnsureDefaults cfg) \<longleftrightarrow> snd (EnsureDefaults cfg) \<noteq> cfg) \<and>
   EnsureDefaults (snd (EnsureDefaults cfg)) = (False, snd (EnsureDefaults cfg)) \<and>
   f_Supabase (snd (EnsureDefaults cfg)) = f_Supabase cfg \<and>
   f_Proxmox (snd (EnsureDefaults cfg)) = f_Proxmox cfg"
proof -
  obtain a where a: "f_Agent cfg = a" by simp
  have "snd (EnsureDefaults cfg) = cfg \<longleftrightarrow> f_Agent (snd (EnsureDefaults cfg)) = f_Agent cfg"
    by (cases cfg) (simp add: EnsureDefaults_def Let_def)
  moreover have "f_Agent (snd (EnsureDefaults cfg)) = a \<longleftrightarrow> \<not> fst (EnsureDefaults cfg)"
    by (cases a) (simp add: EnsureDefaults_def Let_def a fill_same defaults)
  ultimately show ?thesis
    by (simp add: a) (simp add: EnsureDefaults_def Let_def fill_unset defaults)
qed

lemma EffectiveLogRotation_fill:
  "EffectiveLogRotation c =
    \<lparr>lr_FilePath = fill '''' DefaultLogFilePath (ag_LogFilePath c),
     lr_MaxSizeMB = fill 0 DefaultLogMaxSizeMB (ag_LogMaxSizeMB c),
     lr_MaxBackups = fill 0 DefaultLogMaxBackups (ag_LogMaxBackups c),
     lr_MaxAgeDays = fill 0 DefaultLogMaxAgeDays (ag_LogMaxAgeDays c)\<rparr>"
  by (simp add: EffectiveLogRotation_def fill_def Let_def)

text \<open>
  The two places that know the defaults agree: the effective logging settings are the same
  before and after the defaults are written to the file, and for settings that pass the validation
  they are a path and positive numbers.
\<close>

theorem EffectiveLogRotation_agrees:
  "EffectiveLogRotation (f_Agent (snd (EnsureDefaults cfg))) = EffectiveLogRotation (f_Agent cfg) \<and>
   (ValidateLogging (f_Agent cfg) = None \<longrightarrow>
      (let r = EffectiveLogRotation (f_Agent cfg) in
       lr_FilePath r \<noteq> '''' \<and> 0 < lr_MaxSizeMB r \<and> 0 < lr_MaxBackups r \<and> 0 < lr_MaxAgeDays r))"
  by (simp add: EffectiveLogRotation_fill EnsureDefaults_def Let_def ValidateLogging_def)
    (simp add: fill_def defaults)

section \<open>Comments do not change the data\<close>

text \<open>A node without its comments.\<close>

fun uncomment :: "'x yaml_node \<Rightarrow> 'x yaml_node" where
  "uncomment (YNode k v content c r) = YNode k v (map uncomment content) '''' r"

lemma uncomment_head: "uncomment (head_comment path n) = uncomment n"
  by (cases n) (simp add: head_comment_def split: option.splits)

lemma annotate_uncomment:
  fixes n :: "'x yaml_node" and ns :: "'x yaml_node list"
  shows "uncomment (annotateComments prefix n) = uncomment n"
    "map uncomment (annotate_pairs prefix ns) = map uncomment ns"
  by (induction prefix n and prefix ns rule: annotateComments_annotate_pairs.induct)
    (auto simp: Let_def uncomment_head)

text \<open>
  What the agent relies on of the YAML library: a document that was marshalled from the encoding of
  a value, with any comments on its nodes, decodes to the value, also with lines of comments in front.
\<close>

definition comment_line :: "string \<Rightarrow> bool" where
  "comment_line l \<longleftrightarrow> CHR 0x0A \<notin> set l \<and> (l = '''' \<or> hd l = CHR ''#'')"

definition yaml_ok :: "'x yaml \<Rightarrow> bool" where
  "yaml_ok y \<longleftrightarrow>
     (\<forall>f root root' ls data. y_encode y f = Inr root \<longrightarrow> uncomment root' = uncomment root \<longrightarrow>
        y_marshal y root' = Inr data \<longrightarrow> list_all comment_line ls \<longrightarrow>
        y_unmarshal y (concat (map (\<lambda>l. l @ [CHR 0x0A]) ls) @ data) = Inr f)"

lemma configHeader_comments:
  "\<exists>ls. list_all comment_line ls \<and> configHeader = concat (map (\<lambda>l. l @ [CHR 0x0A]) ls)"
  by (rule exI [of _ "[''# proxmoxvue-agent config (generated by --register / --run)'',
      ''# Per-key documentation is rendered inline below.'', '''']"])
    (simp add: comment_line_def configHeader_def)

text \<open>The bytes \<open>Save\<close> writes.\<close>

definition saved :: "'x yaml \<Rightarrow> File \<Rightarrow> string option" where
  "saved y f = (case y_encode y f of Inl _ \<Rightarrow> None | Inr root \<Rightarrow>
     (case y_marshal y (annotateComments '''' root) of Inl _ \<Rightarrow> None
      | Inr data \<Rightarrow> Some (configHeader @ data)))"

lemma saved_reads:
  assumes "yaml_ok y" "saved y f = Some data"
  shows "y_unmarshal y data = Inr f"
proof -
  from assms(2) obtain root d where "y_encode y f = Inr root" "data = configHeader @ d"
    "y_marshal y (annotateComments '''' root) = Inr d"
    by (auto simp: saved_def split: sum.splits)
  moreover obtain ls where "list_all comment_line ls" "configHeader = concat (map (\<lambda>l. l @ [CHR 0x0A]) ls)"
    using configHeader_comments by blast
  ultimately show ?thesis
    using assms(1) annotate_uncomment(1) unfolding yaml_ok_def by metis
qed

lemma Save_Ok:
  "Save env y path f s = (Ok (), t) \<Longrightarrow>
     \<exists>data. saved y f = Some data \<and> fs t = (fs s)(path \<mapsto> data)"
  by (auto simp: Save_def saved_def WriteFile_def split: sum.splits prod.splits option.splits
      elim!: go_wrap_OkE)

lemma Load_Ok:
  "Load env y path s = (Ok f, t) \<Longrightarrow> \<exists>data. fs s path = Some data \<and> y_unmarshal y data = Inr f \<and> fs t = fs s"
  by (auto simp: Load_def ReadFile_def split: sum.splits prod.splits option.splits
      elim!: go_wrap_OkE go_bind_OkE)

text \<open>
  Claim C29: what was saved is what is loaded: after a successful \<open>Save\<close>, a \<open>Load\<close> of the same
  path that can read the file returns the same configuration, whatever comments were added.
\<close>

theorem Load_Save:
  assumes "yaml_ok y" "Save env y path f s = (Ok (), t)" "fs u path = fs t path"
  shows "case fst (Load env y path u) of Ok g \<Rightarrow> g = f
     | Fail e \<Rightarrow> \<exists>x. fst (env_read env path (ext u)) = Some x \<and> e = Wrap (''read '' @ path) (Lib x)
     | _ \<Rightarrow> False"
proof -
  from Save_Ok [OF assms(2)] obtain data where d: "saved y f = Some data" "fs u path = Some data"
    using assms(3) by auto
  with saved_reads [OF assms(1)] show ?thesis
    by (auto simp: Load_def ReadFile_def go_bind_def go_wrap_def go_simps split: prod.splits option.splits)
qed

section \<open>Log levels\<close>

text \<open>
  A log level is accepted exactly when, without surrounding space and case, it is empty or
  one of the five names; anything else is an error that the caller must see.
\<close>

theorem ParseLogLevel_accepts:
  "(\<exists>l. ParseLogLevel isprint s = Inr l) \<longleftrightarrow>
   to_lower (trim_space s) \<in> {'''', ''info'', ''debug'', ''warn'', ''warning'', ''error''}"
  by (auto simp: ParseLogLevel_def Let_def)

end
