(* ===== verification/Crypto.thy ===== *)
theory Crypto
  imports World GoEncoding
begin

text \<open>
  \<open>internal/crypto/hpke.go\<close>. The HPKE library (\<open>github.com/cloudflare/circl/hpke\<close>) is not part
  of the repository: its operations are the fields of the record \<open>hpke\<close>, keys and opener and
  sealer states are type variables. \<open>hpke_correct\<close> states what RFC 9180 promises of it.
\<close>

record ('k, 'p, 'o, 'l) hpke =
  hp_unmarshal_private :: "string \<Rightarrow> lib_error + 'k"
  hp_marshal_private :: "'k \<Rightarrow> lib_error + string"
  hp_public :: "'k \<Rightarrow> 'p"
  hp_marshal_public :: "'p \<Rightarrow> lib_error + string"
  hp_unmarshal_public :: "string \<Rightarrow> lib_error + 'p"
  hp_new_receiver :: "'k \<Rightarrow> lib_error option"
  hp_setup_receiver :: "'k \<Rightarrow> string \<Rightarrow> lib_error + 'o"
  hp_open :: "'o \<Rightarrow> string \<Rightarrow> lib_error + string"
  hp_new_sender :: "'p \<Rightarrow> lib_error option"
  hp_setup_sender :: "'p \<Rightarrow> string \<Rightarrow> lib_error + (string \<times> 'l)"
  hp_seal :: "'l \<Rightarrow> string \<Rightarrow> lib_error + string"

definition kemPublicKeySize :: nat where
  "kemPublicKeySize = 32"

text \<open>\<open>GenerateKeypair\<close>, on the pair of keys (or the error) that the random generator made.\<close>

definition GenerateKeypair ::
  "('k, 'p, 'o, 'l) hpke \<Rightarrow> lib_error + ('p \<times> 'k) \<Rightarrow> error + (string \<times> string)" where
  "GenerateKeypair lib gen = (case gen of
     Inl e \<Rightarrow> Inl (Wrap ''hpke generate'' (Lib e))
   | Inr (pub, priv) \<Rightarrow>
     (case hp_marshal_private lib priv of
        Inl e \<Rightarrow> Inl (Wrap ''hpke marshal private'' (Lib e))
      | Inr privBytes \<Rightarrow>
        (case hp_marshal_public lib pub of
           Inl e \<Rightarrow> Inl (Wrap ''hpke marshal public'' (Lib e))
         | Inr pubBytes \<Rightarrow> Inr (privBytes, pubBytes))))"

definition PublicKeyFromPrivate :: "('k, 'p, 'o, 'l) hpke \<Rightarrow> string \<Rightarrow> error + string" where
  "PublicKeyFromPrivate lib privateKey = (case hp_unmarshal_private lib privateKey of
     Inl e \<Rightarrow> Inl (Wrap ''hpke unmarshal private'' (Lib e))
   | Inr priv \<Rightarrow>
     (case hp_marshal_public lib (hp_public lib priv) of
        Inl e \<Rightarrow> Inl (Wrap ''hpke marshal public'' (Lib e))
      | Inr pubBytes \<Rightarrow> Inr pubBytes))"

definition Decrypt :: "('k, 'p, 'o, 'l) hpke \<Rightarrow> string \<Rightarrow> string \<Rightarrow> error + string" where
  "Decrypt lib privateKey payload =
     (if length payload < kemPublicKeySize + 1 then Inl (Err ''hpke decrypt: payload too short'')
      else case hp_unmarshal_private lib privateKey of
        Inl e \<Rightarrow> Inl (Wrap ''hpke unmarshal private'' (Lib e))
      | Inr priv \<Rightarrow>
        (let encap = take kemPublicKeySize payload;
             ciphertext = drop kemPublicKeySize payload in
         case hp_new_receiver lib priv of
           Some e \<Rightarrow> Inl (Wrap ''hpke new receiver'' (Lib e))
         | None \<Rightarrow>
           (case hp_setup_receiver lib priv encap of
              Inl e \<Rightarrow> Inl (Wrap ''hpke setup'' (Lib e))
            | Inr opener \<Rightarrow>
              (case hp_open lib opener ciphertext of
                 Inl e \<Rightarrow> Inl (Wrap ''hpke open'' (Lib e))
               | Inr plaintext \<Rightarrow> Inr plaintext))))"

text \<open>The randomness is an argument.\<close>

definition EncryptForTest ::
  "('k, 'p, 'o, 'l) hpke \<Rightarrow> string \<Rightarrow> string \<Rightarrow> string \<Rightarrow> error + string" where
  "EncryptForTest lib rnd publicKey plaintext = (case hp_unmarshal_public lib publicKey of
     Inl e \<Rightarrow> Inl (Wrap ''hpke unmarshal public'' (Lib e))
   | Inr pub \<Rightarrow>
     (case hp_new_sender lib pub of
        Some e \<Rightarrow> Inl (Wrap ''hpke new sender'' (Lib e))
      | None \<Rightarrow>
        (case hp_setup_sender lib pub rnd of
           Inl e \<Rightarrow> Inl (Wrap ''hpke sender setup'' (Lib e))
         | Inr (encap, sealer) \<Rightarrow>
           (case hp_seal lib sealer plaintext of
              Inl e \<Rightarrow> Inl (Wrap ''hpke seal'' (Lib e))
            | Inr ciphertext \<Rightarrow> Inr (encap @ ciphertext)))))"

section \<open>What the library promises\<close>

text \<open>
  RFC 9180 for DHKEM(X25519): serialisation of keys round-trips, an encapsulation is 32 bytes, the
  receiver who owns the private key derives the context of the sender, and what was sealed in it
  (with its tag, so never empty) opens to the plaintext.
\<close>

definition hpke_correct :: "('k, 'p, 'o, 'l) hpke \<Rightarrow> bool" where
  "hpke_correct lib \<longleftrightarrow>
     (\<forall>b k. hp_unmarshal_private lib b = Inr k \<longrightarrow> hp_new_receiver lib k = None) \<and>
     (\<forall>p b. hp_marshal_public lib p = Inr b \<longrightarrow> hp_unmarshal_public lib b = Inr p) \<and>
     (\<forall>p r enc l. hp_setup_sender lib p r = Inr (enc, l) \<longrightarrow> length enc = 32) \<and>
     (\<forall>k r enc l m ct. hp_setup_sender lib (hp_public lib k) r = Inr (enc, l) \<longrightarrow>
        hp_seal lib l m = Inr ct \<longrightarrow>
        ct \<noteq> [] \<and> (\<exists>ctx. hp_setup_receiver lib k enc = Inr ctx \<and> hp_open lib ctx ct = Inr m))"

text \<open>A payload sealed for the agent's public key opens with its private key.\<close>

lemma Decrypt_EncryptForTest:
  assumes lib: "hpke_correct lib"
    and pub: "PublicKeyFromPrivate lib priv = Inr pub"
    and enc: "EncryptForTest lib rnd pub m = Inr payload"
  shows "Decrypt lib priv payload = Inr m"
proof -
  from pub obtain k where k: "hp_unmarshal_private lib priv = Inr k"
    "hp_marshal_public lib (hp_public lib k) = Inr pub"
    by (auto simp: PublicKeyFromPrivate_def split: sum.splits)
  with lib have "hp_unmarshal_public lib pub = Inr (hp_public lib k)" "hp_new_receiver lib k = None"
    by (auto simp: hpke_correct_def)
  with enc obtain e l ct where s: "hp_setup_sender lib (hp_public lib k) rnd = Inr (e, l)"
    "hp_seal lib l m = Inr ct" "payload = e @ ct"
    by (auto simp: EncryptForTest_def split: sum.splits option.splits)
  with lib obtain ctx where r: "length e = 32" "ct \<noteq> []"
    "hp_setup_receiver lib k e = Inr ctx" "hp_open lib ctx ct = Inr m"
    unfolding hpke_correct_def by metis
  then have "\<not> length payload < kemPublicKeySize + 1"
    using s(3) by (cases ct) (auto simp: kemPublicKeySize_def)
  then show ?thesis
    using k s r \<open>hp_new_receiver lib k = None\<close> by (simp add: Decrypt_def kemPublicKeySize_def)
qed

text \<open>Nothing shorter than an encapsulated key and one byte is decrypted.\<close>

lemma Decrypt_short: "length payload < 33 \<Longrightarrow> Decrypt lib priv payload = Inl (Err ''hpke decrypt: payload too short'')"
  by (simp add: Decrypt_def kemPublicKeySize_def)

end
