(* ===== verification/GoTime.thy ===== *)
theory GoTime
  imports GoJson
begin

text \<open>
  Package \<open>time\<close>: the text of an instant. \<open>format_nano\<close> is
  \<open>t.UTC().Format(time.RFC3339Nano)\<close>, \<open>format_secs\<close> the same with \<open>time.RFC3339\<close>,
  \<open>parse_time\<close> what \<open>Time.UnmarshalJSON\<close> does with the text inside the quotes. An
  instant is the number of nanoseconds since 1 January of the year 1, UTC, Go's zero time.
\<close>

section \<open>Calendar\<close>

definition leap :: "int \<Rightarrow> bool" where
  "leap y \<longleftrightarrow> y mod 4 = 0 \<and> (y mod 100 \<noteq> 0 \<or> y mod 400 = 0)"

definition days_in :: "int \<Rightarrow> nat \<Rightarrow> int" where
  "days_in y m = (if m = 2 then (if leap y then 29 else 28)
     else if m = 4 \<or> m = 6 \<or> m = 9 \<or> m = 11 then 30 else 31)"

text \<open>Days from 1 January of the year 1 to 1 January of \<open>y\<close>.\<close>

definition year_days :: "int \<Rightarrow> int" where
  "year_days y = 365 * (y - 1) + (y - 1) div 4 - (y - 1) div 100 + (y - 1) div 400"

definition month_days :: "int \<Rightarrow> nat \<Rightarrow> int" where
  "month_days y m = sum_list (map (days_in y) [1..<m])"

definition date_days :: "int \<Rightarrow> nat \<Rightarrow> int \<Rightarrow> int" where
  "date_days y m d = year_days y + month_days y m + (d - 1)"

text \<open>The year of a day: the estimate from the length of the cycles, corrected by at most one.\<close>

definition year_of :: "int \<Rightarrow> int" where
  "year_of n = (let y = (400 * n) div 146097 + 1 in if n < year_days y then y - 1
     else if year_days (y + 1) \<le> n then y + 1 else y)"

fun month_of :: "int \<Rightarrow> nat \<Rightarrow> nat list \<Rightarrow> int \<Rightarrow> nat \<times> int" where
  "month_of y m [] r = (m, r + 1)"
| "month_of y m (k # ks) r =
     (if r < days_in y m then (m, r + 1) else month_of y k ks (r - days_in y m))"

definition civil :: "int \<Rightarrow> int \<times> nat \<times> int" where
  "civil n = (let y = year_of n; (m, d) = month_of y 1 [2..<13] (n - year_days y) in (y, m, d))"

section \<open>Printing\<close>

definition pad :: "nat \<Rightarrow> int \<Rightarrow> string" where
  "pad w n = (let d = nat_dec (nat n) in replicate (w - length d) CHR ''0'' @ d)"

definition date_string :: "int \<Rightarrow> string" where
  "date_string n = (case civil n of (y, m, d) \<Rightarrow>
     (if y < 0 then ''-'' @ pad 4 (- y) else pad 4 y) @ ''-'' @ pad 2 (int m) @ ''-'' @ pad 2 d)"

definition clock_string :: "int \<Rightarrow> string" where
  "clock_string s = pad 2 (s div 3600) @ '':'' @ pad 2 (s div 60 mod 60) @ '':'' @ pad 2 (s mod 60)"

definition ns_per_day :: int where "ns_per_day = 86400000000000"

definition format_secs :: "int \<Rightarrow> string" where
  "format_secs t = date_string (t div ns_per_day) @ ''T'' @
     clock_string (t mod ns_per_day div dur_s 1) @ ''Z''"

definition format_nano :: "int \<Rightarrow> string" where
  "format_nano t = date_string (t div ns_per_day) @ ''T'' @
     clock_string (t mod ns_per_day div dur_s 1) @
     fmt_frac (nat (t mod dur_s 1)) 9 @ ''Z''"

section \<open>Parsing\<close>

text \<open>
  \<open>time.Parse(time.RFC3339, s)\<close>, which \<open>UnmarshalJSON\<close> falls back to and which agrees
  with its fast path where that succeeds: an hour may have one digit, the fraction may follow a
  comma and counts to nine digits.
\<close>

definition num_fixed :: "nat \<Rightarrow> string \<Rightarrow> (int \<times> string) option" where
  "num_fixed k s = (if length (take k s) = k \<and> list_all is_digit (take k s)
     then Some (int (parse_nat 0 (take k s)), drop k s) else None)"

definition num_1or2 :: "string \<Rightarrow> (int \<times> string) option" where
  "num_1or2 s = (case num_fixed 2 s of Some r \<Rightarrow> Some r | None \<Rightarrow> num_fixed 1 s)"

definition skip_char :: "char \<Rightarrow> string \<Rightarrow> string option" where
  "skip_char c s = (case s of [] \<Rightarrow> None | x # r \<Rightarrow> if x = c then Some r else None)"

definition frac_ns :: "string \<Rightarrow> int" where
  "frac_ns ds = (let d = take 9 ds in int (parse_nat 0 d) * 10 ^ (9 - length d))"

definition parse_frac :: "string \<Rightarrow> int \<times> string" where
  "parse_frac s = (case s of
      c # d # r \<Rightarrow> if (c = CHR ''.'' \<or> c = CHR '','') \<and> is_digit d
                   then (frac_ns (takeWhile is_digit (d # r)), dropWhile is_digit (d # r)) else (0, s)
    | _ \<Rightarrow> (0, s))"

definition parse_zone :: "string \<Rightarrow> (int \<times> string) option" where
  "parse_zone s = (case s of [] \<Rightarrow> None | c # r \<Rightarrow>
     if c = CHR ''Z'' then Some (0, r)
     else if c = CHR ''+'' \<or> c = CHR ''-'' then
       Option.bind (num_fixed 2 r) (\<lambda>(h, r1).
       Option.bind (skip_char CHR '':'' r1) (\<lambda>r2.
       Option.bind (num_fixed 2 r2) (\<lambda>(m, r3).
         if h > 24 \<or> m > 60 then None
         else Some ((if c = CHR ''-'' then -1 else 1) * (h * 3600 + m * 60), r3))))
     else None)"

definition parse_time_off :: "string \<Rightarrow> (int \<times> int) option" where
  "parse_time_off s =
     Option.bind (num_fixed 4 s) (\<lambda>(y, s).
     Option.bind (skip_char CHR ''-'' s) (\<lambda>s.
     Option.bind (num_fixed 2 s) (\<lambda>(mo, s). if mo < 1 \<or> 12 < mo then None else
     Option.bind (skip_char CHR ''-'' s) (\<lambda>s.
     Option.bind (num_fixed 2 s) (\<lambda>(d, s).
     Option.bind (skip_char CHR ''T'' s) (\<lambda>s.
     Option.bind (num_1or2 s) (\<lambda>(h, s). if 24 \<le> h then None else
     Option.bind (skip_char CHR '':'' s) (\<lambda>s.
     Option.bind (num_fixed 2 s) (\<lambda>(mi, s). if 60 \<le> mi then None else
     Option.bind (skip_char CHR '':'' s) (\<lambda>s.
     Option.bind (num_fixed 2 s) (\<lambda>(sec, s). if 60 \<le> sec then None else
     (case parse_frac s of (ns, s) \<Rightarrow>
     Option.bind (parse_zone s) (\<lambda>(off, s).
       if s \<noteq> [] \<or> d < 1 \<or> days_in y (nat mo) < d then None
       else Some ((date_days y (nat mo) d * 86400 + h * 3600 + mi * 60 + sec - off) * dur_s 1
                  + ns, off))))))))))))))"

definition parse_time :: "string \<Rightarrow> int option" where
  "parse_time s = map_option fst (parse_time_off s)"

text \<open>
  \<open>Time.MarshalJSON\<close> of an instant with its zone (the offset in seconds that it was read with): an
  error for a year of more than four digits and for a zone of 24 hours.
\<close>

definition marshal_time :: "int \<times> int \<Rightarrow> string option" where
  "marshal_time x = (case x of (t, off) \<Rightarrow>
     (let l = t + off * dur_s 1; (y, m, d) = civil (l div ns_per_day) in
      if y < 0 \<or> 9999 < y \<or> 86400 \<le> \<bar>off\<bar> then None
      else Some (butlast (format_nano l) @
        (if off = 0 then ''Z''
         else (if off < 0 then ''-'' else ''+'') @ pad 2 (\<bar>off\<bar> div 3600) @ '':'' @ pad 2 (\<bar>off\<bar> div 60 mod 60)))))"

text \<open>\<open>UnmarshalJSON\<close> looks at the text of the value, with the escapes as they stand.\<close>

definition set_time :: "(int \<Rightarrow> 'r \<Rightarrow> 'r) \<Rightarrow> 'r setter" where
  "set_time upd raw v r = (case v of JNull \<Rightarrow> Some r
     | JStr _ \<Rightarrow> map_option (\<lambda>t. upd t r) (parse_time (butlast (tl raw))) | _ \<Rightarrow> None)"

definition set_time_off :: "(int \<times> int \<Rightarrow> 'r \<Rightarrow> 'r) \<Rightarrow> 'r setter" where
  "set_time_off upd raw v r = (case v of JNull \<Rightarrow> Some r
     | JStr _ \<Rightarrow> map_option (\<lambda>t. upd t r) (parse_time_off (butlast (tl raw))) | _ \<Rightarrow> None)"

lemma parse_time_2026: "parse_time ''2026-05-01T12:00:00.5+02:00'' = Some 63913226400500000000"
  by (simp add: parse_time_def parse_time_off_def num_fixed_def num_1or2_def skip_char_def parse_frac_def parse_zone_def
      frac_ns_def is_digit_def date_days_def year_days_def month_days_def days_in_def leap_def upt_conv_Cons eval_nat_numeral)

lemma format_nano_2026: "format_nano 63913226400500000000 = ''2026-05-01T10:00:00.5Z''"
  by (simp add: format_nano_def ns_per_day_def date_string_def civil_def year_of_def year_days_def
      days_in_def leap_def pad_def clock_string_def nat_dec.simps digit_char_def fmt_frac_def
      trim_right_def Let_def)

end
