(* ===== verification/Supabase.thy ===== *)
theory Supabase
  imports World GoTime GoUrl "HOL-Library.AList" "HOL-Library.Multiset"
begin

text \<open>
  \<open>internal/supabase/client.go\<close>: the session with Supabase. The immutable fields of
  \<open>Client\<close> are the record \<open>sb_client\<close>, the mutable ones are fields of the agent's state.
  The refresh token rotates: every refresh trades the current one for a new one, which is handed to
  \<open>persist\<close> before the client adopts it.
\<close>

section \<open>The client\<close>

definition refreshSkew :: int where "refreshSkew = dur_s 30"

record 'w sb_client =
  baseURL :: string
  publishableKey :: string
  authBase :: string
  restBase :: string
  realtimeURL :: string
  persist :: "(string \<Rightarrow> ('w agent, unit) go) option"

definition New_sb ::
  "(nat \<Rightarrow> bool) \<Rightarrow> string \<Rightarrow> string \<Rightarrow> string \<Rightarrow> string \<Rightarrow> (string \<Rightarrow> ('w agent, unit) go) option \<Rightarrow>
   ('w agent, 'w sb_client) go" where
  "New_sb isprint base_url key realtimeOverride initialRefreshToken per s =
     (let base = trim_right base_url ''/'';
          resolvedRT = (if realtimeOverride = '''' then
             (case url_parse_host base of
                None \<Rightarrow> Inl (Wrap (''parse baseURL '' @ quote isprint base) (Lib (LibText ''url.Parse'')))
              | Some h \<Rightarrow> Inr (''wss://'' @ h @ ''/realtime/v1/websocket''))
           else Inr realtimeOverride)
      in case resolvedRT of
           Inl e \<Rightarrow> (Fail e, s)
         | Inr rt \<Rightarrow>
             (Ok \<lparr>baseURL = base, publishableKey = key, authBase = base @ ''/auth/v1'',
                  restBase = base @ ''/rest/v1'', realtimeURL = rt, persist = per\<rparr>,
              s\<lparr>sb_access := '''', sb_expires := 0, sb_refresh := initialRefreshToken,
                sb_subs := [], sb_loop := False\<rparr>))"

text \<open>\<open>String\<close>, the guard against tokens in a log.\<close>

definition sb_String :: "'w sb_client \<Rightarrow> string" where
  "sb_String c = ''{baseURL:'' @ baseURL c @ '' accessToken:[REDACTED] refreshToken:[REDACTED]}''"

section \<open>Refreshing\<close>

record refreshResponse =
  AccessToken :: string
  RefreshToken :: string
  ExpiresIn :: int
  TokenType :: string
  ErrorCode :: string
  ErrorMsg :: string

definition empty_refresh :: refreshResponse where
  "empty_refresh = \<lparr>AccessToken = '''', RefreshToken = '''', ExpiresIn = 0, TokenType = '''',
     ErrorCode = '''', ErrorMsg = ''''\<rparr>"

definition refresh_fields :: "(string \<times> refreshResponse setter) list" where
  "refresh_fields =
    [(''access_token'', set_string (\<lambda>x r. r\<lparr>AccessToken := x\<rparr>)),
     (''refresh_token'', set_string (\<lambda>x r. r\<lparr>RefreshToken := x\<rparr>)),
     (''expires_in'', set_int (\<lambda>x r. r\<lparr>ExpiresIn := x\<rparr>)),
     (''token_type'', set_string (\<lambda>x r. r\<lparr>TokenType := x\<rparr>)),
     (''error_code'', set_string (\<lambda>x r. r\<lparr>ErrorCode := x\<rparr>)),
     (''error_description'', set_string (\<lambda>x r. r\<lparr>ErrorMsg := x\<rparr>))]"

definition parse_refresh :: "string \<Rightarrow> error + refreshResponse" where
  "parse_refresh = json_unmarshal (\<lambda>v. decode_struct refresh_fields v empty_refresh)"

text \<open>\<open>time.Duration\<close> is an \<open>int64\<close>, and multiplying wraps.\<close>

definition wrap64 :: "int \<Rightarrow> int" where
  "wrap64 x = (x + 2 ^ 63) mod 2 ^ 64 - 2 ^ 63"

definition refresh_request :: "'w sb_client \<Rightarrow> string \<Rightarrow> http_request" where
  "refresh_request c body =
     \<lparr>rq_method = ''POST'', rq_url = authBase c @ ''/token?grant_type=refresh_token'',
      rq_headers = [(''Content-Type'', ''application/json''), (''apikey'', publishableKey c)],
      rq_body = Some body\<rparr>"

text \<open>Calling a nil function value panics.\<close>

definition call_persist :: "'w sb_client \<Rightarrow> string \<Rightarrow> ('w agent, unit) go" where
  "call_persist c tok = (case persist c of
     None \<Rightarrow> go_panic ''invalid memory address or nil pointer dereference''
   | Some f \<Rightarrow> f tok)"

text \<open>The critical section at the end of \<open>refresh\<close>.\<close>

definition store_tokens :: "'w env \<Rightarrow> refreshResponse \<Rightarrow> ('w agent, string) go" where
  "store_tokens env p s =
     (case now_val env (s\<lparr>sb_access := AccessToken p, sb_refresh := RefreshToken p\<rparr>) of
        (t, s') \<Rightarrow> (Ok (AccessToken p), s'\<lparr>sb_expires := t + wrap64 (dur_s (ExpiresIn p))\<rparr>))"

definition refresh_response :: "'w env \<Rightarrow> 'w sb_client \<Rightarrow> int \<Rightarrow> string \<Rightarrow> ('w agent, string) go" where
  "refresh_response env c status raw = (case parse_refresh raw of
     Inl e \<Rightarrow> go_fail (Wrap (''parse refresh response (status '' @ int_dec status @ '')'') e)
   | Inr p \<Rightarrow>
     if status \<noteq> 200 then
       (if ErrorCode p = ''refresh_token_not_found'' \<or> ErrorCode p = ''refresh_token_already_used''
        then go_fail ErrRefreshRevoked
        else go_fail (Err (''refresh failed: '' @
               (if ErrorMsg p = '''' then ''status '' @ int_dec status else ErrorMsg p))))
     else if AccessToken p = '''' \<or> RefreshToken p = '''' then
       go_fail (Err ''refresh response missing tokens'')
     else go_bind (go_wrap ''persist rotated refresh token'' (call_persist c (RefreshToken p)))
            (\<lambda>_. store_tokens env p))"

definition refresh :: "'w env \<Rightarrow> 'w sb_client \<Rightarrow> ('w agent, string) go" where
  "refresh env c = go_bind (go_gets sb_refresh) (\<lambda>current.
     case json_marshal (VMap [(''refresh_token'', VStr current)]) of
       None \<Rightarrow> go_fail (Wrap ''marshal refresh body'' (Lib JsonSyntax))
     | Some body \<Rightarrow>
       go_bind (http_send env Sb (refresh_request c body)) (\<lambda>res. case res of
          BuildFailed e \<Rightarrow> go_fail (Wrap ''build refresh request'' (Lib e))
        | DoFailed e \<Rightarrow> go_fail (Wrap ''POST token refresh'' (Lib e))
        | ReadFailed _ _ e \<Rightarrow> go_fail (Wrap ''read refresh response'' (Lib e))
        | Response status raw \<Rightarrow> refresh_response env c status raw))"

definition access :: "'w env \<Rightarrow> 'w sb_client \<Rightarrow> ('w agent, string) go" where
  "access env c s =
     (if sb_access s = '''' then refresh env c s
      else case now_val env s of (t, s') \<Rightarrow>
        if refreshSkew < sb_expires s - t then (Ok (sb_access s), s') else refresh env c s')"

definition Ping :: "'w env \<Rightarrow> 'w sb_client \<Rightarrow> ('w agent, unit) go" where
  "Ping env c = go_bind (refresh env c) (\<lambda>_. go_return ())"

section \<open>Subscriptions and the central refresh loop\<close>

definition registerSubscription :: "string \<Rightarrow> nat \<Rightarrow> 'w agent \<Rightarrow> 'w agent" where
  "registerSubscription topic conn s = s\<lparr>sb_subs := AList.update topic conn (sb_subs s)\<rparr>"

definition unregisterSubscription :: "string \<Rightarrow> 'w agent \<Rightarrow> 'w agent" where
  "unregisterSubscription topic s = s\<lparr>sb_subs := AList.delete topic (sb_subs s)\<rparr>"

text \<open>\<open>sync.Once\<close>: whether this call is the one that starts the loop.\<close>

definition startRefreshLoop :: "'w agent \<Rightarrow> bool \<times> 'w agent" where
  "startRefreshLoop s = (\<not> sb_loop s, s\<lparr>sb_loop := True\<rparr>)"

definition centralRefreshInterval :: int where "centralRefreshInterval = dur_min 30"

definition nextRef :: "nat \<Rightarrow> 'w agent \<Rightarrow> string \<times> 'w agent" where
  "nextRef conn s = (let r = sb_refs s conn + 1 in (int_dec r, s\<lparr>sb_refs := (sb_refs s)(conn := r)\<rparr>))"

definition writeJSON :: "'w env \<Rightarrow> nat \<Rightarrow> jval \<Rightarrow> ('w agent, unit) go" where
  "writeJSON env conn msg s = (case json_marshal msg of
     None \<Rightarrow> (Fail (Lib JsonSyntax), s)
   | Some b \<Rightarrow> (case env_ws_write env conn b (ext s) of (r, w) \<Rightarrow>
       (case r of None \<Rightarrow> Ok () | Some e \<Rightarrow> Fail (Lib e),
        s\<lparr>ext := w, log := log s @ [WsSend conn b]\<rparr>)))"

definition access_token_frame :: "string \<Rightarrow> string \<Rightarrow> string \<Rightarrow> jval" where
  "access_token_frame topic token r =
     VMap [(''topic'', VStr topic), (''event'', VStr ''access_token''),
           (''payload'', VMap [(''access_token'', VStr token)]), (''ref'', VStr r)]"

definition pushAccessToken :: "'w env \<Rightarrow> string \<Rightarrow> nat \<Rightarrow> string \<Rightarrow> ('w agent, unit) go" where
  "pushAccessToken env topic conn token s = (case nextRef conn s of (r, s') \<Rightarrow>
     writeJSON env conn (access_token_frame topic token r) s')"

text \<open>The broadcast: an error on one connection does not stop it. The result is \<open>pushed\<close>.\<close>

fun push_all :: "'w env \<Rightarrow> string \<Rightarrow> (string \<times> nat) list \<Rightarrow> ('w agent, nat) go" where
  "push_all env token [] = go_return 0"
| "push_all env token ((topic, conn) # subs) =
     go_try (pushAccessToken env topic conn token) (\<lambda>r.
       go_bind (push_all env token subs) (\<lambda>n.
         go_return (case r of Inl _ \<Rightarrow> n | Inr _ \<Rightarrow> Suc n)))"

text \<open>
  One tick. A Go map is ranged over in an unspecified order: \<open>order\<close> is the order of this tick.
\<close>

definition refreshAndPushAll ::
  "'w env \<Rightarrow> ((string \<times> nat) list \<Rightarrow> (string \<times> nat) list) \<Rightarrow> 'w sb_client \<Rightarrow> ('w agent, unit) go"
where
  "refreshAndPushAll env order c = go_try (refresh env c) (\<lambda>r. case r of
     Inl _ \<Rightarrow> go_return ()
   | Inr freshToken \<Rightarrow> go_bind (go_gets sb_subs) (\<lambda>subs.
       go_bind (push_all env freshToken (order subs)) (\<lambda>_. go_bind (now env) (\<lambda>_. go_return ()))))"


section \<open>What a refresh does\<close>

definition tokens :: "'w agent \<Rightarrow> string \<times> int \<times> string" where
  "tokens s = (sb_access s, sb_expires s, sb_refresh s)"

definition keeps_tokens :: "'w agent \<Rightarrow> 'w agent \<Rightarrow> bool" where
  "keeps_tokens s t \<longleftrightarrow> tokens t = tokens s"

interpretation keeps_tokens: effect keeps_tokens
  by unfold_locales (auto simp: keeps_tokens_def)

lemmas keeps_tokens_combinators [go_effect] = keeps_tokens.combinators

lemma keeps_tokens_http [go_effect]: "changes keeps_tokens (http_send env ev rq)"
  by (auto simp: changes_def http_send_def keeps_tokens_def tokens_def split: prod.splits)

lemma now_val_tokens: "now_val env s = (x, t) \<Longrightarrow> tokens t = tokens s"
  by (auto simp: now_val_def tokens_def split: prod.splits)

text \<open>A persist function that does not touch the client's tokens, as a contract.\<close>

definition persists :: "'w sb_client \<Rightarrow> bool" where
  "persists c \<longleftrightarrow> (\<forall>f tok. persist c = Some f \<longrightarrow> changes keeps_tokens (f tok))"

definition refresh_body :: "string \<Rightarrow> string" where
  "refresh_body tok = the (json_marshal (VMap [(''refresh_token'', VStr tok)]))"

lemma refresh_body: "json_marshal (VMap [(''refresh_token'', VStr tok)]) = Some (refresh_body tok)"
  by (simp add: refresh_body_def)

lemma refresh_eq:
  "refresh env c s =
     go_bind (http_send env Sb (refresh_request c (refresh_body (sb_refresh s)))) (\<lambda>res. case res of
          BuildFailed e \<Rightarrow> go_fail (Wrap ''build refresh request'' (Lib e))
        | DoFailed e \<Rightarrow> go_fail (Wrap ''POST token refresh'' (Lib e))
        | ReadFailed _ _ e \<Rightarrow> go_fail (Wrap ''read refresh response'' (Lib e))
        | Response status raw \<Rightarrow> refresh_response env c status raw) s"
  unfolding refresh_def refresh_body by (simp add: go_simps go_bind_def)

lemma refresh_response_Ok_cases:
  assumes "refresh_response env c status raw w = (Ok tok, t)"
  obtains f v p where "parse_refresh raw = Inr p" "status = 200" "persist c = Some f"
    "f (RefreshToken p) w = (Ok (), v)" "store_tokens env p v = (Ok tok, t)"
    "AccessToken p \<noteq> ''''" "RefreshToken p \<noteq> ''''"
  using assms unfolding refresh_response_def
  by (auto split: sum.splits if_splits elim!: go_bind_OkE go_wrap_OkE)
    (auto simp: call_persist_def split: option.splits)

lemma refresh_Ok_cases:
  assumes "refresh env c s = (Ok tok, t)"
  obtains f u v p where "persist c = Some f" "f (RefreshToken p) u = (Ok (), v)"
    "store_tokens env p v = (Ok tok, t)" "AccessToken p \<noteq> ''''" "RefreshToken p \<noteq> ''''"
  using assms unfolding refresh_eq
  by (auto split: http_outcome.splits elim!: go_bind_OkE refresh_response_Ok_cases)

lemma store_tokens_result:
  assumes "store_tokens env p v = (r, t)"
  shows "r = Ok (AccessToken p) \<and> sb_access t = AccessToken p \<and> sb_refresh t = RefreshToken p \<and>
    fs t = fs v \<and> log t = log v \<and>
    (\<exists>now. sb_expires t = now + wrap64 (dur_s (ExpiresIn p)))"
  using assms by (auto simp: store_tokens_def now_val_def split: prod.splits)

lemma refresh_Ok_steps:
  assumes "refresh env c s = (Ok tok, t)"
  obtains res f u v p where "http_send env Sb (refresh_request c (refresh_body (sb_refresh s))) s = (Ok res, u)"
    "tokens u = tokens s" "fs u = fs s" "persist c = Some f" "f (RefreshToken p) u = (Ok (), v)"
    "store_tokens env p v = (Ok tok, t)" "AccessToken p \<noteq> ''''" "RefreshToken p \<noteq> ''''"
proof -
  obtain res u where h: "http_send env Sb (refresh_request c (refresh_body (sb_refresh s))) s = (Ok res, u)"
    "tokens u = tokens s" "fs u = fs s"
    by (cases "env_http env (refresh_request c (refresh_body (sb_refresh s))) (ext s)")
      (auto simp: http_send_def tokens_def)
  with assms obtain status raw where "refresh_response env c status raw u = (Ok tok, t)"
    unfolding refresh_eq by (auto simp: go_simps split: http_outcome.splits)
  with h that show thesis by (auto elim: refresh_response_Ok_cases)
qed

text \<open>
  Claim C19: a refresh that succeeds has handed the new refresh token to \<open>persist\<close>, which succeeded,
  before the client adopts it: when \<open>persist\<close> is called, after the answer, the token fields are still the
  ones from before the refresh. Only then the new tokens are stored, and the client holds exactly the token
  that was persisted and the access token that the refresh returns.
\<close>

theorem refresh_persists_first:
  assumes "refresh env c s = (Ok tok, t)"
  shows "tok \<noteq> '''' \<and> sb_access t = tok \<and> sb_refresh t \<noteq> '''' \<and>
    (\<exists>res f u v p. http_send env Sb (refresh_request c (refresh_body (sb_refresh s))) s = (Ok res, u) \<and>
       sb_access u = sb_access s \<and> sb_expires u = sb_expires s \<and> sb_refresh u = sb_refresh s \<and> fs u = fs s \<and>
       persist c = Some f \<and> f (sb_refresh t) u = (Ok (), v) \<and>
       store_tokens env p v = (Ok tok, t) \<and> RefreshToken p = sb_refresh t \<and> fs t = fs v \<and> log t = log v)"
proof -
  from assms obtain res f u v p where *:
    "http_send env Sb (refresh_request c (refresh_body (sb_refresh s))) s = (Ok res, u)"
    "tokens u = tokens s" "fs u = fs s" "persist c = Some f" "f (RefreshToken p) u = (Ok (), v)"
    "store_tokens env p v = (Ok tok, t)" "AccessToken p \<noteq> ''''" "RefreshToken p \<noteq> ''''"
    by (rule refresh_Ok_steps)
  have t: "tok = AccessToken p" "sb_access t = AccessToken p" "sb_refresh t = RefreshToken p" "fs t = fs v" "log t = log v"
    using store_tokens_result [OF *(6)] by simp_all
  show ?thesis
    using * by (auto simp: t tokens_def intro!: exI [of _ p])
qed

lemma store_tokens_Ok: "fst (store_tokens env p s) = Ok (AccessToken p)"
  by (auto simp: store_tokens_def split: prod.splits)

lemma call_persist_keeps: "persists c \<Longrightarrow> changes keeps_tokens (call_persist c tok)"
  by (auto simp: call_persist_def persists_def split: option.splits intro!: go_effect)

text \<open>A bind whose second part always succeeds fails in its first.\<close>

lemma bind_not_Ok:
  assumes "go_bind m f s = (r, t)" "\<forall>b. r \<noteq> Ok b" "\<And>a u. \<exists>b. fst (f a u) = Ok b"
  shows "snd (m s) = t"
  using assms by (cases "m s"; cases "fst (m s)") (auto simp: go_simps, metis fst_conv)

lemma refresh_response_keeps:
  assumes c: "persists c" and r: "refresh_response env c status raw s = (r, t)"
    and f: "\<forall>tok. r \<noteq> Ok tok"
  shows "tokens t = tokens s"
proof (cases "parse_refresh raw")
  case (Inr p)
  have "changes keeps_tokens (go_wrap x (call_persist c tok))" for x tok
    by (intro go_effect call_persist_keeps c)
  then have k: "tokens (snd (go_wrap x (call_persist c tok) s)) = tokens s" for x tok
    by (simp add: changes_def keeps_tokens_def)
  show ?thesis
  proof (cases "status = 200 \<and> AccessToken p \<noteq> '''' \<and> RefreshToken p \<noteq> ''''")
    case True
    with Inr r have "go_bind (go_wrap ''persist rotated refresh token'' (call_persist c (RefreshToken p)))
            (\<lambda>_. store_tokens env p) s = (r, t)"
      by (simp add: refresh_response_def)
    from bind_not_Ok [OF this f]
    have "t = snd (go_wrap ''persist rotated refresh token'' (call_persist c (RefreshToken p)) s)"
      by (simp add: store_tokens_Ok)
    then show ?thesis by (simp add: k)
  next
    case False
    with Inr r show ?thesis
      by (auto simp: refresh_response_def go_simps split: if_splits)
  qed
qed (use r in \<open>auto simp: refresh_response_def go_simps\<close>)

lemma http_send_result:
  "http_send env ev rq s = (r, t) \<Longrightarrow> (\<exists>res. r = Ok res) \<and> tokens t = tokens s"
  by (auto simp: http_send_def tokens_def split: prod.splits)

text \<open>
  Claim C20: a refresh that does not succeed, for whatever reason (no connection, an answer that does
  not decode, a revoked session, a token that could not be persisted), leaves the tokens of the
  client as they were.
\<close>

theorem refresh_failure_keeps_tokens:
  assumes "persists c" "refresh env c s = (r, t)" "\<forall>tok. r \<noteq> Ok tok"
  shows "sb_access t = sb_access s \<and> sb_expires t = sb_expires s \<and> sb_refresh t = sb_refresh s"
proof -
  have "tokens t = tokens s"
    using assms(2,3) refresh_response_keeps [OF assms(1)]
    by (auto simp: refresh_def go_bind_def go_gets_def go_fail_def
        split: option.splits prod.splits outcome.splits http_outcome.splits
        dest!: http_send_result)
  then show ?thesis by (simp add: tokens_def)
qed

definition says_revoked :: "http_outcome \<Rightarrow> bool" where
  "says_revoked res = (case res of
     Response status raw \<Rightarrow> status \<noteq> 200 \<and>
       (case parse_refresh raw of Inl _ \<Rightarrow> False
        | Inr p \<Rightarrow> ErrorCode p \<in> {''refresh_token_not_found'', ''refresh_token_already_used''})
   | _ \<Rightarrow> False)"

text \<open>
  Claim C21: the error that makes the agent exit for good is returned exactly when the token endpoint
  answers with a status other than 200 and one of the two codes of a dead refresh token.
\<close>

theorem refresh_revoked_iff:
  "fst (refresh env c s) = Fail ErrRefreshRevoked \<longleftrightarrow>
   says_revoked (fst (env_http env (refresh_request c (refresh_body (sb_refresh s))) (ext s)))"
proof -
  have st: "fst (store_tokens env p u) \<noteq> Fail e" for p u e by (simp add: store_tokens_Ok)
  show ?thesis
    unfolding refresh_eq
    by (auto simp: go_bind_def http_send_def go_fail_def go_panic_def says_revoked_def go_wrap_def
        refresh_response_def call_persist_def
        split: prod.splits http_outcome.splits option.splits sum.splits outcome.splits)
      (use st in \<open>metis fst_conv\<close>)+
qed

definition hands_out :: "http_outcome \<Rightarrow> bool" where
  "hands_out res = (case res of
     Response status raw \<Rightarrow> status = 200 \<and>
       (case parse_refresh raw of Inl _ \<Rightarrow> False
        | Inr p \<Rightarrow> AccessToken p \<noteq> '''' \<and> RefreshToken p \<noteq> '''')
   | _ \<Rightarrow> False)"

text \<open>
  Without a \<open>persist\<close> function, as \<open>--register\<close> and \<open>--rotate-key\<close> build the
  client, no refresh succeeds: the process panics as soon as the endpoint hands out new tokens, when
  the old token is already used up.
\<close>

theorem refresh_without_persist:
  assumes "persist c = None"
  shows "(if hands_out (fst (env_http env (refresh_request c (refresh_body (sb_refresh s))) (ext s)))
          then fst (refresh env c s) = Panic ''invalid memory address or nil pointer dereference''
          else (\<exists>e. fst (refresh env c s) = Fail e)) \<and> tokens (snd (refresh env c s)) = tokens s"
  unfolding refresh_eq
  by (auto simp: go_bind_def http_send_def go_fail_def go_panic_def hands_out_def go_wrap_def
      refresh_response_def call_persist_def assms tokens_def
      split: prod.splits http_outcome.splits option.splits sum.splits outcome.splits)

section \<open>Broadcasting a token\<close>

definition token_frame :: "string \<Rightarrow> string \<Rightarrow> string \<Rightarrow> string" where
  "token_frame topic token r = the (json_marshal (access_token_frame topic token r))"

lemma token_frame: "json_marshal (access_token_frame topic token r) = Some (token_frame topic token r)"
  by (simp add: token_frame_def access_token_frame_def)

lemma pushAccessToken_log:
  "pushAccessToken env topic conn token s = (r, t) \<Longrightarrow> returned r \<and>
     log t = log s @ [WsSend conn (token_frame topic token (int_dec (sb_refs s conn + 1)))] \<and>
     tokens t = tokens s \<and> sb_subs t = sb_subs s"
  by (auto simp: pushAccessToken_def writeJSON_def nextRef_def token_frame Let_def tokens_def
      split: prod.splits option.splits)

lemma push_all_log:
  "push_all env token subs s = (r, t) \<Longrightarrow> returned r \<and>
     (\<exists>refs. length refs = length subs \<and>
        log t = log s @ map (\<lambda>((topic, conn), i). WsSend conn (token_frame topic token (int_dec i)))
                          (zip subs refs)) \<and> tokens t = tokens s"
proof (induction subs arbitrary: r t s)
  case Nil
  then show ?case by (auto simp: go_simps)
next
  case (Cons x subs)
  obtain topic conn where x: "x = (topic, conn)" by force
  obtain r1 s1 where p: "pushAccessToken env topic conn token s = (r1, s1)" by force
  obtain r2 s2 where q: "push_all env token subs s1 = (r2, s2)" by force
  note P = pushAccessToken_log [OF p]
  from Cons.IH [OF q] obtain refs where "length refs = length subs" "returned r2"
    "log s2 = log s1 @ map (\<lambda>((topic, conn), i). WsSend conn (token_frame topic token (int_dec i)))
                          (zip subs refs)" "tokens s2 = tokens s1"
    by blast
  with P p q Cons.prems x show ?case
    by (cases r1; cases r2)
      (auto simp: go_simps intro!: exI [of _ "(sb_refs s conn + 1) # refs"])
qed

text \<open>
  Claim C22: a tick of the central loop that gets a token sends it to every registered subscription,
  once to each, whether or not the writes succeed; a tick whose refresh fails sends nothing.
\<close>

theorem refreshAndPushAll_broadcasts:
  assumes "\<And>xs. mset (order xs) = mset xs"
  shows "case refresh env c s of (r, u) \<Rightarrow> case refreshAndPushAll env order c s of (_, t) \<Rightarrow>
    (case r of
       Ok token \<Rightarrow> (\<exists>subs refs. mset subs = mset (sb_subs u) \<and> length refs = length subs \<and>
         log t = log u @ map (\<lambda>((topic, conn), i). WsSend conn (token_frame topic token (int_dec i)))
                           (zip subs refs))
     | _ \<Rightarrow> log t = log u)"
proof -
  obtain r u where r: "refresh env c s = (r, u)" by force
  show ?thesis
  proof (cases r)
    case (Ok token)
    obtain r1 v where p: "push_all env token (order (sb_subs u)) u = (r1, v)" by force
    from push_all_log [OF p] obtain refs where "length refs = length (order (sb_subs u))" "returned r1"
      "log v = log u @ map (\<lambda>((topic, conn), i). WsSend conn (token_frame topic token (int_dec i)))
                           (zip (order (sb_subs u)) refs)"
      by blast
    then show ?thesis
      using r Ok p assms
      by (cases r1) (auto simp: refreshAndPushAll_def go_simps go_try_def go_bind_def now_def
          split: prod.splits dest!: now_val_log intro!: exI [of _ "order (sb_subs u)"])
  qed (use r in \<open>auto simp: refreshAndPushAll_def go_simps\<close>)
qed

lemma registry:
  "map_of (sb_subs (registerSubscription topic conn s)) = (map_of (sb_subs s))(topic \<mapsto> conn)"
  "map_of (sb_subs (unregisterSubscription topic s)) = (map_of (sb_subs s))(topic := None)"
  by (simp_all add: registerSubscription_def unregisterSubscription_def update_conv' delete_conv')

lemma registry_distinct:
  "distinct (map fst (sb_subs s)) \<Longrightarrow> distinct (map fst (sb_subs (registerSubscription topic conn s)))"
  "distinct (map fst (sb_subs s)) \<Longrightarrow> distinct (map fst (sb_subs (unregisterSubscription topic s)))"
  by (simp_all add: registerSubscription_def unregisterSubscription_def distinct_update distinct_delete)

section \<open>Access tokens\<close>

text \<open>
  A token that is used without a refresh was valid for more than \<open>refreshSkew\<close> when
  the clock was read; in every other case the token comes from a refresh.
\<close>

theorem access_fresh_enough:
  assumes "access env c s = (r, t)"
  shows "(r = Ok (sb_access s) \<and> sb_access s \<noteq> '''' \<and> log t = log s \<and> tokens t = tokens s \<and>
           refreshSkew < sb_expires s - fst (now_val env s)) \<or>
    (\<exists>u. tokens u = tokens s \<and> log u = log s \<and> refresh env c u = (r, t))"
  using assms
  by (auto simp: access_def split: if_splits prod.splits dest: now_val_tokens now_val_log)

end
