(* ===== verification/GoFloat.thy ===== *)
theory GoFloat
  imports GoJson
begin

text \<open>
  What happens to a JSON number that is decoded into an \<open>interface{}\<close>: it becomes a
  \<open>float64\<close> (nearest, ties to even; out of range is an error), and \<open>fmt.Sprintf("%f")\<close>
  prints it with six decimals, rounded from the exact binary value (ties to even). Both are
  written on exact rationals \<open>num / den\<close>.
\<close>

section \<open>Number literals\<close>

definition lit_decimal :: "string \<Rightarrow> bool \<times> nat \<times> int" where
  "lit_decimal s =
     (let (sg, s1) = p_sign ''-'' s;
          (ip, s2) = p_digits s1;
          (fp, s3) = (case s2 of c # r \<Rightarrow> if c = CHR ''.'' then p_digits r else ('''', s2)
                      | [] \<Rightarrow> ('''', []));
          e = (case s3 of c # r \<Rightarrow> (case p_sign ''+-'' r of (es, ds) \<Rightarrow>
                 (if es = ''-'' then - int (parse_nat 0 ds) else int (parse_nat 0 ds)))
               | [] \<Rightarrow> 0)
      in (sg = ''-'', parse_nat 0 (ip @ fp), e - int (length fp)))"

section \<open>Rounding\<close>

function bitlen :: "nat \<Rightarrow> nat" where
  "bitlen n = (if n = 0 then 0 else Suc (bitlen (n div 2)))"
  by pat_completeness auto
termination
  by (relation "measure id") auto

declare bitlen.simps [simp del]

definition round_half_even :: "nat \<Rightarrow> nat \<Rightarrow> nat" where
  "round_half_even num den =
     (let q = num div den; r = num mod den in
      if 2 * r < den then q else if den < 2 * r then q + 1 else if even q then q else q + 1)"

text \<open>The nearest \<open>float64\<close> of a positive rational, as \<open>mantissa * 2 ^ exponent\<close>.\<close>

definition float64 :: "nat \<Rightarrow> nat \<Rightarrow> nat \<times> int" where
  "float64 num den =
     (if num = 0 then (0, 0)
      else let l0 = int (bitlen num) - int (bitlen den);
               l = (if num * 2 ^ nat (- l0) < den * 2 ^ nat l0 then l0 - 1 else l0);
               k = max (- 1074) (l - 52)
           in (round_half_even (num * 2 ^ nat (- k)) (den * 2 ^ nat k), k))"

text \<open>The decimal literal as a float; \<open>None\<close> out of range.\<close>

definition lit_float :: "string \<Rightarrow> (bool \<times> nat \<times> int) option" where
  "lit_float s = (case lit_decimal s of (neg, m, e) \<Rightarrow>
     (case float64 (m * 10 ^ nat e) (10 ^ nat (- e)) of (r, k) \<Rightarrow>
        if r * 2 ^ nat k < 2 ^ 1024 * 2 ^ nat (- k) then Some (neg, r, k) else None))"

section \<open>Printing\<close>

definition pad6 :: "nat \<Rightarrow> string" where
  "pad6 n = (let d = nat_dec n in replicate (6 - length d) CHR ''0'' @ d)"

definition fmt_f :: "bool \<times> nat \<times> int \<Rightarrow> string" where
  "fmt_f x = (case x of (neg, r, k) \<Rightarrow>
     (let n = round_half_even (r * 10 ^ 6 * 2 ^ nat k) (2 ^ nat (- k))
      in (if neg then ''-'' else '''') @ nat_dec (n div 10 ^ 6) @ CHR ''.'' # pad6 (n mod 10 ^ 6)))"

text \<open>Decoding into an \<open>interface{}\<close> fails exactly for a number that is out of range.\<close>

fun any_ok :: "json \<Rightarrow> bool" where
  "any_ok (JNum n) = (lit_float n \<noteq> None)"
| "any_ok (JArr xs) = list_all id (map (\<lambda>(_, v). any_ok v) xs)"
| "any_ok (JObj ms) = list_all id (map (\<lambda>(_, _, v). any_ok v) ms)"
| "any_ok _ = True"

section \<open>Integers below \<open>2 ^ 53\<close> are exact\<close>

lemma bitlen_le: "n < 2 ^ b \<Longrightarrow> bitlen n \<le> b"
proof (induction b arbitrary: n)
  case 0
  then show ?case by (simp add: bitlen.simps)
next
  case (Suc b)
  then have "n div 2 < 2 ^ b" by auto
  with Suc.IH have "bitlen (n div 2) \<le> b" by blast
  then show ?case by (simp add: bitlen.simps [of n])
qed

lemma round_half_even_exact: "0 < d \<Longrightarrow> round_half_even (n * d) d = n"
  by (simp add: round_half_even_def)

lemma float64_int:
  assumes "n < 2 ^ 53" "float64 n 1 = (r, k)"
  shows "k \<le> 0" "r = n * 2 ^ nat (- k)"
proof -
  have "bitlen n \<le> 53" using assms(1) by (rule bitlen_le)
  moreover have "bitlen 1 = 1" by (simp add: bitlen.simps)
  ultimately show k: "k \<le> 0"
    using assms(2) by (auto simp: float64_def Let_def split: if_splits)
  then have "nat k = 0" by simp
  with assms(2) show "r = n * 2 ^ nat (- k)"
    using round_half_even_exact [of 1] by (auto simp: float64_def Let_def split: if_splits)
qed

lemma fmt_f_int:
  assumes "n < 2 ^ 53" "float64 n 1 = (r, k)"
  shows "fmt_f (neg, r, k) = (if neg then ''-'' else '''') @ nat_dec n @ ''.000000''"
proof -
  from float64_int [OF assms] have k: "nat k = 0" and r: "r = n * 2 ^ nat (- k)" by auto
  have "round_half_even (r * 10 ^ 6 * 2 ^ nat k) (2 ^ nat (- k)) = n * 10 ^ 6"
    using round_half_even_exact [of "2 ^ nat (- k)" "n * 10 ^ 6"] by (simp add: k r ac_simps)
  moreover have "pad6 0 = ''000000''"
    by (simp add: pad6_def nat_dec.simps digit_char_def numeral_eq_Suc)
  ultimately show ?thesis by (simp add: fmt_f_def Let_def)
qed

lemma p_digits_all: "list_all is_digit ds \<Longrightarrow> p_digits ds = (ds, [])"
  by (auto simp: p_digits_def list_all_iff)

lemma lit_float_int:
  assumes "n < 2 ^ 53"
  obtains r k where "lit_float (nat_dec n) = Some (False, r, k)" "float64 n 1 = (r, k)"
proof -
  obtain c t where ct: "nat_dec n = c # t" using nat_dec_nonempty [of n] by (cases "nat_dec n") auto
  have dig: "list_all is_digit (nat_dec n)" using nat_dec_digits [of n] by (simp add: list_all_iff)
  have "c \<noteq> CHR ''-''" using ct nat_dec_no_minus [of n t] by auto
  then have "p_sign ''-'' (nat_dec n) = ('''', nat_dec n)" by (simp add: p_sign_def ct)
  then have dec: "lit_decimal (nat_dec n) = (False, n, 0)"
    by (simp add: lit_decimal_def p_digits_all [OF dig] parse_nat_dec)
  obtain r k where rk: "float64 n 1 = (r, k)" by (cases "float64 n 1")
  from float64_int [OF assms rk] have k: "nat k = 0" and r: "r = n * 2 ^ nat (- k)" by auto
  have "n * 2 ^ nat (- k) < 2 ^ 1024 * 2 ^ nat (- k)"
    using assms by (intro mult_strict_right_mono) (auto intro: less_trans [OF _ power_strict_increasing])
  with k r rk dec have "lit_float (nat_dec n) = Some (False, r, k)" by (simp add: lit_float_def)
  with rk that show thesis by blast
qed

end
