(* ===== verification/ProxmoxClient.thy ===== *)
theory ProxmoxClient
  imports World GoFloat GoEncoding
begin

text \<open>
  \<open>internal/proxmox/client.go\<close>: the HTTP client for the Proxmox VE API. Each operation is
  one request; the answer is an error for a transport failure, for a status outside of
  \<open>200..299\<close> and for a body that does not decode.
\<close>

section \<open>Configuration\<close>

record pve_config =
  APIURL :: string
  APITokenID :: string
  APITokenSecret :: string
  VerifyTLS :: bool

definition Valid :: "pve_config \<Rightarrow> error option" where
  "Valid c =
     (if trim_space (APIURL c) = '''' then Some (Err ''proxmox.api_url is empty'')
      else if \<not> has_prefix (APIURL c) ''https://'' \<and> \<not> has_prefix (APIURL c) ''http://''
        then Some (Err ''proxmox.api_url must start with https:// or http://'')
      else if trim_space (APITokenID c) = '''' then Some (Err ''proxmox.api_token_id is empty'')
      else if trim_space (APITokenSecret c) = '''' then Some (Err ''proxmox.api_token_secret is empty'')
      else None)"

record pve_client =
  pve_cfg :: pve_config
  pve_auth :: string

definition New_pve :: "pve_config \<Rightarrow> pve_client" where
  "New_pve cfg = \<lparr>pve_cfg = cfg,
     pve_auth = ''PVEAPIToken='' @ APITokenID cfg @ ''='' @ APITokenSecret cfg\<rparr>"

section \<open>Requests\<close>

definition truncate_str :: "string \<Rightarrow> nat \<Rightarrow> string" where
  "truncate_str s n = (if length s \<le> n then s
     else take n s @ [CHR 0xE2, CHR 0x80, CHR 0xA6])"

definition pve_request :: "pve_client \<Rightarrow> string \<Rightarrow> string \<Rightarrow> string option \<Rightarrow> http_request" where
  "pve_request c method path body =
     \<lparr>rq_method = method, rq_url = APIURL (pve_cfg c) @ path,
      rq_headers = [(''Authorization'', pve_auth c), (''Accept'', ''application/json'')],
      rq_body = body\<rparr>"

text \<open>What \<open>GetRaw\<close> and its four siblings share: send, read, check the status.\<close>

definition pve_do :: "'w env \<Rightarrow> http_request \<Rightarrow> ('w agent, string) go" where
  "pve_do env rq = go_bind (http_send env Pve rq) (\<lambda>res. case res of
     BuildFailed e \<Rightarrow> go_fail (Wrap ''build request'' (Lib e))
   | DoFailed e \<Rightarrow> go_fail (Wrap ''do request'' (Lib e))
   | ReadFailed _ _ e \<Rightarrow> go_fail (Wrap ''read response'' (Lib e))
   | Response status body \<Rightarrow>
       if status < 200 \<or> 300 \<le> status
       then go_fail (Err (''status '' @ int_dec status @ '': '' @ truncate_str body 200))
       else go_return body)"

definition parse_response :: "(json \<Rightarrow> 'r option) \<Rightarrow> string \<Rightarrow> ('s, 'r) go" where
  "parse_response dec body = (case json_unmarshal dec body of
     Inl e \<Rightarrow> go_fail (Wrap ''parse response'' e) | Inr r \<Rightarrow> go_return r)"

definition GetRaw :: "'w env \<Rightarrow> pve_client \<Rightarrow> string \<Rightarrow> ('w agent, string) go" where
  "GetRaw env c path = pve_do env (pve_request c ''GET'' path None)"

definition getJSON ::
  "'w env \<Rightarrow> pve_client \<Rightarrow> string \<Rightarrow> (json \<Rightarrow> 'r option) \<Rightarrow> ('w agent, 'r) go" where
  "getJSON env c path dec =
     go_bind (pve_do env (pve_request c ''GET'' path None)) (parse_response dec)"

definition deleteJSON ::
  "'w env \<Rightarrow> pve_client \<Rightarrow> string \<Rightarrow> (json \<Rightarrow> 'r option) \<Rightarrow> ('w agent, 'r) go" where
  "deleteJSON env c path dec =
     go_bind (pve_do env (pve_request c ''DELETE'' path None)) (parse_response dec)"

definition postForm ::
  "'w env \<Rightarrow> pve_client \<Rightarrow> string \<Rightarrow> url_values \<Rightarrow> (json \<Rightarrow> 'r option) \<Rightarrow> ('w agent, 'r) go" where
  "postForm env c path form dec =
     (let rq = pve_request c ''POST'' path (Some (values_encode form)) in
      go_bind (pve_do env (rq\<lparr>rq_headers := rq_headers rq @
                 [(''Content-Type'', ''application/x-www-form-urlencoded'')]\<rparr>))
        (parse_response dec))"

definition postJSON ::
  "'w env \<Rightarrow> pve_client \<Rightarrow> string \<Rightarrow> string option \<Rightarrow> (json \<Rightarrow> 'r option) \<Rightarrow> ('w agent, 'r) go" where
  "postJSON env c path body dec =
     go_bind (pve_do env (pve_request c ''POST'' path body)) (parse_response dec)"

section \<open>Reading operations\<close>

text \<open>\<open>var wrapper struct { Data map[string]any }\<close>\<close>

definition decode_data_map :: "json \<Rightarrow> (string \<times> string \<times> json) list option" where
  "decode_data_map v = decode_struct [(''data'', \<lambda>raw v r. case v of JNull \<Rightarrow> Some []
       | JObj ms \<Rightarrow> if any_ok v then Some (r @ ms) else None | _ \<Rightarrow> None)] v []"

definition Version ::
  "'w env \<Rightarrow> pve_client \<Rightarrow> ('w agent, (string \<times> string \<times> json) list) go" where
  "Version env c = go_wrap ''proxmox version'' (getJSON env c ''/api2/json/version'' decode_data_map)"

text \<open>\<open>var wrapper struct { Data json.RawMessage }\<close>: \<open>None\<close> where there is no such member.\<close>

definition decode_data_raw :: "json \<Rightarrow> string option option" where
  "decode_data_raw v = decode_struct [(''data'', set_raw (\<lambda>raw _. Some raw))] v None"

definition ClusterResources :: "'w env \<Rightarrow> pve_client \<Rightarrow> ('w agent, string option) go" where
  "ClusterResources env c =
     go_wrap ''proxmox cluster/resources'' (getJSON env c ''/api2/json/cluster/resources'' decode_data_raw)"

section \<open>Every operation sends one request of its method\<close>

definition pve_get :: "event \<Rightarrow> bool" where
  "pve_get e = (case e of Pve rq \<Rightarrow> rq_method rq = ''GET'' | _ \<Rightarrow> False)"

definition pve_write :: "event \<Rightarrow> bool" where
  "pve_write e = (case e of Pve rq \<Rightarrow> rq_method rq \<noteq> ''GET'' | _ \<Rightarrow> False)"

lemma pve_get_not_write: "pve_get e \<Longrightarrow> \<not> pve_write e"
  by (auto simp: pve_get_def pve_write_def split: event.splits)

lemma pve_do_adds [go_effect]: "P (Pve rq) \<Longrightarrow> changes (adds P) (pve_do env rq)"
  unfolding pve_do_def by (auto split: http_outcome.splits intro!: go_effect)

lemma pve_do_later [go_effect]: "clocked env clk \<Longrightarrow> changes (later clk) (pve_do env rq)"
  unfolding pve_do_def by (auto split: http_outcome.splits intro!: go_effect)

lemma parse_response_later [go_effect]: "changes (later clk) (parse_response dec body)"
  by (auto simp: parse_response_def split: sum.splits intro!: go_effect)

lemma getJSON_later [go_effect]: "clocked env clk \<Longrightarrow> changes (later clk) (getJSON env c path dec)"
  unfolding getJSON_def by (intro go_effect)

lemma pve_do_returns [go_total]: "returns (pve_do env rq)"
  unfolding pve_do_def by (auto split: http_outcome.splits intro!: go_total)

lemma parse_response_returns [go_total]: "returns (parse_response dec body)"
  by (auto simp: parse_response_def split: sum.splits intro!: go_total)

lemma pve_returns [go_total]:
  "returns (getJSON env c path dec)" "returns (deleteJSON env c path dec)"
  "returns (postForm env c path form dec)" "returns (postJSON env c path body dec)"
  "returns (GetRaw env c path)" "returns (Version env c)" "returns (ClusterResources env c)"
  unfolding getJSON_def deleteJSON_def postForm_def postJSON_def GetRaw_def Version_def
    ClusterResources_def Let_def
  by (intro go_total)+

lemma parse_response_adds [go_effect]: "changes (adds P) (parse_response dec body)"
  by (auto simp: parse_response_def split: sum.splits intro!: go_effect)

lemma getJSON_adds [go_effect]:
  "P (Pve (pve_request c ''GET'' path None)) \<Longrightarrow> changes (adds P) (getJSON env c path dec)"
  unfolding getJSON_def by (intro go_effect)

lemma GetRaw_adds [go_effect]:
  "P (Pve (pve_request c ''GET'' path None)) \<Longrightarrow> changes (adds P) (GetRaw env c path)"
  unfolding GetRaw_def by (intro go_effect)

lemma ClusterResources_gets: "changes (adds pve_get) (ClusterResources env c)"
  unfolding ClusterResources_def by (intro go_effect) (simp add: pve_get_def pve_request_def)

lemma Version_gets: "changes (adds pve_get) (Version env c)"
  unfolding Version_def by (intro go_effect) (simp add: pve_get_def pve_request_def)

text \<open>
  The log after one request: the request itself, or nothing when it could not be built.
\<close>

lemma pve_do_log:
  "pve_do env rq s = (r, t) \<Longrightarrow> log t = log s \<or> log t = log s @ [Pve rq]"
  by (auto simp: pve_do_def go_bind_def http_send_def go_defs
      split: prod.splits http_outcome.splits if_splits)

lemma parse_response_state: "parse_response dec body s = (r, t) \<Longrightarrow> t = s"
  by (auto simp: parse_response_def go_defs split: sum.splits)

definition one_request :: "http_request \<Rightarrow> 'w agent \<Rightarrow> 'w agent \<Rightarrow> bool" where
  "one_request rq s t \<longleftrightarrow> log t = log s \<or> log t = log s @ [Pve rq]"

lemma bind_parse_one_request:
  "changes (one_request rq) (go_bind (pve_do env rq) (parse_response dec))"
  unfolding changes_def one_request_def go_bind_def
  by (auto split: prod.splits outcome.splits dest!: pve_do_log)
    (metis pve_do_log prod.collapse parse_response_state snd_conv)+

lemma wrap_one_request: "changes (one_request rq) m \<Longrightarrow> changes (one_request rq) (go_wrap ctx m)"
  by (auto simp: changes_def go_wrap_def split: prod.splits outcome.splits) (metis snd_conv)+

lemma one_request_count: "one_request rq s t \<Longrightarrow> count_events P t \<le> Suc (count_events P s)"
  by (auto simp: one_request_def count_events_def)

end
