(* ===== verification/GoRegexp.thy ===== *)
theory GoRegexp
  imports GoPrelude
begin

text \<open>
  Package \<open>regexp\<close>, as far as the agent uses it: patterns anchored at both ends, built from
  literals, classes, groups with alternatives, \<open>+\<close> and \<open>{m,n}\<close>. \<open>compile\<close> reads the
  pattern text of the source; matching is by derivatives and is shown to be membership in the
  language. Go matches code points and the model bytes; for these patterns the two agree,
  because every class is applied under \<open>+\<close> or names ASCII characters only.
\<close>

section \<open>Expressions and their languages\<close>

datatype rexp =
    Zero
  | One
  | Cls bool "(char \<times> char) list"   \<comment> \<open>negated?, ranges\<close>
  | Alt rexp rexp
  | Seq rexp rexp
  | Star rexp

definition in_class :: "bool \<Rightarrow> (char \<times> char) list \<Rightarrow> char \<Rightarrow> bool" where
  "in_class neg rs c \<longleftrightarrow> (neg \<noteq> list_ex (\<lambda>(lo, hi). lo \<le> c \<and> c \<le> hi) rs)"

inductive_set star :: "string set \<Rightarrow> string set" for L where
  star_nil: "[] \<in> star L"
| star_step: "u \<in> L \<Longrightarrow> v \<in> star L \<Longrightarrow> u @ v \<in> star L"

fun lang :: "rexp \<Rightarrow> string set" where
  "lang Zero = {}"
| "lang One = {[]}"
| "lang (Cls neg rs) = {[c] |c. in_class neg rs c}"
| "lang (Alt r1 r2) = lang r1 \<union> lang r2"
| "lang (Seq r1 r2) = {u @ v |u v. u \<in> lang r1 \<and> v \<in> lang r2}"
| "lang (Star r) = star (lang r)"

fun null_re :: "rexp \<Rightarrow> bool" where
  "null_re Zero = False"
| "null_re One = True"
| "null_re (Cls neg rs) = False"
| "null_re (Alt r1 r2) = (null_re r1 \<or> null_re r2)"
| "null_re (Seq r1 r2) = (null_re r1 \<and> null_re r2)"
| "null_re (Star r) = True"

definition seq_re :: "rexp \<Rightarrow> rexp \<Rightarrow> rexp" where
  "seq_re r1 r2 = (if r1 = Zero \<or> r2 = Zero then Zero else if r1 = One then r2 else Seq r1 r2)"

definition alt_re :: "rexp \<Rightarrow> rexp \<Rightarrow> rexp" where
  "alt_re r1 r2 = (if r1 = Zero then r2 else if r2 = Zero then r1 else Alt r1 r2)"

fun deriv :: "char \<Rightarrow> rexp \<Rightarrow> rexp" where
  "deriv c Zero = Zero"
| "deriv c One = Zero"
| "deriv c (Cls neg rs) = (if in_class neg rs c then One else Zero)"
| "deriv c (Alt r1 r2) = alt_re (deriv c r1) (deriv c r2)"
| "deriv c (Seq r1 r2) =
     (if null_re r1 then alt_re (seq_re (deriv c r1) r2) (deriv c r2) else seq_re (deriv c r1) r2)"
| "deriv c (Star r) = seq_re (deriv c r) (Star r)"

fun match_re :: "rexp \<Rightarrow> string \<Rightarrow> bool" where
  "match_re r [] = null_re r"
| "match_re r (c # s) = match_re (deriv c r) s"

lemma lang_seq_re [simp]: "lang (seq_re r1 r2) = lang (Seq r1 r2)"
  by (auto simp: seq_re_def)

lemma lang_alt_re [simp]: "lang (alt_re r1 r2) = lang (Alt r1 r2)"
  by (auto simp: alt_re_def)

lemma null_re_lang: "null_re r \<longleftrightarrow> [] \<in> lang r"
  by (induction r) (auto intro: star.intros)

lemma star_Cons: "c # s \<in> star L \<longleftrightarrow> (\<exists>u v. s = u @ v \<and> c # u \<in> L \<and> v \<in> star L)"
proof
  assume "c # s \<in> star L"
  then show "\<exists>u v. s = u @ v \<and> c # u \<in> L \<and> v \<in> star L"
    by (induction "c # s" rule: star.induct) (auto simp: append_eq_Cons_conv)
next
  assume "\<exists>u v. s = u @ v \<and> c # u \<in> L \<and> v \<in> star L"
  then show "c # s \<in> star L" using star_step [of "c # u" L v for u v] by fastforce
qed

lemma lang_deriv: "s \<in> lang (deriv c r) \<longleftrightarrow> c # s \<in> lang r"
proof (induction r arbitrary: s)
  case (Seq r1 r2)
  have "c # s \<in> lang (Seq r1 r2) \<longleftrightarrow>
    (\<exists>u v. s = u @ v \<and> c # u \<in> lang r1 \<and> v \<in> lang r2) \<or> ([] \<in> lang r1 \<and> c # s \<in> lang r2)"
    by (auto simp: Cons_eq_append_conv)
  then show ?case using Seq by (auto simp: null_re_lang)
next
  case (Star r)
  then show ?case by (auto simp: star_Cons)
qed auto

lemma match_re_lang: "match_re r s \<longleftrightarrow> s \<in> lang r"
  by (induction s arbitrary: r) (auto simp: null_re_lang lang_deriv)

section \<open>Reading a pattern\<close>

definition lit :: "char \<Rightarrow> rexp" where
  "lit c = Cls False [(c, c)]"

definition word :: "string \<Rightarrow> rexp" where
  "word w = foldr (\<lambda>c r. Seq (lit c) r) w One"

definition plus :: "rexp \<Rightarrow> rexp" where
  "plus r = Seq r (Star r)"

fun repeat_re :: "nat \<Rightarrow> nat \<Rightarrow> rexp \<Rightarrow> rexp" where
  "repeat_re 0 0 r = One"
| "repeat_re 0 (Suc n) r = Alt One (Seq r (repeat_re 0 n r))"
| "repeat_re (Suc m) n r = Seq r (repeat_re m (n - 1) r)"

text \<open>The inside of \<open>[...]\<close>, up to the closing bracket; a \<open>-\<close> before it is literal.\<close>

fun p_ranges :: "string \<Rightarrow> ((char \<times> char) list \<times> string) option" where
  "p_ranges [] = None"
| "p_ranges (c # r) =
     (if c = CHR '']'' then Some ([], r)
      else (case r of d # e # t \<Rightarrow>
              if d = CHR ''-'' \<and> e \<noteq> CHR '']''
              then map_option (\<lambda>(rs, u). ((c, e) # rs, u)) (p_ranges t)
              else map_option (\<lambda>(rs, u). ((c, c) # rs, u)) (p_ranges r)
            | _ \<Rightarrow> map_option (\<lambda>(rs, u). ((c, c) # rs, u)) (p_ranges r)))"

definition p_class :: "string \<Rightarrow> (rexp \<times> string) option" where
  "p_class s = (case s of [] \<Rightarrow> None | c # r \<Rightarrow>
     if c = CHR ''^'' then map_option (\<lambda>(rs, u). (Cls True rs, u)) (p_ranges r)
     else map_option (\<lambda>(rs, u). (Cls False rs, u)) (p_ranges s))"

text \<open>The suffix of an atom: \<open>+\<close> or \<open>{m,n}\<close>.\<close>

definition p_suffix :: "rexp \<Rightarrow> string \<Rightarrow> (rexp \<times> string) option" where
  "p_suffix a s = (case s of [] \<Rightarrow> Some (a, []) | c # r \<Rightarrow>
     if c = CHR ''+'' then Some (plus a, r)
     else if c = CHR ''{'' then
       (let m = takeWhile is_digit r; r1 = dropWhile is_digit r in
        case r1 of [] \<Rightarrow> None | d # r2 \<Rightarrow>
          (let n = takeWhile is_digit r2; r3 = dropWhile is_digit r2 in
           case r3 of [] \<Rightarrow> None | e # r4 \<Rightarrow>
             if m \<noteq> [] \<and> n \<noteq> [] \<and> d = CHR '','' \<and> e = CHR ''}''
             then Some (repeat_re (parse_nat 0 m) (parse_nat 0 n) a, r4) else None))
     else Some (a, s))"

text \<open>
  A sequence of suffixed atoms with alternatives, up to the end or to the closing bracket of a
  group, on fuel; \<open>acc\<close> is the branch read so far.
\<close>

fun p_alts :: "nat \<Rightarrow> rexp list \<Rightarrow> string \<Rightarrow> (rexp \<times> string) option" where
  "p_alts 0 acc s = None"
| "p_alts (Suc f) acc s =
     (let done = foldr Seq (rev acc) One;
          next = (\<lambda>a r. case p_suffix a r of None \<Rightarrow> None | Some (b, t) \<Rightarrow> p_alts f (b # acc) t)
      in case s of [] \<Rightarrow> Some (done, [])
       | c # r \<Rightarrow>
         if c = CHR '')'' then Some (done, s)
         else if c = CHR ''|'' then map_option (\<lambda>(q, t). (Alt done q, t)) (p_alts f [] r)
         else if c = CHR ''('' then
           (case p_alts f [] r of Some (g, e # t) \<Rightarrow> if e = CHR '')'' then next g t else None | _ \<Rightarrow> None)
         else if c = CHR ''['' then (case p_class r of None \<Rightarrow> None | Some (k, t) \<Rightarrow> next k t)
         else if c = CHR 0x5C then
           (case r of [] \<Rightarrow> None | d # t \<Rightarrow>
              if d = CHR ''d'' then next (Cls False [(CHR ''0'', CHR ''9'')]) t else None)
         else if c \<in> set ''.*?+{}$^]'' then None
         else next (lit c) r)"

text \<open>\<open>regexp.MustCompile\<close> of a pattern \<open>^...$\<close>\<close>

definition compile :: "string \<Rightarrow> rexp option" where
  "compile pat =
     (if pat \<noteq> [] \<and> hd pat = CHR ''^'' \<and> last pat = CHR ''$'' \<and> 2 \<le> length pat then
        (let body = butlast (tl pat) in
         case p_alts (Suc (length body)) [] body of Some (r, []) \<Rightarrow> Some r | _ \<Rightarrow> None)
      else None)"

definition match_string :: "string \<Rightarrow> string \<Rightarrow> bool" where
  "match_string pat s = (case compile pat of None \<Rightarrow> False | Some r \<Rightarrow> match_re r s)"

lemma match_string_lang: "compile pat = Some r \<Longrightarrow> match_string pat s \<longleftrightarrow> s \<in> lang r"
  by (simp add: match_string_def match_re_lang)

section \<open>Languages of the constructs\<close>

lemma lang_lit [simp]: "lang (lit c) = {[c]}"
  by (auto simp: lit_def in_class_def)

lemma star_class: "star {[c] |c. P c} = {s. list_all P s}"
proof (intro set_eqI iffI)
  fix s
  show "s \<in> star {[c] |c. P c} \<Longrightarrow> s \<in> {s. list_all P s}"
    by (induction rule: star.induct) auto
next
  fix s :: string
  assume "s \<in> {s. list_all P s}"
  then show "s \<in> star {[c] |c. P c}"
  proof (induction s)
    case Nil
    show ?case by (rule star_nil)
  next
    case (Cons c s)
    then show ?case using star_step [of "[c]" "{[c] |c. P c}" s] by auto
  qed
qed

lemma lang_Seq_class:
  "s \<in> lang (Seq (Cls neg rs) r) \<longleftrightarrow> (\<exists>c t. s = c # t \<and> in_class neg rs c \<and> t \<in> lang r)"
proof
  assume "s \<in> lang (Seq (Cls neg rs) r)"
  then obtain c t where "s = [c] @ t" "in_class neg rs c" "t \<in> lang r" by auto
  then show "\<exists>c t. s = c # t \<and> in_class neg rs c \<and> t \<in> lang r" by simp
next
  assume "\<exists>c t. s = c # t \<and> in_class neg rs c \<and> t \<in> lang r"
  then obtain c t where "s = [c] @ t" "[c] \<in> lang (Cls neg rs)" "t \<in> lang r" by auto
  then show "s \<in> lang (Seq (Cls neg rs) r)" unfolding lang.simps(5) by blast
qed

lemma lang_plus_class:
  "s \<in> lang (plus (Cls neg rs)) \<longleftrightarrow> s \<noteq> [] \<and> list_all (in_class neg rs) s"
  unfolding plus_def lang_Seq_class lang.simps(3,6) star_class by (cases s) auto

lemma lang_repeat_class0:
  "s \<in> lang (repeat_re 0 n (Cls neg rs)) \<longleftrightarrow> list_all (in_class neg rs) s \<and> length s \<le> n"
proof (induction n arbitrary: s)
  case 0
  then show ?case by auto
next
  case (Suc n)
  then show ?case by (cases s) (auto simp: lang_Seq_class simp del: lang.simps(5))
qed

lemma lang_repeat_class:
  "s \<in> lang (repeat_re m n (Cls neg rs)) \<longleftrightarrow>
    list_all (in_class neg rs) s \<and> m \<le> length s \<and> length s \<le> max m n"
proof (induction m arbitrary: n s)
  case 0
  then show ?case by (simp add: lang_repeat_class0)
next
  case (Suc m)
  then show ?case
    by (cases s; cases n) (auto simp: lang_Seq_class simp del: lang.simps(5))
qed

end
