(* ===== verification/ProxmoxActions.thy ===== *)
theory ProxmoxActions
  imports ProxmoxClient GoRegexp
begin

text \<open>
  \<open>internal/proxmox/actions.go\<close>: the operations that change guests, and the polling of the
  task each of them starts. Guest kinds and actions are strings in the source (any string can
  be converted to them), so they are strings here. The polling loop is a
  \<open>partial_function\<close>; \<open>AwaitTaskCompletion\<close> turns its not returning into
  \<^const>\<open>Diverge\<close>, and the section about the end of the polling shows that
  under a clock that moves it returns.
\<close>

section \<open>Kinds and actions\<close>

definition GuestKindQEMU :: string where "GuestKindQEMU = ''qemu''"
definition GuestKindLXC :: string where "GuestKindLXC = ''lxc''"

definition ActionStart :: string where "ActionStart = ''start''"
definition ActionStop :: string where "ActionStop = ''stop''"
definition ActionReboot :: string where "ActionReboot = ''reboot''"
definition ActionShutdown :: string where "ActionShutdown = ''shutdown''"
definition ActionSuspend :: string where "ActionSuspend = ''suspend''"
definition ActionResume :: string where "ActionResume = ''resume''"
definition ActionSnapshotCreate :: string where "ActionSnapshotCreate = ''snapshot.create''"
definition ActionSnapshotDelete :: string where "ActionSnapshotDelete = ''snapshot.delete''"
definition ActionSnapshotRollback :: string where "ActionSnapshotRollback = ''snapshot.rollback''"
definition ActionVMCreate :: string where "ActionVMCreate = ''vm.create''"
definition ActionLXCCreate :: string where "ActionLXCCreate = ''lxc.create''"
definition ActionGuestDelete :: string where "ActionGuestDelete = ''guest.delete''"

lemmas action_names = ActionStart_def ActionStop_def ActionReboot_def ActionShutdown_def
  ActionSuspend_def ActionResume_def ActionSnapshotCreate_def ActionSnapshotDelete_def
  ActionSnapshotRollback_def ActionVMCreate_def ActionLXCCreate_def ActionGuestDelete_def

lemmas guest_kinds = GuestKindQEMU_def GuestKindLXC_def

definition IsPowerAction :: "string \<Rightarrow> bool" where
  "IsPowerAction a \<longleftrightarrow>
     a \<in> set [ActionStart, ActionStop, ActionReboot, ActionShutdown, ActionSuspend, ActionResume]"

definition IsSnapshotAction :: "string \<Rightarrow> bool" where
  "IsSnapshotAction a \<longleftrightarrow>
     a \<in> set [ActionSnapshotCreate, ActionSnapshotDelete, ActionSnapshotRollback]"

definition IsCreateAction :: "string \<Rightarrow> bool" where
  "IsCreateAction a \<longleftrightarrow> a \<in> set [ActionVMCreate, ActionLXCCreate]"

definition IsKnown :: "string \<Rightarrow> bool" where
  "IsKnown a \<longleftrightarrow>
     (if IsPowerAction a \<or> IsSnapshotAction a \<or> IsCreateAction a then True
      else a = ActionGuestDelete)"

lemmas action_classes = IsPowerAction_def IsSnapshotAction_def IsCreateAction_def IsKnown_def

text \<open>The four categories are disjoint and together are the known actions.\<close>

lemma action_categories:
  "IsKnown a \<longleftrightarrow> IsPowerAction a \<or> IsSnapshotAction a \<or> a = ActionGuestDelete \<or> IsCreateAction a"
  "\<not> (IsPowerAction a \<and> IsSnapshotAction a)" "\<not> (IsPowerAction a \<and> IsCreateAction a)"
  "\<not> (IsSnapshotAction a \<and> IsCreateAction a)"
  "\<not> IsPowerAction ActionGuestDelete" "\<not> IsSnapshotAction ActionGuestDelete"
  "\<not> IsCreateAction ActionGuestDelete"
  by (auto simp: action_classes action_names)

section \<open>Operations\<close>

text \<open>\<open>var wrapper struct { Data string }\<close>\<close>

definition decode_data_string :: "json \<Rightarrow> string option" where
  "decode_data_string v = decode_struct [(''data'', set_string (\<lambda>s _. s))] v ''''"

definition node_path :: "string \<Rightarrow> string" where
  "node_path node = ''/api2/json/nodes/'' @ node"

definition guest_path :: "string \<Rightarrow> string \<Rightarrow> int \<Rightarrow> string" where
  "guest_path kind node vmid = node_path node @ ''/'' @ kind @ ''/'' @ int_dec vmid"

definition guest_name :: "string \<Rightarrow> int \<Rightarrow> string" where
  "guest_name kind vmid = kind @ ''/'' @ int_dec vmid"

definition PerformAction ::
  "'w env \<Rightarrow> pve_client \<Rightarrow> string \<Rightarrow> string \<Rightarrow> int \<Rightarrow> string \<Rightarrow> ('w agent, string) go" where
  "PerformAction env c kind node vmid action =
     go_wrap (''proxmox '' @ action @ '' '' @ guest_name kind vmid)
       (postJSON env c (guest_path kind node vmid @ ''/status/'' @ action) None decode_data_string)"

definition CreateSnapshot ::
  "'w env \<Rightarrow> pve_client \<Rightarrow> string \<Rightarrow> string \<Rightarrow> int \<Rightarrow> string \<Rightarrow> string \<Rightarrow> bool \<Rightarrow> ('w agent, string) go"
where
  "CreateSnapshot env c kind node vmid name description includeVmState =
     (let form = [(''snapname'', name)];
          form = (if trim_space description \<noteq> '''' then values_set ''description'' description form else form);
          form = (if includeVmState then values_set ''vmstate'' ''1'' form else form)
      in go_wrap (''proxmox snapshot.create '' @ guest_name kind vmid @ '' '' @ name)
           (postForm env c (guest_path kind node vmid @ ''/snapshot'') form decode_data_string))"

definition DeleteSnapshot ::
  "'w env \<Rightarrow> pve_client \<Rightarrow> string \<Rightarrow> string \<Rightarrow> int \<Rightarrow> string \<Rightarrow> ('w agent, string) go" where
  "DeleteSnapshot env c kind node vmid name =
     go_wrap (''proxmox snapshot.delete '' @ guest_name kind vmid @ '' '' @ name)
       (deleteJSON env c (guest_path kind node vmid @ ''/snapshot/'' @ path_escape name)
         decode_data_string)"

definition RollbackSnapshot ::
  "'w env \<Rightarrow> pve_client \<Rightarrow> string \<Rightarrow> string \<Rightarrow> int \<Rightarrow> string \<Rightarrow> ('w agent, string) go" where
  "RollbackSnapshot env c kind node vmid name =
     go_wrap (''proxmox snapshot.rollback '' @ guest_name kind vmid @ '' '' @ name)
       (postJSON env c (guest_path kind node vmid @ ''/snapshot/'' @ path_escape name @ ''/rollback'')
         None decode_data_string)"

record CreateVMSpec =
  vm_Node :: string
  vm_VMID :: int
  vm_Name :: string
  vm_Cores :: int
  vm_MemoryMB :: int
  vm_DiskStorage :: string
  vm_DiskSizeGB :: int
  vm_NetworkBridge :: string

definition CreateVM :: "'w env \<Rightarrow> pve_client \<Rightarrow> CreateVMSpec \<Rightarrow> ('w agent, string) go" where
  "CreateVM env c spec =
     (let form = [
        (''vmid'', int_dec (vm_VMID spec)),
        (''name'', vm_Name spec),
        (''cores'', int_dec (vm_Cores spec)),
        (''memory'', int_dec (vm_MemoryMB spec)),
        (''scsi0'', vm_DiskStorage spec @ '':'' @ int_dec (vm_DiskSizeGB spec)),
        (''net0'', ''virtio,bridge='' @ vm_NetworkBridge spec),
        (''ostype'', ''l26'')]
      in go_wrap (''proxmox vm.create node='' @ vm_Node spec @ '' vmid='' @ int_dec (vm_VMID spec))
           (postForm env c (node_path (vm_Node spec) @ ''/qemu'') form decode_data_string))"

record CreateLXCSpec =
  lxc_Node :: string
  lxc_VMID :: int
  lxc_Hostname :: string
  lxc_OSTemplate :: string
  lxc_Password :: string
  lxc_Cores :: int
  lxc_MemoryMB :: int
  lxc_DiskStorage :: string
  lxc_DiskSizeGB :: int
  lxc_NetworkBridge :: string
  lxc_Unprivileged :: bool

definition boolToFlag :: "bool \<Rightarrow> string" where
  "boolToFlag b = (if b then ''1'' else ''0'')"

definition CreateLXC :: "'w env \<Rightarrow> pve_client \<Rightarrow> CreateLXCSpec \<Rightarrow> ('w agent, string) go" where
  "CreateLXC env c spec =
     (let form = [
        (''vmid'', int_dec (lxc_VMID spec)),
        (''hostname'', lxc_Hostname spec),
        (''ostemplate'', lxc_OSTemplate spec),
        (''password'', lxc_Password spec),
        (''cores'', int_dec (lxc_Cores spec)),
        (''memory'', int_dec (lxc_MemoryMB spec)),
        (''rootfs'', lxc_DiskStorage spec @ '':'' @ int_dec (lxc_DiskSizeGB spec)),
        (''net0'', ''name=eth0,bridge='' @ lxc_NetworkBridge spec @ '',ip=dhcp''),
        (''unprivileged'', boolToFlag (lxc_Unprivileged spec)),
        (''start'', ''0'')]
      in go_wrap (''proxmox lxc.create node='' @ lxc_Node spec @ '' vmid='' @ int_dec (lxc_VMID spec))
           (postForm env c (node_path (lxc_Node spec) @ ''/lxc'') form decode_data_string))"

definition delete_query :: "bool \<Rightarrow> bool \<Rightarrow> url_values" where
  "delete_query destroyDisks purgeBackups =
     (let q = [];
          q = (if destroyDisks then values_set ''destroy-unreferenced-disks'' ''1'' q else q)
      in (if purgeBackups then values_set ''purge'' ''1'' q else q))"

definition DeleteGuest ::
  "'w env \<Rightarrow> pve_client \<Rightarrow> string \<Rightarrow> string \<Rightarrow> int \<Rightarrow> bool \<Rightarrow> bool \<Rightarrow> ('w agent, string) go" where
  "DeleteGuest env c kind node vmid destroyDisks purgeBackups =
     (let path = guest_path kind node vmid;
          encoded = values_encode (delete_query destroyDisks purgeBackups);
          path = (if encoded \<noteq> '''' then path @ ''?'' @ encoded else path)
      in go_wrap (''proxmox guest.delete '' @ guest_name kind vmid)
           (deleteJSON env c path decode_data_string))"

definition SnapshotNamePattern :: string where
  "SnapshotNamePattern = ''^[a-zA-Z][a-zA-Z0-9_-]{1,39}$''"

section \<open>Tasks\<close>

record TaskStatus =
  UPID :: string
  Done :: bool
  ExitStatus :: string

record task_data =
  td_upid :: string
  td_status :: string
  td_exitstatus :: string

definition decode_task :: "json \<Rightarrow> task_data option" where
  "decode_task v = decode_struct [(''data'', set_struct
      [(''upid'', set_string (\<lambda>s r. r\<lparr>td_upid := s\<rparr>)), (''status'', set_string (\<lambda>s r. r\<lparr>td_status := s\<rparr>)),
       (''exitstatus'', set_string (\<lambda>s r. r\<lparr>td_exitstatus := s\<rparr>))] id (\<lambda>q _. q))] v
     \<lparr>td_upid = '''', td_status = '''', td_exitstatus = ''''\<rparr>"


definition GetTaskStatus ::
  "'w env \<Rightarrow> pve_client \<Rightarrow> string \<Rightarrow> string \<Rightarrow> ('w agent, TaskStatus) go" where
  "GetTaskStatus env c node upid =
     go_wrap ''task status''
       (go_bind (getJSON env c (node_path node @ ''/tasks/'' @ path_escape upid @ ''/status'') decode_task)
         (\<lambda>d. go_return \<lparr>UPID = td_upid d, Done = (td_status d = ''stopped''),
                         ExitStatus = td_exitstatus d\<rparr>))"

definition pollInterval :: int where
  "pollInterval = dur_ms 500"

lemma pollInterval_pos: "0 < pollInterval"
  by (simp add: pollInterval_def)

text \<open>The loop of \<open>AwaitTaskCompletion\<close>; \<open>None\<close> is a loop that never ends.\<close>

partial_function (option) await_loop ::
  "'w env \<Rightarrow> pve_client \<Rightarrow> string \<Rightarrow> string \<Rightarrow> int \<Rightarrow> int \<Rightarrow> 'w agent \<Rightarrow>
   (TaskStatus outcome \<times> 'w agent) option" where
  "await_loop env c node upid timeout deadline s =
     (let (r, s1) = GetTaskStatus env c node upid s in
      case r of
        Ok st \<Rightarrow>
          if Done st then Some (Ok st, s1)
          else
            (let (t, s2) = now_val env s1 in
             if deadline < t then
               Some (Fail (Err (''await task '' @ upid @ '': timeout after '' @ duration_string timeout)), s2)
             else
               (let (w, s3) = sleep_val env (pollInterval) s2 in
                case w of Some e \<Rightarrow> Some (Fail (Lib e), s3)
                | None \<Rightarrow> await_loop env c node upid timeout deadline s3))
      | Fail e \<Rightarrow> Some (Fail e, s1)
      | Panic p \<Rightarrow> Some (Panic p, s1)
      | Diverge \<Rightarrow> Some (Diverge, s1))"

definition AwaitTaskCompletion ::
  "'w env \<Rightarrow> pve_client \<Rightarrow> string \<Rightarrow> string \<Rightarrow> int \<Rightarrow> ('w agent, TaskStatus) go" where
  "AwaitTaskCompletion env c node upid timeout s =
     (let (t, s1) = now_val env s in
      case await_loop env c node upid timeout (t + timeout) s1 of
        Some r \<Rightarrow> r | None \<Rightarrow> (Diverge, s1))"

section \<open>What is sent\<close>

text \<open>Every operation sends its one request; the polling only reads.\<close>

lemma postJSON_one [go_effect]:
  "changes (one_request (pve_request c ''POST'' path body)) (postJSON env c path body dec)"
  unfolding postJSON_def by (rule bind_parse_one_request)

lemma deleteJSON_one [go_effect]:
  "changes (one_request (pve_request c ''DELETE'' path None)) (deleteJSON env c path dec)"
  unfolding deleteJSON_def by (rule bind_parse_one_request)

definition form_request :: "pve_client \<Rightarrow> string \<Rightarrow> url_values \<Rightarrow> http_request" where
  "form_request c path form = \<lparr>rq_method = ''POST'', rq_url = APIURL (pve_cfg c) @ path,
     rq_headers = [(''Authorization'', pve_auth c), (''Accept'', ''application/json''),
                   (''Content-Type'', ''application/x-www-form-urlencoded'')],
     rq_body = Some (values_encode form)\<rparr>"

lemma postForm_one [go_effect]:
  "changes (one_request (form_request c path form)) (postForm env c path form dec)"
  using bind_parse_one_request [of "form_request c path form"]
  by (simp add: postForm_def form_request_def pve_request_def)

text \<open>
  \<open>pve_reads\<close>: a preorder that GET requests, the clock and the waits respect is respected by every
  reading operation and by the polling. \<open>pve_effect\<close> extends it to all requests and so to the
  actions.
\<close>

locale pve_reads = effect R for R :: "'w agent \<Rightarrow> 'w agent \<Rightarrow> bool" +
  fixes env :: "'w env"
  assumes get_R: "rq_method rq = ''GET'' \<Longrightarrow> changes R (http_send env Pve rq)"
    and now_val_R: "R s (snd (now_val env s))"
    and sleep_R: "R s (snd (sleep_val env d s))"
begin

lemma parse_R: "changes R (parse_response dec body)"
  by (auto simp: parse_response_def split: sum.splits intro!: combinators)

lemma do_get_R: "changes R (pve_do env (pve_request c ''GET'' path None))"
  unfolding pve_do_def
  by (auto simp: pve_request_def split: http_outcome.splits intro!: combinators get_R)

lemma getJSON_R: "changes R (getJSON env c path dec)"
  unfolding getJSON_def by (intro combinators do_get_R parse_R)

lemma GetRaw_R: "changes R (GetRaw env c path)"
  unfolding GetRaw_def by (rule do_get_R)

lemma reads_R: "changes R (Version env c)" "changes R (ClusterResources env c)"
  "changes R (GetTaskStatus env c node upid)"
  unfolding Version_def ClusterResources_def GetTaskStatus_def
  by (intro combinators getJSON_R)+

lemma await_loop_R:
  assumes "await_loop env c node upid timeout deadline s = Some x"
  shows "R s (snd x)"
proof (rule await_loop.raw_induct
    [where P = "\<lambda>e c node upid timeout deadline s x. e = env \<longrightarrow> R s (snd x)", OF _ assms, THEN mp, OF _ refl])
  fix f and e :: "'w env" and c node upid timeout deadline s x
  assume IH: "\<And>e c node upid timeout deadline s x.
      f e c node upid timeout deadline s = Some x \<Longrightarrow> e = env \<longrightarrow> R s (snd x)"
    and eq: "(let (r, s1) = GetTaskStatus e c node upid s in
      case r of
        Ok st \<Rightarrow>
          if Done st then Some (Ok st, s1)
          else
            (let (t, s2) = now_val e s1 in
             if deadline < t then
               Some (Fail (Err (''await task '' @ upid @ '': timeout after ''
                 @ duration_string timeout)), s2)
             else
               (let (w, s3) = sleep_val e (pollInterval) s2 in
                case w of Some x \<Rightarrow> Some (Fail (Lib x), s3)
                | None \<Rightarrow> f e c node upid timeout deadline s3))
      | Fail x \<Rightarrow> Some (Fail x, s1)
      | Panic p \<Rightarrow> Some (Panic p, s1)
      | Diverge \<Rightarrow> Some (Diverge, s1)) = Some x"
  show "e = env \<longrightarrow> R s (snd x)"
  proof
    assume e: "e = env"
    obtain r s1 where g: "GetTaskStatus env c node upid s = (r, s1)" by force
    obtain t s2 where n: "now_val env s1 = (t, s2)" by force
    obtain w s3 where sl: "sleep_val env (pollInterval) s2 = (w, s3)" by force
    have 1: "R s s1" using reads_R(3) g by (rule changesD)
    have "R s1 s2" using now_val_R [of s1] n by simp
    with 1 have 2: "R s s2" using R_trans by blast
    have "R s2 s3" using sleep_R [of s2 "pollInterval"] sl by simp
    with 2 have 3: "R s s3" using R_trans by blast
    show "R s (snd x)"
      using eq 1 2 3 R_trans [OF 3] IH
      by (auto simp: e g n sl Let_def split: outcome.splits if_splits option.splits)
  qed
qed

lemma AwaitTaskCompletion_R: "changes R (AwaitTaskCompletion env c node upid timeout)"
proof (rule changesI)
  fix s
  obtain t s1 where n: "now_val env s = (t, s1)" by force
  have "R s s1" using now_val_R [of s] n by simp
  then show "R s (snd (AwaitTaskCompletion env c node upid timeout s))"
    using R_trans by (auto simp: AwaitTaskCompletion_def n split: option.splits dest!: await_loop_R)
qed

end

locale pve_effect = pve_reads +
  assumes any_R: "changes R (http_send env Pve rq)"
begin

lemma pve_do_R: "changes R (pve_do env rq)"
  unfolding pve_do_def by (auto split: http_outcome.splits intro!: combinators any_R)

lemma writes_R: "changes R (deleteJSON env c path dec)" "changes R (postForm env c path form dec)"
  "changes R (postJSON env c path body dec)"
  unfolding deleteJSON_def postForm_def postJSON_def Let_def
  by (intro combinators pve_do_R parse_R)+

lemma Let_R: "(\<And>x. changes R (f x)) \<Longrightarrow> changes R (Let a f)"
  by (simp add: Let_def)

lemma actions_R:
  "changes R (PerformAction env c k n v x)"
  "changes R (CreateSnapshot env c k n v nm ds vs)"
  "changes R (DeleteSnapshot env c k n v nm)"
  "changes R (RollbackSnapshot env c k n v nm)"
  "changes R (DeleteGuest env c k n v dd pb)"
  "changes R (CreateVM env c vms)"
  "changes R (CreateLXC env c lxs)"
  unfolding PerformAction_def CreateSnapshot_def DeleteSnapshot_def RollbackSnapshot_def
    CreateVM_def CreateLXC_def DeleteGuest_def
  by (rule wrap writes_R | intro Let_R wrap writes_R)+

end

interpretation gets: pve_reads "adds pve_get" env for env :: "'w env"
proof unfold_locales
  fix s :: "'w agent" and d rq
  show "rq_method rq = ''GET'' \<Longrightarrow> changes (adds pve_get) (http_send env Pve rq)"
    by (rule adds_http) (simp add: pve_get_def)
  show "adds pve_get s (snd (now_val env s))" "adds pve_get s (snd (sleep_val env d s))"
    by (auto simp: adds_def now_val_def sleep_val_def split: prod.splits)
qed

lemmas AwaitTaskCompletion_gets = gets.AwaitTaskCompletion_R

section \<open>The polling ends\<close>

lemma GetTaskStatus_later: "clocked env clk \<Longrightarrow> changes (later clk) (GetTaskStatus env c node upid)"
  unfolding GetTaskStatus_def by (intro go_effect)

lemma GetTaskStatus_one:
  "changes (\<lambda>s t. count_events pve_get t \<le> Suc (count_events pve_get s))
     (GetTaskStatus env c node upid)"
proof -
  have "count_events pve_get t \<le> Suc (count_events pve_get s)"
    if m: "GetTaskStatus env c node upid s = (r, t)" for s r t
  proof -
    let ?rq = "pve_request c ''GET'' (node_path node @ ''/tasks/'' @ path_escape upid @ ''/status'') None"
    have "changes (one_request ?rq) (getJSON env c (node_path node @ ''/tasks/'' @ path_escape upid
        @ ''/status'') decode_task)"
      unfolding getJSON_def by (rule bind_parse_one_request)
    then have "one_request ?rq s t"
      using m by (auto simp: changes_def GetTaskStatus_def go_wrap_def go_bind_def go_defs
          split: prod.splits outcome.splits) (metis snd_conv)+
    then show ?thesis by (rule one_request_count)
  qed
  then show ?thesis by (auto simp: changes_def) (metis prod.collapse)
qed

text \<open>
  How many reads the loop can still make: one, and one for each 500 ms left until the deadline.
\<close>

definition polls_left :: "('w \<Rightarrow> int) \<Rightarrow> int \<Rightarrow> 'w agent \<Rightarrow> nat" where
  "polls_left clk deadline s =
     (if clk (ext s) \<le> deadline then nat ((deadline - clk (ext s)) div pollInterval) + 2 else 1)"

lemma polls_left_step:
  assumes "clk (ext s) \<le> deadline" "clk (ext s) + pollInterval \<le> clk (ext t)"
  shows "polls_left clk deadline t < polls_left clk deadline s"
proof (cases "clk (ext t) \<le> deadline")
  case True
  have "(deadline - clk (ext t)) div pollInterval \<le> (deadline - clk (ext s) - pollInterval) div pollInterval"
    using assms(2) pollInterval_pos by (intro zdiv_mono1) auto
  also have "\<dots> = (deadline - clk (ext s)) div pollInterval - 1"
    by (simp add: pollInterval_def)
  finally have "(deadline - clk (ext t)) div pollInterval < (deadline - clk (ext s)) div pollInterval"
    by simp
  moreover have "0 < (deadline - clk (ext s)) div pollInterval"
    using True assms pollInterval_pos by (simp add: pos_imp_zdiv_pos_iff)
  ultimately show ?thesis using True assms by (simp add: polls_left_def)
next
  case False
  then show ?thesis using assms by (simp add: polls_left_def)
qed

lemma polls_left_mono: "later clk s t \<Longrightarrow> polls_left clk deadline t \<le> polls_left clk deadline s"
  using pollInterval_pos by (auto simp: polls_left_def later_def intro!: nat_mono zdiv_mono1)

lemma polls_left_pos: "0 < polls_left clk deadline s"
  by (simp add: polls_left_def)

lemma await_loop_returns:
  assumes "clocked env clk"
  shows "\<exists>x. await_loop env c node upid timeout deadline s = Some x \<and>
    count_events pve_get (snd x) \<le> count_events pve_get s + polls_left clk deadline s"
proof (induction "polls_left clk deadline s" arbitrary: s rule: less_induct)
  case less
  obtain r s1 where g: "GetTaskStatus env c node upid s = (r, s1)" by force
  obtain t s2 where n: "now_val env s1 = (t, s2)" by force
  obtain w s3 where sl: "sleep_val env (pollInterval) s2 = (w, s3)" by force
  have c1: "clk (ext s) \<le> clk (ext s1)"
    using changesD [OF GetTaskStatus_later [OF assms] g] by (simp add: later_def)
  have 1: "count_events pve_get s1 \<le> Suc (count_events pve_get s)"
    using GetTaskStatus_one g by (rule changesD)
  have 2: "count_events pve_get s2 = count_events pve_get s1"
    "count_events pve_get s3 = count_events pve_get s1"
    using now_val_log [OF n] sleep_val_log [OF sl] by (simp_all add: count_events_def)
  note pos = polls_left_pos [of clk deadline s]
  show ?case
  proof (cases "\<exists>st. r = Ok st \<and> \<not> Done st \<and> t \<le> deadline \<and> w = None")
    case False
    then show ?thesis
      using 1 2 pos
      by (subst await_loop.simps) (auto simp: g n sl Let_def split: outcome.splits option.splits)
  next
    case True
    have t: "t = clk (ext s1)" "clk (ext s1) \<le> clk (ext s2)"
      using now_val_clock [OF assms n] by auto
    have w: "clk (ext s2) + pollInterval \<le> clk (ext s3)"
      using sleep_val_clock [OF assms] sl True by blast
    have step: "polls_left clk deadline s3 < polls_left clk deadline s"
      using c1 t w True by (intro polls_left_step) auto
    from less [OF this] obtain a b where
      "await_loop env c node upid timeout deadline s3 = Some (a, b)"
      "count_events pve_get b \<le> count_events pve_get s3 + polls_left clk deadline s3"
      by fastforce
    with True step 1 2 show ?thesis
      by (subst await_loop.simps) (auto simp: g n sl Let_def)
  qed
qed

lemma GetTaskStatus_returns [go_total]: "returns (GetTaskStatus env c node upid)"
  unfolding GetTaskStatus_def by (intro go_total)

lemma await_loop_returned:
  assumes "await_loop env c node upid timeout deadline s = Some x"
  shows "returned (fst x)"
proof (rule await_loop.raw_induct
    [where P = "\<lambda>env c node upid timeout deadline s x. returned (fst x)", OF _ assms])
  fix f and env :: "'w env" and c node upid timeout deadline s x
  assume IH: "\<And>env c node upid timeout deadline s x.
      f env c node upid timeout deadline s = Some x \<Longrightarrow> returned (fst x)"
    and eq: "(let (r, s1) = GetTaskStatus env c node upid s in
      case r of
        Ok st \<Rightarrow>
          if Done st then Some (Ok st, s1)
          else
            (let (t, s2) = now_val env s1 in
             if deadline < t then
               Some (Fail (Err (''await task '' @ upid @ '': timeout after ''
                 @ duration_string timeout)), s2)
             else
               (let (w, s3) = sleep_val env pollInterval s2 in
                case w of Some e \<Rightarrow> Some (Fail (Lib e), s3)
                | None \<Rightarrow> f env c node upid timeout deadline s3))
      | Fail e \<Rightarrow> Some (Fail e, s1)
      | Panic p \<Rightarrow> Some (Panic p, s1)
      | Diverge \<Rightarrow> Some (Diverge, s1)) = Some x"
  obtain r s1 where g: "GetTaskStatus env c node upid s = (r, s1)" by force
  with GetTaskStatus_returns have "returned r" by (rule returnsD)
  with eq IH show "returned (fst x)"
    by (auto simp: g Let_def split: outcome.splits if_splits option.splits prod.splits)
qed

text \<open>
  Claim C27: with a clock that a timer moves on, waiting for a task always ends, after at most one poll
  per interval of the timeout and two more, and then with a result or an error, never stuck.
\<close>

theorem AwaitTaskCompletion_terminates:
  assumes clk: "clocked env clk" and timeout: "0 \<le> timeout"
    and run: "AwaitTaskCompletion env c node upid timeout s = (r, t)"
  shows "returned r \<and>
    count_events pve_get t \<le> count_events pve_get s + nat (timeout div pollInterval) + 2"
proof -
  obtain n s1 where n: "now_val env s = (n, s1)" by force
  obtain x where x: "await_loop env c node upid timeout (n + timeout) s1 = Some x"
    "count_events pve_get (snd x) \<le> count_events pve_get s1 + polls_left clk (n + timeout) s1"
    using await_loop_returns [OF clk] by blast
  have "x = (r, t)" using run n x(1) by (simp add: AwaitTaskCompletion_def)
  moreover have "returned r" using await_loop_returned [OF x(1)] \<open>x = (r, t)\<close> by simp
  moreover have "polls_left clk (n + timeout) s1 \<le> nat (timeout div pollInterval) + 2"
  proof -
    have "n \<le> clk (ext s1)" using now_val_clock [OF clk n] by simp
    then have "(n + timeout - clk (ext s1)) div pollInterval \<le> timeout div pollInterval"
      using pollInterval_pos by (intro zdiv_mono1) auto
    then show ?thesis by (auto simp: polls_left_def)
  qed
  ultimately show ?thesis using x(2) now_val_log [OF n] by (simp add: count_events_def)
qed

section \<open>Snapshot names\<close>

definition letter_class :: "(char \<times> char) list" where
  "letter_class = [(CHR ''a'', CHR ''z''), (CHR ''A'', CHR ''Z'')]"

definition name_class :: "(char \<times> char) list" where
  "name_class = letter_class @ [(CHR ''0'', CHR ''9''), (CHR ''_'', CHR ''_''), (CHR ''-'', CHR ''-'')]"

lemma compile_snapshot_pattern:
  "compile SnapshotNamePattern =
    Some (Seq (Cls False letter_class) (Seq (repeat_re 1 39 (Cls False name_class)) One))"
  by (simp add: compile_def SnapshotNamePattern_def p_class_def p_suffix_def Let_def is_digit_def
      letter_class_def name_class_def del: repeat_re.simps)

lemma snapshot_name_iff:
  "match_string SnapshotNamePattern s \<longleftrightarrow>
    (\<exists>c t. s = c # t \<and> in_class False letter_class c \<and> list_all (in_class False name_class) t
       \<and> 1 \<le> length t \<and> length t \<le> 39)"
proof -
  have "u \<in> lang (Seq r One) \<longleftrightarrow> u \<in> lang r" for u r by auto
  then show ?thesis
    by (simp add: match_string_lang [OF compile_snapshot_pattern] lang_Seq_class lang_repeat_class
        del: lang.simps repeat_re.simps)
qed

text \<open>A valid name needs no escaping, so it is its own path segment.\<close>

lemma of_char_punct: "of_char c = (95::nat) \<longleftrightarrow> c = CHR ''_''" "of_char c = (45::nat) \<longleftrightarrow> c = CHR ''-''"
  using of_char_eq_iff [of c "CHR ''_''"] of_char_eq_iff [of c "CHR ''-''"] by simp_all

lemma name_class_unreserved: "in_class False name_class c \<Longrightarrow> unreserved c"
  by (auto simp: in_class_def name_class_def letter_class_def unreserved_def is_alnum_def byte_in_def
      is_digit_def less_eq_char_def of_char_punct dest!: order.antisym)

lemma letter_class_name: "in_class False letter_class c \<Longrightarrow> in_class False name_class c"
  by (auto simp: in_class_def name_class_def)

lemma snapshot_name_unreserved:
  assumes "match_string SnapshotNamePattern s"
  shows "list_all unreserved s"
proof -
  from assms obtain c t where s: "s = c # t" and c: "in_class False letter_class c"
    and t: "list_all (in_class False name_class) t"
    unfolding snapshot_name_iff by blast
  from c have "unreserved c" by (rule name_class_unreserved [OF letter_class_name])
  moreover from t have "list_all unreserved t"
    by (rule list.pred_mono_strong) (rule name_class_unreserved)
  ultimately show ?thesis by (simp add: s)
qed

lemma snapshot_name_path: "match_string SnapshotNamePattern s \<Longrightarrow> path_escape s = s"
  by (intro path_escape_plain snapshot_name_unreserved)

end
