(* ===== verification/Dispatcher.thy ===== *)
theory Dispatcher
  imports ProxmoxActions Crypto
begin

text \<open>
  \<open>internal/commands/dispatcher.go\<close>: one command from claim to completion. The Go interfaces
  \<open>ProxmoxActor\<close> and \<open>CommandStore\<close> are records of operations on a state \<open>'s\<close>, and
  \<open>Handle\<close> is written over them, so it can be run over the model's own clients, over
  recording ones, or over anything else that meets the contract of a locale below.
\<close>

section \<open>Interfaces\<close>

record 's ProxmoxActor =
  pa_PerformAction :: "string \<Rightarrow> string \<Rightarrow> int \<Rightarrow> string \<Rightarrow> ('s, string) go"
  pa_CreateSnapshot :: "string \<Rightarrow> string \<Rightarrow> int \<Rightarrow> string \<Rightarrow> string \<Rightarrow> bool \<Rightarrow> ('s, string) go"
  pa_DeleteSnapshot :: "string \<Rightarrow> string \<Rightarrow> int \<Rightarrow> string \<Rightarrow> ('s, string) go"
  pa_RollbackSnapshot :: "string \<Rightarrow> string \<Rightarrow> int \<Rightarrow> string \<Rightarrow> ('s, string) go"
  pa_CreateVM :: "CreateVMSpec \<Rightarrow> ('s, string) go"
  pa_CreateLXC :: "CreateLXCSpec \<Rightarrow> ('s, string) go"
  pa_DeleteGuest :: "string \<Rightarrow> string \<Rightarrow> int \<Rightarrow> bool \<Rightarrow> bool \<Rightarrow> ('s, string) go"
  pa_AwaitTaskCompletion :: "string \<Rightarrow> string \<Rightarrow> int \<Rightarrow> ('s, TaskStatus) go"

text \<open>A value of the result map: a string, or a prefix and the text of an error.\<close>

datatype rvalue = RStr string | RErr string error

type_synonym result = "(string \<times> rvalue) list"

record 's CommandStore =
  cs_ClaimCommand :: "int \<Rightarrow> ('s, bool) go"
  cs_CompleteCommand :: "int \<Rightarrow> string \<Rightarrow> result \<Rightarrow> ('s, unit) go"

section \<open>Data\<close>

text \<open>\<open>supabase.Command\<close>; an absent payload is the empty text, the zero time is \<open>0\<close>.\<close>

record Command =
  ID :: int
  HostID :: string
  Kind :: string
  Payload :: string
  Status :: string
  ExpiresAt :: int

record Dispatcher =
  ActionTimeout :: int
  PrivateKey :: "string option"

definition New_dispatcher :: Dispatcher where
  "New_dispatcher = \<lparr>ActionTimeout = dur_min 5, PrivateKey = None\<rparr>"

record commandPayload =
  GuestKind :: string
  Node :: string
  VMID :: int
  Name :: string
  Description :: string
  IncludeVmState :: bool
  Cores :: int
  MemoryMB :: int
  DiskStorage :: string
  DiskSizeGB :: int
  NetworkBridge :: string
  Hostname :: string
  OSTemplate :: string
  Password :: string
  PasswordEnc :: string
  Unprivileged :: bool
  DestroyDisks :: bool
  PurgeBackups :: bool

definition empty_payload :: commandPayload where
  "empty_payload = \<lparr>GuestKind = '''', Node = '''', VMID = 0, Name = '''', Description = '''',
     IncludeVmState = False, Cores = 0, MemoryMB = 0, DiskStorage = '''', DiskSizeGB = 0,
     NetworkBridge = '''', Hostname = '''', OSTemplate = '''', Password = '''', PasswordEnc = '''',
     Unprivileged = False, DestroyDisks = False, PurgeBackups = False\<rparr>"

definition payload_fields :: "(string \<times> commandPayload setter) list" where
  "payload_fields =
    [(''guest_kind'', set_string (\<lambda>x r. r\<lparr>GuestKind := x\<rparr>)),
     (''node'', set_string (\<lambda>x r. r\<lparr>Node := x\<rparr>)),
     (''vmid'', set_int (\<lambda>x r. r\<lparr>VMID := x\<rparr>)),
     (''name'', set_string (\<lambda>x r. r\<lparr>Name := x\<rparr>)),
     (''description'', set_string (\<lambda>x r. r\<lparr>Description := x\<rparr>)),
     (''include_vmstate'', set_bool (\<lambda>x r. r\<lparr>IncludeVmState := x\<rparr>)),
     (''cores'', set_int (\<lambda>x r. r\<lparr>Cores := x\<rparr>)),
     (''memory_mb'', set_int (\<lambda>x r. r\<lparr>MemoryMB := x\<rparr>)),
     (''disk_storage'', set_string (\<lambda>x r. r\<lparr>DiskStorage := x\<rparr>)),
     (''disk_size_gb'', set_int (\<lambda>x r. r\<lparr>DiskSizeGB := x\<rparr>)),
     (''network_bridge'', set_string (\<lambda>x r. r\<lparr>NetworkBridge := x\<rparr>)),
     (''hostname'', set_string (\<lambda>x r. r\<lparr>Hostname := x\<rparr>)),
     (''ostemplate'', set_string (\<lambda>x r. r\<lparr>OSTemplate := x\<rparr>)),
     (''password'', set_string (\<lambda>x r. r\<lparr>Password := x\<rparr>)),
     (''password_enc'', set_string (\<lambda>x r. r\<lparr>PasswordEnc := x\<rparr>)),
     (''unprivileged'', set_bool (\<lambda>x r. r\<lparr>Unprivileged := x\<rparr>)),
     (''destroy_disks'', set_bool (\<lambda>x r. r\<lparr>DestroyDisks := x\<rparr>)),
     (''purge_backups'', set_bool (\<lambda>x r. r\<lparr>PurgeBackups := x\<rparr>))]"

definition unmarshal_payload :: "string \<Rightarrow> error + commandPayload" where
  "unmarshal_payload = json_unmarshal (\<lambda>v. decode_struct payload_fields v empty_payload)"

record GuestRef =
  ref_GuestKind :: string
  ref_Node :: string
  ref_VMID :: int

definition ParseGuestRef :: "Command \<Rightarrow> GuestRef option" where
  "ParseGuestRef cmd = (case unmarshal_payload (Payload cmd) of
     Inl _ \<Rightarrow> None
   | Inr p \<Rightarrow>
       if GuestKind p \<noteq> GuestKindQEMU \<and> GuestKind p \<noteq> GuestKindLXC then None
       else if Node p = '''' \<or> VMID p \<le> 0 then None
       else Some \<lparr>ref_GuestKind = GuestKind p, ref_Node = Node p, ref_VMID = VMID p\<rparr>)"

definition expectedStates :: "(string \<times> string \<times> int) list" where
  "expectedStates =
    [(''start'', ''running'', dur_s 10), (''resume'', ''running'', dur_s 10),
     (''reboot'', ''running'', dur_s 10), (''stop'', ''stopped'', dur_s 10),
     (''shutdown'', ''stopped'', dur_s 10), (''suspend'', ''paused'', dur_s 10)]"

definition ExpectedStateFor :: "string \<Rightarrow> (string \<times> int) option" where
  "ExpectedStateFor kind = map_of expectedStates kind"

section \<open>Passwords\<close>

definition resolveLXCPassword ::
  "('k, 'p, 'o, 'l) hpke \<Rightarrow> Dispatcher \<Rightarrow> commandPayload \<Rightarrow> error + string" where
  "resolveLXCPassword lib d p =
     (if PasswordEnc p \<noteq> '''' then
        (case PrivateKey d of
           None \<Rightarrow> Inl (Err ''password_enc received but agent has no private key configured (re-run --register)'')
         | Some key \<Rightarrow>
           (case b64_decode (PasswordEnc p) of
              Inl e \<Rightarrow> Inl (Wrap ''decode password_enc'' e)
            | Inr raw \<Rightarrow>
              (case Decrypt lib key raw of
                 Inl e \<Rightarrow> Inl (Wrap ''decrypt password_enc'' e)
               | Inr plaintext \<Rightarrow> Inr plaintext)))
      else if Password p \<noteq> '''' then Inr (Password p)
      else Inl (Err ''missing password (neither password_enc nor password set)''))"

section \<open>Handle\<close>

definition fail_command :: "'s CommandStore \<Rightarrow> int \<Rightarrow> rvalue \<Rightarrow> ('s, unit) go" where
  "fail_command store cid msg = cs_CompleteCommand store cid ''failed'' [(''error'', msg)]"

text \<open>Steps 5 and 6: what happens once Proxmox has answered the action.\<close>

definition Handle_finish ::
  "'s ProxmoxActor \<Rightarrow> 's CommandStore \<Rightarrow> Command \<Rightarrow> commandPayload \<Rightarrow> int \<Rightarrow> error + string \<Rightarrow> ('s, unit) go"
where
  "Handle_finish pve store cmd p waitTimeout r = (case r of
     Inl e \<Rightarrow> fail_command store (ID cmd) (RErr '''' e)
   | Inr upid \<Rightarrow>
     go_try (pa_AwaitTaskCompletion pve (Node p) upid waitTimeout) (\<lambda>st. case st of
       Inl e \<Rightarrow> cs_CompleteCommand store (ID cmd) ''failed'' [(''upid'', RStr upid), (''error'', RErr '''' e)]
     | Inr st \<Rightarrow> cs_CompleteCommand store (ID cmd)
                   (if ExitStatus st \<noteq> ''OK'' then ''failed'' else ''done'')
                   [(''upid'', RStr upid), (''exitstatus'', RStr (ExitStatus st))]))"

text \<open>Step 4: the routing of the action.\<close>

definition Handle_route ::
  "'s ProxmoxActor \<Rightarrow> 's CommandStore \<Rightarrow> ('k, 'p, 'o, 'l) hpke \<Rightarrow> Dispatcher \<Rightarrow> Command \<Rightarrow>
   commandPayload \<Rightarrow> ('s, unit) go" where
  "Handle_route pve store lib d cmd p =
     (let action = Kind cmd;
          guestKind = GuestKind p;
          waitTimeout = ActionTimeout d;
          finish = Handle_finish pve store cmd p waitTimeout
      in if IsPowerAction action then
           go_try (pa_PerformAction pve guestKind (Node p) (VMID p) action) finish
         else if IsSnapshotAction action then
           if \<not> match_string SnapshotNamePattern (Name p) then
             fail_command store (ID cmd) (RStr (''invalid snapshot name: '' @ Name p))
           else if action = ActionSnapshotCreate then
             go_try (pa_CreateSnapshot pve guestKind (Node p) (VMID p) (Name p) (Description p)
                       (IncludeVmState p)) finish
           else if action = ActionSnapshotDelete then
             go_try (pa_DeleteSnapshot pve guestKind (Node p) (VMID p) (Name p)) finish
           else if action = ActionSnapshotRollback then
             go_try (pa_RollbackSnapshot pve guestKind (Node p) (VMID p) (Name p)) finish
           else fail_command store (ID cmd) (RStr (''unrouted snapshot action: '' @ Kind cmd))
         else if action = ActionGuestDelete then
           go_try (pa_DeleteGuest pve guestKind (Node p) (VMID p) (DestroyDisks p) (PurgeBackups p)) finish
         else if IsCreateAction action then
           if action = ActionVMCreate then
             go_try (pa_CreateVM pve \<lparr>vm_Node = Node p, vm_VMID = VMID p, vm_Name = Name p,
                 vm_Cores = Cores p, vm_MemoryMB = MemoryMB p, vm_DiskStorage = DiskStorage p,
                 vm_DiskSizeGB = DiskSizeGB p, vm_NetworkBridge = NetworkBridge p\<rparr>) finish
           else if action = ActionLXCCreate then
             (case resolveLXCPassword lib d p of
                Inl e \<Rightarrow> fail_command store (ID cmd) (RErr '''' e)
              | Inr plaintextPw \<Rightarrow>
                go_try (pa_CreateLXC pve \<lparr>lxc_Node = Node p, lxc_VMID = VMID p,
                    lxc_Hostname = Hostname p, lxc_OSTemplate = OSTemplate p,
                    lxc_Password = plaintextPw, lxc_Cores = Cores p, lxc_MemoryMB = MemoryMB p,
                    lxc_DiskStorage = DiskStorage p, lxc_DiskSizeGB = DiskSizeGB p,
                    lxc_NetworkBridge = NetworkBridge p, lxc_Unprivileged = Unprivileged p\<rparr>) finish)
           else fail_command store (ID cmd) (RStr (''unrouted create action: '' @ Kind cmd))
         else fail_command store (ID cmd) (RStr (''unrouted kind: '' @ Kind cmd)))"

text \<open>Step 3: the validation of a claimed command.\<close>

definition Handle_claimed ::
  "'s ProxmoxActor \<Rightarrow> 's CommandStore \<Rightarrow> ('k, 'p, 'o, 'l) hpke \<Rightarrow> Dispatcher \<Rightarrow> Command \<Rightarrow> ('s, unit) go"
where
  "Handle_claimed pve store lib d cmd =
     (if \<not> IsKnown (Kind cmd) then fail_command store (ID cmd) (RStr (''unknown kind: '' @ Kind cmd))
      else case unmarshal_payload (Payload cmd) of
        Inl e \<Rightarrow> fail_command store (ID cmd) (RErr ''bad payload: '' e)
      | Inr p \<Rightarrow>
          if GuestKind p \<noteq> GuestKindQEMU \<and> GuestKind p \<noteq> GuestKindLXC then
            fail_command store (ID cmd) (RStr (''unknown guest_kind: '' @ GuestKind p))
          else if Node p = '''' \<or> VMID p \<le> 0 then
            fail_command store (ID cmd) (RStr ''missing node or vmid'')
          else Handle_route pve store lib d cmd p)"

text \<open>
  Steps 1 and 2: the check of the expiry, which claims the row to mark it expired, and the claim.
  \<open>nowf\<close> is \<open>time.Now\<close>.
\<close>

definition is_expired :: "('s \<Rightarrow> int \<times> 's) \<Rightarrow> int \<Rightarrow> ('s, bool) go" where
  "is_expired nowf expiresAt s =
     (if expiresAt = 0 then (Ok False, s)
      else case nowf s of (t, s') \<Rightarrow> (Ok (expiresAt < t), s'))"

definition Handle ::
  "('s \<Rightarrow> int \<times> 's) \<Rightarrow> 's ProxmoxActor \<Rightarrow> 's CommandStore \<Rightarrow> ('k, 'p, 'o, 'l) hpke \<Rightarrow> Dispatcher \<Rightarrow>
   Command \<Rightarrow> ('s, unit) go" where
  "Handle nowf pve store lib d cmd =
     go_bind (is_expired nowf (ExpiresAt cmd)) (\<lambda>expired.
       if expired then
         go_try (cs_ClaimCommand store (ID cmd)) (\<lambda>r. case r of
           Inr ok \<Rightarrow> if ok then cs_CompleteCommand store (ID cmd) ''expired'' [(''reason'', RStr ''ttl'')]
                     else go_return ()
         | Inl _ \<Rightarrow> go_return ())
       else
         go_bind (go_wrap (''claim '' @ int_dec (ID cmd)) (cs_ClaimCommand store (ID cmd))) (\<lambda>ok.
           if \<not> ok then go_return () else Handle_claimed pve store lib d cmd))"


section \<open>The decision, apart from the effects\<close>

text \<open>
  The abstract specification: what the dispatcher decides about a claimed command is a function of
  the command and the dispatcher's key alone, \<open>verdict\<close>: a message to fail with, or one action
  on one node. \<open>Handle_refines\<close> shows that the code is that decision followed by a fixed
  protocol.
\<close>

datatype act =
    Power string string int string
  | SnapCreate string string int string string bool
  | SnapDelete string string int string
  | SnapRollback string string int string
  | GuestDelete string string int bool bool
  | VmCreate CreateVMSpec
  | LxcCreate CreateLXCSpec

fun run_act :: "'s ProxmoxActor \<Rightarrow> act \<Rightarrow> ('s, string) go" where
  "run_act pve (Power k n v a) = pa_PerformAction pve k n v a"
| "run_act pve (SnapCreate k n v nm ds vs) = pa_CreateSnapshot pve k n v nm ds vs"
| "run_act pve (SnapDelete k n v nm) = pa_DeleteSnapshot pve k n v nm"
| "run_act pve (SnapRollback k n v nm) = pa_RollbackSnapshot pve k n v nm"
| "run_act pve (GuestDelete k n v dd pb) = pa_DeleteGuest pve k n v dd pb"
| "run_act pve (VmCreate spec) = pa_CreateVM pve spec"
| "run_act pve (LxcCreate spec) = pa_CreateLXC pve spec"

definition vm_spec :: "commandPayload \<Rightarrow> CreateVMSpec" where
  "vm_spec p = \<lparr>vm_Node = Node p, vm_VMID = VMID p, vm_Name = Name p, vm_Cores = Cores p,
     vm_MemoryMB = MemoryMB p, vm_DiskStorage = DiskStorage p, vm_DiskSizeGB = DiskSizeGB p,
     vm_NetworkBridge = NetworkBridge p\<rparr>"

definition lxc_spec :: "commandPayload \<Rightarrow> string \<Rightarrow> CreateLXCSpec" where
  "lxc_spec p pw = \<lparr>lxc_Node = Node p, lxc_VMID = VMID p, lxc_Hostname = Hostname p,
     lxc_OSTemplate = OSTemplate p, lxc_Password = pw, lxc_Cores = Cores p,
     lxc_MemoryMB = MemoryMB p, lxc_DiskStorage = DiskStorage p, lxc_DiskSizeGB = DiskSizeGB p,
     lxc_NetworkBridge = NetworkBridge p, lxc_Unprivileged = Unprivileged p\<rparr>"

text \<open>The action of a kind on a validated payload.\<close>

definition action_of ::
  "('k, 'p, 'o, 'l) hpke \<Rightarrow> Dispatcher \<Rightarrow> string \<Rightarrow> commandPayload \<Rightarrow> rvalue + act" where
  "action_of lib d kind p =
     (if kind \<in> {''start'', ''stop'', ''reboot'', ''shutdown'', ''suspend'', ''resume''}
      then Inr (Power (GuestKind p) (Node p) (VMID p) kind)
      else if kind = ''guest.delete''
      then Inr (GuestDelete (GuestKind p) (Node p) (VMID p) (DestroyDisks p) (PurgeBackups p))
      else if kind = ''vm.create'' then Inr (VmCreate (vm_spec p))
      else if kind = ''lxc.create'' then
        (case resolveLXCPassword lib d p of Inl e \<Rightarrow> Inl (RErr '''' e)
         | Inr pw \<Rightarrow> Inr (LxcCreate (lxc_spec p pw)))
      else if \<not> match_string SnapshotNamePattern (Name p)
      then Inl (RStr (''invalid snapshot name: '' @ Name p))
      else if kind = ''snapshot.create''
      then Inr (SnapCreate (GuestKind p) (Node p) (VMID p) (Name p) (Description p) (IncludeVmState p))
      else if kind = ''snapshot.delete''
      then Inr (SnapDelete (GuestKind p) (Node p) (VMID p) (Name p))
      else Inr (SnapRollback (GuestKind p) (Node p) (VMID p) (Name p)))"

definition valid_target :: "commandPayload \<Rightarrow> bool" where
  "valid_target p \<longleftrightarrow> GuestKind p \<in> {''qemu'', ''lxc''} \<and> Node p \<noteq> '''' \<and> 0 < VMID p"

definition verdict ::
  "('k, 'p, 'o, 'l) hpke \<Rightarrow> Dispatcher \<Rightarrow> Command \<Rightarrow> rvalue + (commandPayload \<times> act)" where
  "verdict lib d cmd =
     (if \<not> IsKnown (Kind cmd) then Inl (RStr (''unknown kind: '' @ Kind cmd))
      else case unmarshal_payload (Payload cmd) of
        Inl e \<Rightarrow> Inl (RErr ''bad payload: '' e)
      | Inr p \<Rightarrow>
          if GuestKind p \<notin> {''qemu'', ''lxc''} then Inl (RStr (''unknown guest_kind: '' @ GuestKind p))
          else if \<not> valid_target p then Inl (RStr ''missing node or vmid'')
          else map_sum id (Pair p) (action_of lib d (Kind cmd) p))"

lemma IsKnown_cases:
  "IsKnown k \<longleftrightarrow> k \<in> {''start'', ''stop'', ''reboot'', ''shutdown'', ''suspend'', ''resume'',
     ''snapshot.create'', ''snapshot.delete'', ''snapshot.rollback'', ''vm.create'', ''lxc.create'',
     ''guest.delete''}"
  by (auto simp: action_classes action_names)

lemmas route_simps = Handle_route_def action_of_def IsPowerAction_def IsSnapshotAction_def
  IsCreateAction_def action_names Let_def vm_spec_def lxc_spec_def

lemma Handle_route_action_of:
  assumes "IsKnown (Kind cmd)"
  shows "Handle_route pve store lib d cmd p =
    (case action_of lib d (Kind cmd) p of
       Inl msg \<Rightarrow> fail_command store (ID cmd) msg
     | Inr a \<Rightarrow> go_try (run_act pve a) (Handle_finish pve store cmd p (ActionTimeout d)))"
  using assms unfolding IsKnown_cases insert_iff empty_iff
  by (elim disjE) (simp_all add: route_simps split: sum.split)

lemma Handle_claimed_verdict:
  "Handle_claimed pve store lib d cmd =
    (case verdict lib d cmd of
       Inl msg \<Rightarrow> fail_command store (ID cmd) msg
     | Inr (p, a) \<Rightarrow> go_try (run_act pve a) (Handle_finish pve store cmd p (ActionTimeout d)))"
  unfolding Handle_claimed_def verdict_def
  by (auto simp: Handle_route_action_of valid_target_def guest_kinds split: sum.splits)

text \<open>What an action that passes the validation can be.\<close>

definition act_ok :: "act \<Rightarrow> bool" where
  "act_ok a \<longleftrightarrow> (case a of
     Power k n v x \<Rightarrow> k \<in> {''qemu'', ''lxc''} \<and> n \<noteq> '''' \<and> 0 < v \<and> IsPowerAction x
   | SnapCreate k n v nm ds vs \<Rightarrow> k \<in> {''qemu'', ''lxc''} \<and> n \<noteq> '''' \<and> 0 < v
       \<and> match_string SnapshotNamePattern nm
   | SnapDelete k n v nm \<Rightarrow> k \<in> {''qemu'', ''lxc''} \<and> n \<noteq> '''' \<and> 0 < v
       \<and> match_string SnapshotNamePattern nm
   | SnapRollback k n v nm \<Rightarrow> k \<in> {''qemu'', ''lxc''} \<and> n \<noteq> '''' \<and> 0 < v
       \<and> match_string SnapshotNamePattern nm
   | GuestDelete k n v dd pb \<Rightarrow> k \<in> {''qemu'', ''lxc''} \<and> n \<noteq> '''' \<and> 0 < v
   | VmCreate spec \<Rightarrow> vm_Node spec \<noteq> '''' \<and> 0 < vm_VMID spec
   | LxcCreate spec \<Rightarrow> lxc_Node spec \<noteq> '''' \<and> 0 < lxc_VMID spec)"

lemma action_of_ok:
  "action_of lib d kind p = Inr a \<Longrightarrow> valid_target p \<Longrightarrow> act_ok a"
  by (auto simp: action_of_def valid_target_def act_ok_def vm_spec_def lxc_spec_def
      action_classes action_names split: if_splits sum.splits)

lemma verdict_ok: "verdict lib d cmd = Inr (p, a) \<Longrightarrow> act_ok a \<and> IsKnown (Kind cmd)"
  by (auto simp: verdict_def map_sum_def split: if_splits sum.splits intro: action_of_ok)


section \<open>The calls that are made\<close>

text \<open>
  The interfaces can be recorded: the state carries the list of the calls made so far, with their
  results. \<open>Handle_recorded\<close> shows that recording changes nothing, \<open>Handle_handled\<close> that the
  recorded calls always follow the protocol \<open>handled\<close>.
\<close>

datatype call =
    Claimed int "bool outcome"
  | Acted act "string outcome"
  | Awaited string string int "TaskStatus outcome"
  | Completed int string result "unit outcome"

definition record_call :: "('a outcome \<Rightarrow> call) \<Rightarrow> ('s, 'a) go \<Rightarrow> ('s \<times> call list, 'a) go" where
  "record_call mk m st = (case m (fst st) of (r, s') \<Rightarrow> (r, (s', snd st @ [mk r])))"

definition rec_now :: "('s \<Rightarrow> int \<times> 's) \<Rightarrow> 's \<times> call list \<Rightarrow> int \<times> 's \<times> call list" where
  "rec_now nowf st = (case nowf (fst st) of (t, s') \<Rightarrow> (t, (s', snd st)))"

definition rec_store :: "'s CommandStore \<Rightarrow> ('s \<times> call list) CommandStore" where
  "rec_store store =
     \<lparr>cs_ClaimCommand = (\<lambda>i. record_call (Claimed i) (cs_ClaimCommand store i)),
      cs_CompleteCommand = (\<lambda>i st res. record_call (Completed i st res) (cs_CompleteCommand store i st res))\<rparr>"

definition rec_actor :: "'s ProxmoxActor \<Rightarrow> ('s \<times> call list) ProxmoxActor" where
  "rec_actor pve =
     (let r = (\<lambda>a. record_call (Acted a) (run_act pve a)) in
      \<lparr>pa_PerformAction = (\<lambda>k n v a. r (Power k n v a)),
       pa_CreateSnapshot = (\<lambda>k n v nm ds vs. r (SnapCreate k n v nm ds vs)),
       pa_DeleteSnapshot = (\<lambda>k n v nm. r (SnapDelete k n v nm)),
       pa_RollbackSnapshot = (\<lambda>k n v nm. r (SnapRollback k n v nm)),
       pa_CreateVM = (\<lambda>spec. r (VmCreate spec)),
       pa_CreateLXC = (\<lambda>spec. r (LxcCreate spec)),
       pa_DeleteGuest = (\<lambda>k n v dd pb. r (GuestDelete k n v dd pb)),
       pa_AwaitTaskCompletion = (\<lambda>n u t. record_call (Awaited n u t) (pa_AwaitTaskCompletion pve n u t))\<rparr>)"

lemma run_act_rec: "run_act (rec_actor pve) a = record_call (Acted a) (run_act pve a)"
  by (cases a) (simp_all add: rec_actor_def Let_def)

lemma rec_simps:
  "cs_ClaimCommand (rec_store store) i = record_call (Claimed i) (cs_ClaimCommand store i)"
  "cs_CompleteCommand (rec_store store) i st res =
     record_call (Completed i st res) (cs_CompleteCommand store i st res)"
  "pa_AwaitTaskCompletion (rec_actor pve) n u t =
     record_call (Awaited n u t) (pa_AwaitTaskCompletion pve n u t)"
  by (simp_all add: rec_store_def rec_actor_def Let_def)

text \<open>
  The protocol of one command with expiry \<open>ex\<close>, id \<open>i\<close>, timeout \<open>T\<close> and verdict \<open>v\<close>.
  The last two rules are runs in which Proxmox's client itself does not return.
\<close>

inductive handled :: "bool \<Rightarrow> int \<Rightarrow> int \<Rightarrow> rvalue + (commandPayload \<times> act) \<Rightarrow> call list \<Rightarrow> bool"
  for ex i T v where
  not_claimed: "r \<noteq> Ok True \<Longrightarrow> handled ex i T v [Claimed i r]"
| expired: "ex \<Longrightarrow>
    handled ex i T v [Claimed i (Ok True), Completed i ''expired'' [(''reason'', RStr ''ttl'')] r]"
| rejected: "\<not> ex \<Longrightarrow> v = Inl msg \<Longrightarrow>
    handled ex i T v [Claimed i (Ok True), Completed i ''failed'' [(''error'', msg)] r]"
| act_failed: "\<not> ex \<Longrightarrow> v = Inr (p, a) \<Longrightarrow>
    handled ex i T v [Claimed i (Ok True), Acted a (Fail e),
      Completed i ''failed'' [(''error'', RErr '''' e)] r]"
| await_failed: "\<not> ex \<Longrightarrow> v = Inr (p, a) \<Longrightarrow>
    handled ex i T v [Claimed i (Ok True), Acted a (Ok upid), Awaited (Node p) upid T (Fail e),
      Completed i ''failed'' [(''upid'', RStr upid), (''error'', RErr '''' e)] r]"
| finished: "\<not> ex \<Longrightarrow> v = Inr (p, a) \<Longrightarrow>
    handled ex i T v [Claimed i (Ok True), Acted a (Ok upid), Awaited (Node p) upid T (Ok st),
      Completed i (if ExitStatus st = ''OK'' then ''done'' else ''failed'')
        [(''upid'', RStr upid), (''exitstatus'', RStr (ExitStatus st))] r]"
| act_stuck: "\<not> ex \<Longrightarrow> v = Inr (p, a) \<Longrightarrow> \<not> returned r \<Longrightarrow>
    handled ex i T v [Claimed i (Ok True), Acted a r]"
| await_stuck: "\<not> ex \<Longrightarrow> v = Inr (p, a) \<Longrightarrow> \<not> returned r \<Longrightarrow>
    handled ex i T v [Claimed i (Ok True), Acted a (Ok upid), Awaited (Node p) upid T r]"

inductive_simps handled_simps: "handled ex i T v (Claimed j r # es)"

definition ttl_over :: "('s \<Rightarrow> int \<times> 's) \<Rightarrow> Command \<Rightarrow> 's \<Rightarrow> bool" where
  "ttl_over nowf cmd s \<longleftrightarrow> ExpiresAt cmd \<noteq> 0 \<and> ExpiresAt cmd < fst (nowf s)"

lemma Handle_claimed_handled:
  assumes "Handle_claimed (rec_actor pve) (rec_store store) lib d cmd (s, tr) = (r, (s', tr'))"
  shows "\<exists>es. tr' = tr @ es \<and>
    handled False (ID cmd) (ActionTimeout d) (verdict lib d cmd) (Claimed (ID cmd) (Ok True) # es)"
  using assms unfolding Handle_claimed_verdict
  by (auto simp: fail_command_def run_act_rec rec_simps record_call_def go_try_def Handle_finish_def
      split: sum.splits prod.splits outcome.splits) (simp_all add: handled_simps)

lemma Handle_trace:
  "handled (ttl_over nowf cmd s) (ID cmd) (ActionTimeout d) (verdict lib d cmd)
     (snd (snd (Handle (rec_now nowf) (rec_actor pve) (rec_store store) lib d cmd (s, []))))"
proof -
  obtain t s1 where n: "nowf s = (t, s1)" by force
  define s2 where "s2 = (if ExpiresAt cmd = 0 then s else s1)"
  obtain c s3 where c: "cs_ClaimCommand store (ID cmd) s2 = (c, s3)" by force
  have e: "is_expired (rec_now nowf) (ExpiresAt cmd) (s, []) = (Ok (ttl_over nowf cmd s), (s2, []))"
    by (simp add: is_expired_def rec_now_def ttl_over_def n s2_def)
  obtain r s4 tr where h: "Handle_claimed (rec_actor pve) (rec_store store) lib d cmd
      (s3, [Claimed (ID cmd) (Ok True)]) = (r, (s4, tr))"
    by (metis surj_pair)
  from Handle_claimed_handled [OF h]
  show ?thesis
    by (auto simp: Handle_def e c h go_bind_def go_try_def go_wrap_def rec_simps record_call_def
        go_return_def split: outcome.splits prod.splits) (simp_all add: handled_simps)
qed

text \<open>Recording changes neither the result nor the state.\<close>

definition forgets :: "('s \<times> call list, 'a) go \<Rightarrow> ('s, 'a) go \<Rightarrow> bool" where
  "forgets m' m \<longleftrightarrow> (\<forall>s tr. \<exists>tr'. m' (s, tr) = (fst (m s), (snd (m s), tr')))"

lemma forgets_record: "forgets (record_call mk m) m"
  by (auto simp: forgets_def record_call_def split: prod.splits)

lemma forgets_return: "forgets (go_return a) (go_return a)"
  by (auto simp: forgets_def go_defs)

lemma forgetsE: "forgets m' m \<Longrightarrow> m s = (r, t) \<Longrightarrow> \<exists>tr'. m' (s, tr) = (r, (t, tr'))"
  unfolding forgets_def by (metis fst_conv snd_conv)

lemma forgets_bind:
  assumes m: "forgets m' m" and f: "\<And>a. forgets (f' a) (f a)"
  shows "forgets (go_bind m' f') (go_bind m f)"
  unfolding forgets_def
proof (intro allI)
  fix s tr
  obtain r t where r: "m s = (r, t)" by force
  obtain tr' where r': "m' (s, tr) = (r, (t, tr'))" using forgetsE [OF m r] by blast
  show "\<exists>tr'. go_bind m' f' (s, tr) = (fst (go_bind m f s), snd (go_bind m f s), tr')"
    using r r' f unfolding forgets_def by (cases r) (auto simp: go_bind_def)
qed

lemma forgets_try:
  assumes m: "forgets m' m" and f: "\<And>a. forgets (f' a) (f a)"
  shows "forgets (go_try m' f') (go_try m f)"
  unfolding forgets_def
proof (intro allI)
  fix s tr
  obtain r t where r: "m s = (r, t)" by force
  obtain tr' where r': "m' (s, tr) = (r, (t, tr'))" using forgetsE [OF m r] by blast
  show "\<exists>tr'. go_try m' f' (s, tr) = (fst (go_try m f s), snd (go_try m f s), tr')"
    using r r' f unfolding forgets_def by (cases r) (auto simp: go_try_def)
qed

lemma forgets_wrap:
  assumes m: "forgets m' m"
  shows "forgets (go_wrap ctx m') (go_wrap ctx m)"
  unfolding forgets_def
proof (intro allI)
  fix s tr
  obtain r t where r: "m s = (r, t)" by force
  obtain tr' where r': "m' (s, tr) = (r, (t, tr'))" using forgetsE [OF m r] by blast
  show "\<exists>tr'. go_wrap ctx m' (s, tr) = (fst (go_wrap ctx m s), snd (go_wrap ctx m s), tr')"
    using r r' by (cases r) (auto simp: go_wrap_def)
qed

lemma forgets_expired: "forgets (is_expired (rec_now nowf) e) (is_expired nowf e)"
  by (auto simp: forgets_def is_expired_def rec_now_def split: prod.splits)

lemmas forgets_rules = forgets_record forgets_return forgets_bind forgets_try forgets_wrap
  forgets_expired

lemma Handle_claimed_forgets:
  "forgets (Handle_claimed (rec_actor pve) (rec_store store) lib d cmd)
     (Handle_claimed pve store lib d cmd)"
  unfolding Handle_claimed_verdict
  by (auto simp: fail_command_def Handle_finish_def rec_simps run_act_rec split: sum.splits
      intro!: forgets_rules)

lemma Handle_forgets:
  "forgets (Handle (rec_now nowf) (rec_actor pve) (rec_store store) lib d cmd)
     (Handle nowf pve store lib d cmd)"
  unfolding Handle_def
  by (auto simp: rec_simps split: sum.splits intro!: forgets_rules Handle_claimed_forgets)



section \<open>What the protocol gives\<close>

text \<open>The calls of one run of \<open>Handle\<close> on the interfaces, in order.\<close>

definition calls_of ::
  "('s \<Rightarrow> int \<times> 's) \<Rightarrow> 's ProxmoxActor \<Rightarrow> 's CommandStore \<Rightarrow> ('k, 'p, 'o, 'l) hpke \<Rightarrow> Dispatcher \<Rightarrow>
   Command \<Rightarrow> 's \<Rightarrow> call list" where
  "calls_of nowf pve store lib d cmd s =
     snd (snd (Handle (rec_now nowf) (rec_actor pve) (rec_store store) lib d cmd (s, [])))"

fun is_acted :: "call \<Rightarrow> bool" where
  "is_acted (Acted _ _) = True" | "is_acted _ = False"

fun is_completed :: "call \<Rightarrow> bool" where
  "is_completed (Completed _ _ _ _) = True" | "is_completed _ = False"

text \<open>The calls of the interfaces that came back.\<close>

fun call_returned :: "call \<Rightarrow> bool" where
  "call_returned (Claimed _ r) = returned r"
| "call_returned (Acted _ r) = returned r"
| "call_returned (Awaited _ _ _ r) = returned r"
| "call_returned (Completed _ _ _ r) = returned r"

text \<open>
  Claim C1: whatever the services do, the calls of \<open>Handle\<close> follow the protocol \<open>handled\<close>:
  claim first; then, for a claim that succeeded, either one completion with the failure of the
  validation or the expiry, or one action, one wait and one completion. The calls are those of the
  code: recording them changes neither its result nor its state.
\<close>

theorem Handle_protocol:
  "(case Handle (rec_now nowf) (rec_actor pve) (rec_store store) lib d cmd (s, []) of
      (r, (t, _)) \<Rightarrow> Handle nowf pve store lib d cmd s = (r, t)) \<and>
   handled (ttl_over nowf cmd s) (ID cmd) (ActionTimeout d) (verdict lib d cmd)
     (calls_of nowf pve store lib d cmd s)"
proof
  show "handled (ttl_over nowf cmd s) (ID cmd) (ActionTimeout d) (verdict lib d cmd)
     (calls_of nowf pve store lib d cmd s)"
    unfolding calls_of_def by (rule Handle_trace)
  obtain r t where h: "Handle nowf pve store lib d cmd s = (r, t)" by force
  obtain tr where "Handle (rec_now nowf) (rec_actor pve) (rec_store store) lib d cmd (s, []) =
      (r, (t, tr))"
    using forgetsE [OF Handle_forgets h, of "[]"] by blast
  with h show "case Handle (rec_now nowf) (rec_actor pve) (rec_store store) lib d cmd (s, []) of
      (r, (t, _)) \<Rightarrow> Handle nowf pve store lib d cmd s = (r, t)"
    by auto
qed

lemma handled_acts:
  "handled ex i T v tr \<Longrightarrow> Acted a r \<in> set tr \<Longrightarrow>
     \<not> ex \<and> hd tr = Claimed i (Ok True) \<and> (\<exists>p. v = Inr (p, a)) \<and> length (filter is_acted tr) = 1"
  by (induction rule: handled.induct) auto

text \<open>
  Proxmox is asked to change something only for a command that this agent claimed, that
  was not expired and that is of a known kind; the action is the one the validation derived from the
  payload (a known guest kind, a node, a positive VM id, a valid snapshot name), and it is asked for
  once.
\<close>

theorem Handle_acts_only_if_claimed:
  assumes "Acted a r \<in> set (calls_of nowf pve store lib d cmd s)"
  shows "hd (calls_of nowf pve store lib d cmd s) = Claimed (ID cmd) (Ok True) \<and>
    \<not> ttl_over nowf cmd s \<and> IsKnown (Kind cmd) \<and> act_ok a \<and>
    length (filter is_acted (calls_of nowf pve store lib d cmd s)) = 1"
  using handled_acts [OF Handle_trace assms [unfolded calls_of_def]]
  by (auto simp: calls_of_def dest: verdict_ok)

lemma handled_completes:
  "handled ex i T v tr \<Longrightarrow> hd tr = Claimed i (Ok True) \<Longrightarrow> list_all call_returned tr \<Longrightarrow>
     \<exists>st res r. filter is_completed tr = [Completed i st res r] \<and> last tr = Completed i st res r
       \<and> (st = ''expired'' \<longleftrightarrow> ex)
       \<and> (st = ''done'' \<longleftrightarrow> (\<exists>n u t x. Awaited n u t (Ok x) \<in> set tr \<and> ExitStatus x = ''OK''))
       \<and> st \<in> {''done'', ''failed'', ''expired''}"
  by (induction rule: handled.induct) auto

text \<open>
  Claim C7: a command that was claimed is completed, exactly once and as the last call, as long as
  the calls of the clients return (with or without an error): as expired exactly when its time was
  over, as done exactly when the task ended with exit status OK, as failed otherwise.
\<close>

theorem Handle_completes_once:
  assumes "hd (calls_of nowf pve store lib d cmd s) = Claimed (ID cmd) (Ok True)"
    and "list_all call_returned (calls_of nowf pve store lib d cmd s)"
  shows "\<exists>st res r. filter is_completed (calls_of nowf pve store lib d cmd s) = [Completed (ID cmd) st res r]
     \<and> last (calls_of nowf pve store lib d cmd s) = Completed (ID cmd) st res r
     \<and> (st = ''expired'' \<longleftrightarrow> ttl_over nowf cmd s)
     \<and> (st = ''done'' \<longleftrightarrow> (\<exists>n u t x. Awaited n u t (Ok x) \<in> set (calls_of nowf pve store lib d cmd s)
           \<and> ExitStatus x = ''OK''))
     \<and> st \<in> {''done'', ''failed'', ''expired''}"
  using handled_completes [OF Handle_trace assms [unfolded calls_of_def]] unfolding calls_of_def .

text \<open>
  Claim C2: what the dispatcher decides about a claimed command depends on the command and the key
  alone: the code's validation and routing is \<open>verdict\<close> followed by the action and its wait.
\<close>

theorem Handle_refines:
  "Handle_claimed pve store lib d cmd =
    (case verdict lib d cmd of
       Inl msg \<Rightarrow> fail_command store (ID cmd) msg
     | Inr (p, a) \<Rightarrow> go_try (run_act pve a) (Handle_finish pve store cmd p (ActionTimeout d)))"
  by (rule Handle_claimed_verdict)

section \<open>Contracts of the interfaces\<close>

text \<open>
  \<open>dispatch_effect\<close>: every call of the interfaces changes the state within a preorder; then so
  does \<open>Handle\<close>. \<open>dispatch_meter\<close>: a quantity (of mutations, say) that only a valid action
  raises, and by at most one; then \<open>Handle\<close> raises it by at most one, and not at all when the
  command is not claimed.
\<close>

locale dispatch_effect = effect R for R :: "'s \<Rightarrow> 's \<Rightarrow> bool" +
  fixes nowf :: "'s \<Rightarrow> int \<times> 's"
    and pve :: "'s ProxmoxActor"
    and store :: "'s CommandStore"
  assumes now_R: "R s (snd (nowf s))"
    and claim_R: "changes R (cs_ClaimCommand store i)"
    and complete_R: "changes R (cs_CompleteCommand store i st res)"
    and await_R: "changes R (pa_AwaitTaskCompletion pve n u t)"
    and act_R: "changes R (run_act pve a)"
begin

lemma Handle_changes: "changes R (Handle nowf pve store lib d cmd)"
proof -
  have e: "changes R (is_expired nowf x)" for x
    using now_R R_refl by (auto simp: changes_def is_expired_def split: prod.splits) (metis snd_conv)
  have f: "changes R (Handle_finish pve store cmd p t r)" for p t r
    unfolding Handle_finish_def fail_command_def
    by (auto split: sum.splits intro!: attempt complete_R await_R)
  have c: "changes R (Handle_claimed pve store lib d cmd)"
    unfolding Handle_claimed_verdict fail_command_def
    by (auto split: sum.splits intro!: attempt complete_R act_R f)
  show ?thesis unfolding Handle_def
    by (auto split: sum.splits intro!: bind wrap attempt return e c claim_R complete_R)
qed

end

text \<open>The bound of a call on a quantity: it raises it by at most \<open>k\<close>.\<close>

definition raises :: "('s \<Rightarrow> nat) \<Rightarrow> nat \<Rightarrow> ('s, 'a) go \<Rightarrow> bool" where
  "raises m k f \<longleftrightarrow> (\<forall>s. m (snd (f s)) \<le> m s + k)"

lemma raises_0: "changes (\<lambda>s t. m t = m s) f \<Longrightarrow> raises m 0 f"
  by (simp add: changes_def raises_def)

lemma raises_mono: "raises m j f \<Longrightarrow> j \<le> k \<Longrightarrow> raises m k f"
  unfolding raises_def by (meson add_left_mono le_trans)

lemma raisesD: "raises m k f \<Longrightarrow> f s = (r, t) \<Longrightarrow> m t \<le> m s + k"
  by (metis raises_def snd_conv)

lemma raises_return: "raises m k (go_return a)"
  by (simp add: raises_def go_defs)

lemma raises_bind:
  assumes f: "raises m j f" and g: "\<And>a. raises m k (g a)"
  shows "raises m (j + k) (go_bind f g)"
  unfolding raises_def
proof
  fix s
  obtain r t where r: "f s = (r, t)" by force
  have "m t \<le> m s + j" using raisesD [OF f r] .
  moreover have "m (snd (g a t)) \<le> m t + k" for a using g by (simp add: raises_def)
  ultimately show "m (snd (go_bind f g s)) \<le> m s + (j + k)"
    using r by (cases r) (auto simp: go_simps intro: order_trans [of _ "m t + k"])
qed

lemma raises_try:
  assumes f: "raises m j f" and g: "\<And>a. raises m k (g a)"
  shows "raises m (j + k) (go_try f g)"
  unfolding raises_def
proof
  fix s
  obtain r t where r: "f s = (r, t)" by force
  have "m t \<le> m s + j" using raisesD [OF f r] .
  moreover have "m (snd (g a t)) \<le> m t + k" for a using g by (simp add: raises_def)
  ultimately show "m (snd (go_try f g s)) \<le> m s + (j + k)"
    using r by (cases r) (auto simp: go_simps intro: order_trans [of _ "m t + k"])
qed

lemma raises_wrap: "raises m k f \<Longrightarrow> raises m k (go_wrap ctx f)"
  by (auto simp: raises_def go_wrap_def split: outcome.splits prod.splits) (metis snd_conv)+

lemmas raises_bind0 = raises_bind [where j = 0, simplified]
lemmas raises_try0 = raises_try [where j = 0, simplified]

locale dispatch_meter =
  fixes m :: "'s \<Rightarrow> nat"
    and nowf :: "'s \<Rightarrow> int \<times> 's"
    and pve :: "'s ProxmoxActor"
    and store :: "'s CommandStore"
  assumes now_m: "m (snd (nowf s)) = m s"
    and claim_m: "raises m 0 (cs_ClaimCommand store i)"
    and complete_m: "raises m 0 (cs_CompleteCommand store i st res)"
    and await_m: "raises m 0 (pa_AwaitTaskCompletion pve n u t)"
    and act_m: "act_ok a \<Longrightarrow> raises m 1 (run_act pve a)"
begin

lemma expired_m: "raises m 0 (is_expired nowf x)"
  by (auto simp: raises_def is_expired_def split: prod.splits) (metis now_m snd_conv le_refl)

lemma finish_m: "raises m 0 (Handle_finish pve store cmd p t r)"
  unfolding Handle_finish_def fail_command_def
  by (auto split: sum.splits intro!: raises_try0 await_m complete_m)

lemma claimed_m: "raises m 1 (Handle_claimed pve store lib d cmd)"
proof (cases "verdict lib d cmd")
  case (Inl msg)
  then show ?thesis
    by (simp add: Handle_claimed_verdict fail_command_def raises_mono [OF complete_m])
next
  case (Inr pa)
  obtain p a where pa: "pa = (p, a)" by force
  from Inr pa have "act_ok a" using verdict_ok by blast
  from raises_try [OF act_m [OF this] finish_m] Inr pa show ?thesis
    by (simp add: Handle_claimed_verdict)
qed

lemma Handle_at_most_one: "raises m 1 (Handle nowf pve store lib d cmd)"
proof -
  have x: "raises m 1 (go_try (cs_ClaimCommand store (ID cmd)) (\<lambda>r. case r of
           Inr ok \<Rightarrow> if ok then cs_CompleteCommand store (ID cmd) ''expired'' [(''reason'', RStr ''ttl'')]
                     else go_return ()
         | Inl _ \<Rightarrow> go_return ()))"
    by (rule raises_try0)
      (auto simp del: One_nat_def split: sum.splits intro: raises_return claim_m raises_mono [OF complete_m])
  have y: "raises m 1 (go_bind (go_wrap c (cs_ClaimCommand store (ID cmd))) (\<lambda>ok.
           if \<not> ok then go_return () else Handle_claimed pve store lib d cmd))" for c
    by (rule raises_bind0)
      (auto simp del: One_nat_def intro!: raises_return raises_wrap claim_m claimed_m)
  show ?thesis unfolding Handle_def
    by (rule raises_bind0)
      (use x y expired_m in \<open>auto simp del: One_nat_def\<close>)
qed

lemma Handle_unclaimed:
  assumes "fst (cs_ClaimCommand store (ID cmd) (snd (is_expired nowf (ExpiresAt cmd) s))) \<noteq> Ok True"
  shows "m (snd (Handle nowf pve store lib d cmd s)) \<le> m s"
proof -
  obtain x s1 where e: "is_expired nowf (ExpiresAt cmd) s = (x, s1)" by force
  then obtain b where x: "x = Ok b"
    by (auto simp: is_expired_def split: prod.splits if_splits)
  obtain r s2 where c: "cs_ClaimCommand store (ID cmd) s1 = (r, s2)" by force
  have "m s1 \<le> m s" using raisesD [OF expired_m e] by simp
  moreover have "m s2 \<le> m s1" using raisesD [OF claim_m c] by simp
  moreover have "snd (Handle nowf pve store lib d cmd s) = s2"
    using assms e c x
    by (cases r; cases b) (auto simp: Handle_def go_bind_def go_try_def go_wrap_def go_return_def)
  ultimately show ?thesis by simp
qed

end

end
