(* ===== verification/SupabaseRest.thy ===== *)
theory SupabaseRest
  imports Supabase Dispatcher "HOL-Library.Word"
begin

unbundle bit_operations_syntax

text \<open>
  \<open>internal/supabase/rest.go\<close>, \<open>commands.go\<close>, \<open>read_commands.go\<close> and \<open>clusters.go\<close>: the
  rows the agent reads and writes. Every request carries the access token; on a 401 the token is
  refreshed and the request is sent once more.
\<close>

section \<open>Requests\<close>

definition rest_request ::
  "'w sb_client \<Rightarrow> string \<Rightarrow> string \<Rightarrow> (string \<times> string) list \<Rightarrow> string option \<Rightarrow> string \<Rightarrow>
   (string \<times> string) list \<Rightarrow> http_request" where
  "rest_request c method path pre body token after =
     \<lparr>rq_method = method, rq_url = restBase c @ path,
      rq_headers = pre @ [(''apikey'', publishableKey c), (''Authorization'', ''Bearer '' @ token)]
                   @ after,
      rq_body = body\<rparr>"

text \<open>The local function \<open>attempt\<close> of the three verbs: the error of \<open>ReadAll\<close> is dropped.\<close>

definition attempt :: "'w env \<Rightarrow> http_request \<Rightarrow> ('w agent, int \<times> string) go" where
  "attempt env rq = go_bind (http_send env Sb rq) (\<lambda>res. case res of
     BuildFailed e \<Rightarrow> go_fail (Wrap ''build request'' (Lib e))
   | DoFailed e \<Rightarrow> go_fail (Wrap ''do request'' (Lib e))
   | ReadFailed status raw _ \<Rightarrow> go_return (status, raw)
   | Response status raw \<Rightarrow> go_return (status, raw))"

text \<open>Access token, attempt, and on a 401 refresh and a second attempt.\<close>

definition with_token ::
  "'w env \<Rightarrow> 'w sb_client \<Rightarrow> (string \<Rightarrow> http_request) \<Rightarrow> ('w agent, int \<times> string) go" where
  "with_token env c rq = go_bind (access env c) (\<lambda>token.
     go_bind (attempt env (rq token)) (\<lambda>(status, raw).
       if status = 401 then go_bind (refresh env c) (\<lambda>token'. attempt env (rq token'))
       else go_return (status, raw)))"

definition ok_status :: "int \<Rightarrow> bool" where
  "ok_status status \<longleftrightarrow> 200 \<le> status \<and> status < 300"

definition get_request :: "'w sb_client \<Rightarrow> string \<Rightarrow> string \<Rightarrow> http_request" where
  "get_request c path token =
     rest_request c ''GET'' path [] None token [(''Accept'', ''application/json'')]"

definition getRows :: "'w env \<Rightarrow> 'w sb_client \<Rightarrow> string \<Rightarrow> ('w agent, string) go" where
  "getRows env c path = go_bind (with_token env c (get_request c path)) (\<lambda>(status, raw).
     if \<not> ok_status status
     then go_fail (Err (''GET '' @ path @ '': status '' @ int_dec status @ '': '' @ raw))
     else go_return raw)"

definition post_request :: "'w sb_client \<Rightarrow> string \<Rightarrow> string \<Rightarrow> string \<Rightarrow> http_request" where
  "post_request c path body token =
     rest_request c ''POST'' path [(''Content-Type'', ''application/json'')] (Some body) token
       [(''Prefer'', ''return=minimal'')]"

text \<open>\<open>postRow\<close> reads the body of a failure only.\<close>

definition postRow :: "'w env \<Rightarrow> 'w sb_client \<Rightarrow> string \<Rightarrow> string \<Rightarrow> ('w agent, unit) go" where
  "postRow env c path body = go_bind (with_token env c (post_request c path body)) (\<lambda>(status, raw).
     if \<not> ok_status status
     then go_fail (Err (''unexpected status '' @ int_dec status @ '': '' @ raw))
     else go_return ())"

definition patch_request ::
  "'w sb_client \<Rightarrow> string \<Rightarrow> string \<Rightarrow> string \<Rightarrow> string \<Rightarrow> http_request" where
  "patch_request c path body prefer_header token =
     rest_request c ''PATCH'' path [(''Content-Type'', ''application/json'')] (Some body) token
       [(''Prefer'', prefer_header)]"

definition patchWithAuth ::
  "'w env \<Rightarrow> 'w sb_client \<Rightarrow> string \<Rightarrow> string \<Rightarrow> string \<Rightarrow> ('w agent, int \<times> string) go" where
  "patchWithAuth env c path body preferHeader = with_token env c (patch_request c path body preferHeader)"

definition patch_failed :: "string \<Rightarrow> int \<Rightarrow> string \<Rightarrow> error" where
  "patch_failed path status raw = Err (''PATCH '' @ path @ '': status '' @ int_dec status @ '': '' @ raw)"

definition patchRowReturning ::
  "'w env \<Rightarrow> 'w sb_client \<Rightarrow> string \<Rightarrow> string \<Rightarrow> ('w agent, string list) go" where
  "patchRowReturning env c path body =
     go_bind (patchWithAuth env c path body ''return=representation'') (\<lambda>(status, raw).
       if \<not> ok_status status then go_fail (patch_failed path status raw)
       else (case json_unmarshal (decode_list (\<lambda>r _. Some r)) raw of
          Inl e \<Rightarrow> go_fail (Wrap ''parse response'' e) | Inr rows \<Rightarrow> go_return rows))"

definition patchRow :: "'w env \<Rightarrow> 'w sb_client \<Rightarrow> string \<Rightarrow> string \<Rightarrow> ('w agent, unit) go" where
  "patchRow env c path body =
     go_bind (patchWithAuth env c path body ''return=minimal'') (\<lambda>(status, raw).
       if \<not> ok_status status then go_fail (patch_failed path status raw) else go_return ())"

text \<open>\<open>json.Marshal\<close> in a function that wraps its error.\<close>

definition marshal :: "string \<Rightarrow> jval \<Rightarrow> ('s, string) go" where
  "marshal ctx v = (case json_marshal v of None \<Rightarrow> go_fail (Wrap ctx (Lib JsonSyntax))
     | Some raw \<Rightarrow> go_return raw)"

section \<open>Snapshots\<close>

definition PushSnapshot ::
  "'w env \<Rightarrow> 'w sb_client \<Rightarrow> string \<Rightarrow> string option \<Rightarrow> ('w agent, unit) go" where
  "PushSnapshot env c clusterID payload =
     go_bind (marshal ''marshal snapshot body''
        (VMap [(''cluster_id'', VStr clusterID), (''payload'', raw_value payload)])) (\<lambda>body.
       go_wrap ''push snapshot'' (postRow env c ''/status_snapshots'' body))"

section \<open>Commands\<close>

definition claim_body :: "int \<Rightarrow> jval" where
  "claim_body t = VMap [(''status'', VStr ''claimed''), (''claimed_at'', VStr (format_nano t))]"

definition claim_path :: "string \<Rightarrow> int \<Rightarrow> string" where
  "claim_path table i = ''/'' @ table @ ''?id=eq.'' @ int_dec i @ ''&status=eq.pending''"

definition ClaimCommand :: "'w env \<Rightarrow> 'w sb_client \<Rightarrow> int \<Rightarrow> ('w agent, bool) go" where
  "ClaimCommand env c i = go_bind (now env) (\<lambda>t.
     go_bind (marshal ''marshal claim'' (claim_body t)) (\<lambda>raw.
     go_bind (patchRowReturning env c (claim_path ''commands'' i) raw) (\<lambda>returned.
       go_return (returned \<noteq> []))))"

definition command_fields :: "(string \<times> Command setter) list" where
  "command_fields =
    [(''id'', set_int (\<lambda>x r. r\<lparr>ID := x\<rparr>)),
     (''host_id'', set_string (\<lambda>x r. r\<lparr>HostID := x\<rparr>)),
     (''kind'', set_string (\<lambda>x r. r\<lparr>Kind := x\<rparr>)),
     (''payload'', set_raw (\<lambda>x r. r\<lparr>Payload := x\<rparr>)),
     (''status'', set_string (\<lambda>x r. r\<lparr>Status := x\<rparr>)),
     (''expires_at'', set_time (\<lambda>x r. r\<lparr>ExpiresAt := x\<rparr>))]"

definition empty_command :: Command where
  "empty_command = \<lparr>ID = 0, HostID = '''', Kind = '''', Payload = '''', Status = '''', ExpiresAt = 0\<rparr>"

definition decode_command :: "json \<Rightarrow> Command option" where
  "decode_command v = decode_struct command_fields v empty_command"

definition pending_path :: "string \<Rightarrow> string \<Rightarrow> string \<Rightarrow> string" where
  "pending_path table clusterID cols =
     ''/'' @ table @ ''?cluster_id=eq.'' @ clusterID @ ''&status=eq.pending&select='' @ cols @
     ''&order=id.asc&limit=200''"

definition PendingCommands :: "'w env \<Rightarrow> 'w sb_client \<Rightarrow> string \<Rightarrow> ('w agent, Command list) go" where
  "PendingCommands env c clusterID =
     go_bind (getRows env c (pending_path ''commands'' clusterID ''id,host_id,kind,payload,status,expires_at''))
       (\<lambda>raw. case json_unmarshal (decode_list (\<lambda>_. decode_command)) raw of
          Inl e \<Rightarrow> go_fail (Wrap ''decode pending commands'' e)
        | Inr rows \<Rightarrow> go_return rows)"

text \<open>The values of the result map, as JSON.\<close>

definition rvalue_json :: "'w env \<Rightarrow> rvalue \<Rightarrow> jval" where
  "rvalue_json env v = (case v of RStr s \<Rightarrow> VStr s
     | RErr prefix e \<Rightarrow> VStr (prefix @ error_text (env_text env) e))"

definition complete_path :: "string \<Rightarrow> int \<Rightarrow> string" where
  "complete_path table i = ''/'' @ table @ ''?id=eq.'' @ int_dec i"

definition CompleteCommand ::
  "'w env \<Rightarrow> 'w sb_client \<Rightarrow> int \<Rightarrow> string \<Rightarrow> result \<Rightarrow> ('w agent, unit) go" where
  "CompleteCommand env c i status result = go_bind (now env) (\<lambda>t.
     go_bind (marshal ''marshal complete'' (VMap
        [(''status'', VStr status), (''completed_at'', VStr (format_nano t)),
         (''result'', VMap (map (\<lambda>(k, v). (k, rvalue_json env v)) result))])) (\<lambda>raw.
       patchRow env c (complete_path ''commands'' i) raw))"

section \<open>Read commands\<close>

record ReadCommand =
  rc_ID :: int
  rc_HostID :: string
  rc_Endpoint :: string
  rc_Params :: string
  rc_Status :: string
  rc_ExpiresAt :: int

definition read_command_fields :: "(string \<times> ReadCommand setter) list" where
  "read_command_fields =
    [(''id'', set_int (\<lambda>x r. r\<lparr>rc_ID := x\<rparr>)),
     (''host_id'', set_string (\<lambda>x r. r\<lparr>rc_HostID := x\<rparr>)),
     (''endpoint'', set_string (\<lambda>x r. r\<lparr>rc_Endpoint := x\<rparr>)),
     (''params'', set_raw (\<lambda>x r. r\<lparr>rc_Params := x\<rparr>)),
     (''status'', set_string (\<lambda>x r. r\<lparr>rc_Status := x\<rparr>)),
     (''expires_at'', set_time (\<lambda>x r. r\<lparr>rc_ExpiresAt := x\<rparr>))]"

definition empty_read_command :: ReadCommand where
  "empty_read_command = \<lparr>rc_ID = 0, rc_HostID = '''', rc_Endpoint = '''', rc_Params = '''',
     rc_Status = '''', rc_ExpiresAt = 0\<rparr>"

definition decode_read_command :: "json \<Rightarrow> ReadCommand option" where
  "decode_read_command v = decode_struct read_command_fields v empty_read_command"

definition ClaimReadCommand :: "'w env \<Rightarrow> 'w sb_client \<Rightarrow> int \<Rightarrow> ('w agent, bool) go" where
  "ClaimReadCommand env c i = go_bind (now env) (\<lambda>t.
     go_bind (marshal ''marshal claim'' (claim_body t)) (\<lambda>raw.
     go_bind (patchRowReturning env c (claim_path ''read_commands'' i) raw) (\<lambda>returned.
       go_return (returned \<noteq> []))))"

definition PendingReadCommands ::
  "'w env \<Rightarrow> 'w sb_client \<Rightarrow> string \<Rightarrow> ('w agent, ReadCommand list) go" where
  "PendingReadCommands env c clusterID =
     go_bind (getRows env c (pending_path ''read_commands'' clusterID ''id,host_id,endpoint,params,status,expires_at''))
       (\<lambda>raw. case json_unmarshal (decode_list (\<lambda>_. decode_read_command)) raw of
          Inl e \<Rightarrow> go_fail (Wrap ''decode pending read_commands'' e)
        | Inr rows \<Rightarrow> go_return rows)"

definition CompleteReadCommand ::
  "'w env \<Rightarrow> 'w sb_client \<Rightarrow> int \<Rightarrow> string \<Rightarrow> string option \<Rightarrow> string \<Rightarrow> ('w agent, unit) go" where
  "CompleteReadCommand env c i status result errMsg = go_bind (now env) (\<lambda>t.
     go_bind (marshal ''marshal complete'' (VMap
        ([(''status'', VStr status), (''completed_at'', VStr (format_nano t))]
         @ (case result of None \<Rightarrow> [] | Some raw \<Rightarrow> [(''result'', VRaw raw)])
         @ (if errMsg = '''' then [] else [(''error'', VStr errMsg)])))) (\<lambda>raw.
       patchRow env c (complete_path ''read_commands'' i) raw))"

section \<open>The public key of a cluster\<close>

definition hexdigits :: string where "hexdigits = ''0123456789abcdef''"

definition bytea_char :: "char \<Rightarrow> string" where
  "bytea_char b = (let v = of_char b :: 8 word in
     [hexdigits ! unat (drop_bit 4 v), hexdigits ! unat (v AND 0x0f)])"

definition bytesToBytea :: "string \<Rightarrow> string" where
  "bytesToBytea b = backslash # CHR ''x'' # concat (map bytea_char b)"

definition UploadClusterPublicKey ::
  "'w env \<Rightarrow> 'w sb_client \<Rightarrow> string \<Rightarrow> string \<Rightarrow> ('w agent, unit) go" where
  "UploadClusterPublicKey env c clusterID publicKey =
     go_bind (marshal ''marshal public_key body'' (VMap [(''public_key'', VStr (bytesToBytea publicKey))]))
       (\<lambda>body. go_wrap ''upload cluster public_key'' (patchRow env c (''/clusters?id=eq.'' @ clusterID) body))"

text \<open>The command store of the dispatcher.\<close>

definition sb_store :: "'w env \<Rightarrow> 'w sb_client \<Rightarrow> 'w agent CommandStore" where
  "sb_store env c =
     \<lparr>cs_ClaimCommand = ClaimCommand env c, cs_CompleteCommand = CompleteCommand env c\<rparr>"


section \<open>The bytea format\<close>

text \<open>How Postgres reads the hex format of a bytea.\<close>

fun hex_bytes_of :: "string \<Rightarrow> string option" where
  "hex_bytes_of [] = Some []"
| "hex_bytes_of [_] = None"
| "hex_bytes_of (a # b # r) = (case (hex_val a, hex_val b) of
     (Some x, Some y) \<Rightarrow> map_option ((#) (char_of (x * 16 + y))) (hex_bytes_of r)
   | _ \<Rightarrow> None)"

definition bytea_decode :: "string \<Rightarrow> string option" where
  "bytea_decode s = (case s of b # x # r \<Rightarrow> if b = backslash \<and> x = CHR ''x'' then hex_bytes_of r else None
     | _ \<Rightarrow> None)"

lemma bytea_nibbles:
  fixes v :: "8 word"
  shows "unat (drop_bit 4 v) = unat v div 16" "unat (v AND 0x0f) = unat v mod 16"
proof -
  show "unat (drop_bit 4 v) = unat v div 16"
    by (simp only: unat_drop_bit_eq) (simp add: drop_bit_eq_div)
  have "v AND 0x0f = take_bit 4 v" by (simp add: take_bit_eq_mask mask_eq_exp_minus_1)
  then show "unat (v AND 0x0f) = unat v mod 16"
    by (simp add: unat_mod_distrib take_bit_eq_mod)
qed

lemma hexdigits_val: "n < 16 \<Longrightarrow> hex_val (hexdigits ! n) = Some n"
proof -
  have "list_all (\<lambda>n. hex_val (hexdigits ! n) = Some n) [0..<16]" by code_simp
  then show "n < 16 \<Longrightarrow> ?thesis" by (simp add: list_all_iff)
qed

lemma bytea_char_val:
  "bytea_char b = [hexdigits ! (of_char b div 16), hexdigits ! (of_char b mod 16)]"
proof -
  have "unat (of_char b :: 8 word) = of_char b"
    by (simp only: of_nat_of_char [symmetric, where ?'a = "8 word"] unat_of_nat) simp
  then show ?thesis by (simp add: bytea_char_def bytea_nibbles Let_def)
qed

lemma hex_bytes_of_bytea: "hex_bytes_of (concat (map bytea_char b)) = Some b"
proof (induction b)
  case (Cons c b)
  note nib = nibbles(1) [OF nat_of_char_less_256 [of c]] nibbles(2) [of "of_char c"]
  from Cons show ?case
    by (simp add: bytea_char_val hexdigits_val [OF nib(1)] hexdigits_val [OF nib(2)])
qed simp

text \<open>
  The text uploaded for a public key is read back by Postgres as exactly the bytes of the key.
\<close>

lemma bytea_roundtrip: "bytea_decode (bytesToBytea key) = Some key"
  by (simp add: bytea_decode_def bytesToBytea_def hex_bytes_of_bytea)


section \<open>Everything the client does is made of five primitives\<close>

text \<open>
  \<open>sb_session\<close>: a preorder that the client's requests, the clock and a refresh respect is respected
  by every operation of the client. \<open>sb_effect\<close> gives the refresh from its own parts: a request, the
  clock, the update of the tokens and \<open>persist\<close>; so it is an \<open>sb_session\<close>.
\<close>

locale sb_session = effect R for R :: "'w agent \<Rightarrow> 'w agent \<Rightarrow> bool" +
  fixes env :: "'w env"
    and c :: "'w sb_client"
  assumes http_R: "changes R (http_send env Sb rq)"
    and now_val_R: "R s (snd (now_val env s))"
    and refresh_R: "changes R (refresh env c)"
begin

lemma now_R: "changes R (now env)"
  using now_val_R by (auto simp: changes_def now_def split: prod.splits) (metis snd_conv)

lemma access_R: "changes R (access env c)"
proof (rule changesI)
  fix s :: "'w agent"
  obtain t u where n: "now_val env s = (t, u)" by force
  have "R s u" using now_val_R [of s] n by simp
  moreover have "R x (snd (refresh env c x))" for x using refresh_R by (simp add: changes_def)
  ultimately show "R s (snd (access env c s))"
    using n R_trans by (auto simp: access_def)
qed

lemma attempt_R: "changes R (attempt env rq)"
  unfolding attempt_def by (auto split: http_outcome.splits intro!: combinators http_R)

lemma with_token_R: "changes R (with_token env c rq)"
  unfolding with_token_def by (auto intro!: combinators access_R attempt_R refresh_R)

lemma marshal_R: "changes R (marshal ctx v)"
  unfolding marshal_def by (auto split: option.splits intro!: combinators)

lemmas parts = combinators with_token_R marshal_R now_R refresh_R

lemma getRows_R: "changes R (getRows env c path)"
  unfolding getRows_def by (auto intro!: parts)

lemma postRow_R: "changes R (postRow env c path body)"
  unfolding postRow_def by (auto intro!: parts)

lemma patchRow_R: "changes R (patchRow env c path body)"
  unfolding patchRow_def patchWithAuth_def by (auto intro!: parts)

lemma patchRowReturning_R: "changes R (patchRowReturning env c path body)"
  unfolding patchRowReturning_def patchWithAuth_def by (auto split: sum.splits intro!: parts)

lemma ops_R:
  "changes R (Ping env c)"
  "changes R (PushSnapshot env c cluster payload)"
  "changes R (ClaimCommand env c i)"
  "changes R (CompleteCommand env c i st res)"
  "changes R (PendingCommands env c cluster)"
  "changes R (ClaimReadCommand env c i)"
  "changes R (CompleteReadCommand env c i st raw msg)"
  "changes R (PendingReadCommands env c cluster)"
  "changes R (UploadClusterPublicKey env c cluster key)"
  unfolding Ping_def PushSnapshot_def ClaimCommand_def CompleteCommand_def PendingCommands_def
    ClaimReadCommand_def CompleteReadCommand_def PendingReadCommands_def UploadClusterPublicKey_def
  by (auto split: sum.splits
      intro!: parts getRows_R postRow_R patchRow_R patchRowReturning_R)

end

locale sb_effect = effect R for R :: "'w agent \<Rightarrow> 'w agent \<Rightarrow> bool" +
  fixes env :: "'w env"
    and c :: "'w sb_client"
  assumes http_sends: "changes R (http_send env Sb rq)"
    and now_reads: "R s (snd (now_val env s))"
    and tokens_R: "R s (s\<lparr>sb_access := a, sb_refresh := r\<rparr>)"
    and expires_R: "R s (s\<lparr>sb_expires := x\<rparr>)"
    and persist_R: "persist c = Some f \<Longrightarrow> changes R (f tok)"
begin

lemma store_tokens_R: "changes R (store_tokens env p)"
proof (rule changesI)
  fix s :: "'w agent"
  let ?s1 = "s\<lparr>sb_access := AccessToken p, sb_refresh := RefreshToken p\<rparr>"
  obtain t s2 where n: "now_val env ?s1 = (t, s2)" by force
  have "R ?s1 s2" using now_reads [of ?s1] n by simp
  then have "R s s2" using tokens_R R_trans by blast
  then show "R s (snd (store_tokens env p s))"
    using n expires_R R_trans by (auto simp: store_tokens_def)
qed

lemma call_persist_R: "changes R (call_persist c tok)"
  by (auto simp: call_persist_def persist_R panic split: option.splits)

lemma refresh_response_R: "changes R (refresh_response env c status raw)"
  unfolding refresh_response_def
  by (auto split: sum.splits intro!: combinators call_persist_R store_tokens_R)

lemma refreshes: "changes R (refresh env c)"
  unfolding refresh_def
  by (auto split: option.splits http_outcome.splits intro!: combinators http_sends refresh_response_R)

end

sublocale sb_effect \<subseteq> sb_session R env c
  by unfold_locales (rule http_sends now_reads refreshes)+

text \<open>The client sends nothing but its own requests, and what \<open>persist\<close> does to the files.\<close>

definition file_event :: "event \<Rightarrow> bool" where
  "file_event e = (case e of FsWrite _ \<Rightarrow> True | FsRename _ _ \<Rightarrow> True
     | FsRemove _ \<Rightarrow> True | FsTemp _ \<Rightarrow> True | FsChmod _ \<Rightarrow> True | _ \<Rightarrow> False)"

definition sb_or_file :: "event \<Rightarrow> bool" where
  "sb_or_file e \<longleftrightarrow> (\<exists>rq. e = Sb rq) \<or> file_event e"

definition file_persist :: "'w sb_client \<Rightarrow> bool" where
  "file_persist c \<longleftrightarrow> (\<forall>f tok. persist c = Some f \<longrightarrow> changes (adds file_event) (f tok))"

definition sb_only :: "'w sb_client \<Rightarrow> 'w agent \<Rightarrow> 'w agent \<Rightarrow> bool" where
  "sb_only c s t \<longleftrightarrow> (file_persist c \<longrightarrow> adds sb_or_file s t)"

interpretation sb_only: sb_effect "sb_only c" env c
  for env :: "'w env" and c :: "'w sb_client"
proof unfold_locales
  fix s t u :: "'w agent" and rq a r x f tok
  show "sb_only c s s" by (simp add: sb_only_def adds.R_refl)
  show "sb_only c s t \<Longrightarrow> sb_only c t u \<Longrightarrow> sb_only c s u"
    by (auto simp: sb_only_def intro: adds.R_trans)
  have "changes (adds sb_or_file) (http_send env Sb rq)"
    by (rule adds_http) (simp add: sb_or_file_def)
  then show "changes (sb_only c) (http_send env Sb rq)"
    by (auto simp: changes_def sb_only_def)
  show "sb_only c s (snd (now_val env s))"
    by (auto simp: sb_only_def adds_def now_val_def split: prod.splits)
  show "sb_only c s (s\<lparr>sb_access := a, sb_refresh := r\<rparr>)" "sb_only c s (s\<lparr>sb_expires := x\<rparr>)"
    by (auto simp: sb_only_def adds_def)
  have "changes (adds sb_or_file) (f tok)" if "persist c = Some f" "file_persist c"
    by (rule changes_adds_mono [of file_event]) (use that in \<open>auto simp: file_persist_def sb_or_file_def\<close>)
  then show "persist c = Some f \<Longrightarrow> changes (sb_only c) (f tok)"
    by (auto simp: changes_def sb_only_def)
qed

lemma sb_onlyD: "changes (sb_only c) m \<Longrightarrow> file_persist c \<Longrightarrow> changes (adds sb_or_file) m"
  by (auto simp: changes_def sb_only_def)

lemmas sb_ops_adds = sb_only.ops_R [THEN sb_onlyD] sb_only.with_token_R [THEN sb_onlyD]
  sb_only.refresh_R [THEN sb_onlyD] sb_only.access_R [THEN sb_onlyD]

section \<open>One retry\<close>

text \<open>The requests with the token left open: which events are attempts of a request.\<close>

definition attempts :: "(string \<Rightarrow> http_request) \<Rightarrow> event \<Rightarrow> bool" where
  "attempts rq e \<longleftrightarrow> (\<exists>token. e = Sb (rq token))"

definition not_refresh :: "'w sb_client \<Rightarrow> (string \<Rightarrow> http_request) \<Rightarrow> bool" where
  "not_refresh c rq \<longleftrightarrow> (\<forall>token body. rq token \<noteq> refresh_request c body)"

lemma rest_not_refresh:
  "not_refresh c (get_request c path)" "not_refresh c (post_request c path body)"
  "not_refresh c (patch_request c path body h)"
  by (simp_all add: not_refresh_def get_request_def post_request_def patch_request_def
      rest_request_def refresh_request_def)

lemma attempts_file: "file_event e \<Longrightarrow> \<not> attempts rq e"
  by (auto simp: attempts_def file_event_def)

text \<open>Without attempts: a relation the client respects as long as it is not asked for one.\<close>

lemma refresh_adds:
  assumes c: "file_persist c" and request: "\<And>b. P (Sb (refresh_request c b))"
    and files: "\<And>e. file_event e \<Longrightarrow> P e"
  shows "changes (adds P) (refresh env c)"
proof -
  have p: "changes (adds P) (call_persist c tok)" for tok
    using c changes_adds_mono [of file_event _ P] files
    by (auto simp: call_persist_def file_persist_def intro: adds.panic split: option.splits)
  have st: "changes (adds P) (store_tokens env q)" for q
    by (auto simp: changes_def store_tokens_def now_val_def adds_def split: prod.splits)
  show ?thesis
    unfolding refresh_def refresh_response_def
    by (auto split: option.splits http_outcome.splits sum.splits
        intro!: adds.combinators adds_http request p st)
qed

lemma refresh_no_attempt:
  assumes "file_persist c" "not_refresh c rq"
  shows "changes (adds (\<lambda>e. \<not> attempts rq e)) (refresh env c)"
  by (rule refresh_adds [OF assms(1)])
    (use assms(2) in \<open>auto simp: attempts_def not_refresh_def file_event_def dest: sym\<close>)

lemma access_no_attempt:
  assumes "file_persist c" "not_refresh c rq"
  shows "changes (adds (\<lambda>e. \<not> attempts rq e)) (access env c)"
proof (rule changesI)
  fix s :: "'a agent"
  have r: "adds (\<lambda>e. \<not> attempts rq e) u (snd (refresh env c u))" for u
    using refresh_no_attempt [OF assms] by (simp add: changes_def)
  have n: "adds (\<lambda>e. \<not> attempts rq e) s u" if "now_val env s = (x, u)" for x u
    using now_val_log [OF that] by (simp add: adds_def)
  show "adds (\<lambda>e. \<not> attempts rq e) s (snd (access env c s))"
    using r n adds.R_trans [OF n r] by (auto simp: access_def split: prod.splits)
qed

lemma no_attempt_raises:
  "changes (adds (\<lambda>e. \<not> P e)) m \<Longrightarrow> raises (count_events P) 0 m"
  unfolding changes_def raises_def by (metis adds_count add_0_right order_refl)

lemma attempt_raises: "raises (count_events P) 1 (attempt env rq)"
  by (auto simp: raises_def attempt_def go_bind_def http_send_def count_events_def go_defs
      split: prod.splits http_outcome.splits)

text \<open>
  Claim C24: every request of the client is sent at most twice, whatever is answered, so a server
  that always says 401 cannot keep the agent busy.
\<close>

theorem with_token_at_most_twice:
  assumes "file_persist c" "not_refresh c rq"
  shows "count_events (attempts rq) (snd (with_token env c rq s)) \<le> count_events (attempts rq) s + 2"
proof -
  note a = no_attempt_raises [OF access_no_attempt [OF assms, of env]]
  note r = no_attempt_raises [OF refresh_no_attempt [OF assms, of env]]
  have rest: "raises (count_events (attempts rq)) 1
     (if status = 401 then go_bind (refresh env c) (\<lambda>token'. attempt env (rq token'))
       else go_return (status, raw))" for status :: int and raw
    using raises_bind0 [OF r attempt_raises] by (auto simp: raises_def go_simps)
  have "raises (count_events (attempts rq)) (1 + 1) (go_bind (attempt env (rq token)) (\<lambda>(status, raw).
       if status = 401 then go_bind (refresh env c) (\<lambda>token'. attempt env (rq token'))
       else go_return (status, raw)))" for token
    by (rule raises_bind [OF attempt_raises]) (use rest in \<open>auto split: prod.split\<close>)
  from raises_bind0 [OF a this] show ?thesis
    by (simp add: raises_def with_token_def)
qed

end
