(* ===== verification/Keysync.thy ===== *)
theory Keysync
  imports Config Crypto SupabaseRest
begin

text \<open>
  \<open>internal/keysync/keysync.go\<close> and \<open>internal/enroll/enroll.go\<close>: the life of the HPKE key, and
  the exchange of a registration code for credentials. \<open>gen\<close> is what the random generator of the
  HPKE library made. The functions of Go that change a configuration in place return the new one.
\<close>

section \<open>Keys\<close>

definition set_private_key :: "string \<Rightarrow> File \<Rightarrow> File" where
  "set_private_key k cfg = cfg\<lparr>f_Supabase := (f_Supabase cfg)\<lparr>sc_PrivateKey := k\<rparr>\<rparr>"

definition EnsurePrivateKey ::
  "'w env \<Rightarrow> 'x yaml \<Rightarrow> ('k, 'p, 'o, 'l) hpke \<Rightarrow> lib_error + ('p \<times> 'k) \<Rightarrow> File \<Rightarrow> string \<Rightarrow>
   ('w agent, string \<times> bool \<times> File) go" where
  "EnsurePrivateKey env y lib gen cfg configPath =
     (if sc_PrivateKey (f_Supabase cfg) \<noteq> ''''
      then go_return (sc_PrivateKey (f_Supabase cfg), False, cfg)
      else case GenerateKeypair lib gen of
        Inl e \<Rightarrow> go_fail (Wrap ''generate keypair'' e)
      | Inr (privBytes, _) \<Rightarrow>
        (let k = b64_encode privBytes; cfg' = set_private_key k cfg in
         go_bind (go_wrap ''save config with new private key'' (Save env y configPath cfg'))
           (\<lambda>_. go_return (k, True, cfg'))))"

definition UploadPublicKey ::
  "'w env \<Rightarrow> ('k, 'p, 'o, 'l) hpke \<Rightarrow> 'w sb_client \<Rightarrow> string \<Rightarrow> string \<Rightarrow> ('w agent, unit) go" where
  "UploadPublicKey env lib sb clusterID privateKeyB64 = (case b64_decode privateKeyB64 of
     Inl e \<Rightarrow> go_fail (Wrap ''decode private key'' e)
   | Inr privBytes \<Rightarrow>
     (case PublicKeyFromPrivate lib privBytes of
        Inl e \<Rightarrow> go_fail (Wrap ''derive public key'' e)
      | Inr pubBytes \<Rightarrow> UploadClusterPublicKey env sb clusterID pubBytes))"

definition RotateKey ::
  "'w env \<Rightarrow> 'x yaml \<Rightarrow> ('k, 'p, 'o, 'l) hpke \<Rightarrow> lib_error + ('p \<times> 'k) \<Rightarrow> File \<Rightarrow> string \<Rightarrow> 'w sb_client \<Rightarrow>
   ('w agent, string \<times> File) go" where
  "RotateKey env y lib gen cfg configPath sb = (case GenerateKeypair lib gen of
     Inl e \<Rightarrow> go_fail (Wrap ''generate keypair'' e)
   | Inr (privBytes, _) \<Rightarrow>
     (let k = b64_encode privBytes; cfg' = set_private_key k cfg in
      go_bind (go_wrap ''save config with rotated private key'' (Save env y configPath cfg')) (\<lambda>_.
      go_bind (go_wrap ''upload rotated public key''
                 (UploadPublicKey env lib sb (sc_ClusterID (f_Supabase cfg)) k)) (\<lambda>_.
        go_return (k, cfg')))))"

section \<open>Enrollment\<close>

record enroll_result =
  en_ClusterID :: string
  en_HostID :: string
  en_RefreshToken :: string
  en_ProjectRef :: string

record enroll_response =
  er_ClusterID :: string
  er_HostID :: string
  er_AccessToken :: string
  er_RefreshToken :: string
  er_ProjectRef :: string
  er_Error :: string

definition enroll_fields :: "(string \<times> enroll_response setter) list" where
  "enroll_fields =
    [(''cluster_id'', set_string (\<lambda>x r. r\<lparr>er_ClusterID := x\<rparr>)),
     (''host_id'', set_string (\<lambda>x r. r\<lparr>er_HostID := x\<rparr>)),
     (''access_token'', set_string (\<lambda>x r. r\<lparr>er_AccessToken := x\<rparr>)),
     (''refresh_token'', set_string (\<lambda>x r. r\<lparr>er_RefreshToken := x\<rparr>)),
     (''project_ref'', set_string (\<lambda>x r. r\<lparr>er_ProjectRef := x\<rparr>)),
     (''error'', set_string (\<lambda>x r. r\<lparr>er_Error := x\<rparr>))]"

definition parse_enroll :: "string \<Rightarrow> error + enroll_response" where
  "parse_enroll = json_unmarshal (\<lambda>v. decode_struct enroll_fields v
     \<lparr>er_ClusterID = '''', er_HostID = '''', er_AccessToken = '''', er_RefreshToken = '''',
      er_ProjectRef = '''', er_Error = ''''\<rparr>)"

definition enroll_answer :: "int \<Rightarrow> string \<Rightarrow> ('s, enroll_result) go" where
  "enroll_answer status raw = (case parse_enroll raw of
     Inl e \<Rightarrow> go_fail (Wrap (''parse response (status '' @ int_dec status @ '')'') e)
   | Inr p \<Rightarrow>
     if status \<noteq> 200 then
       go_fail (Err (if er_Error p = '''' then ''status '' @ int_dec status else er_Error p))
     else go_return \<lparr>en_ClusterID = er_ClusterID p, en_HostID = er_HostID p,
            en_RefreshToken = er_RefreshToken p, en_ProjectRef = er_ProjectRef p\<rparr>)"

definition enroll_Run :: "'w env \<Rightarrow> string \<Rightarrow> string \<Rightarrow> ('w agent, enroll_result) go" where
  "enroll_Run env code projectRef =
     go_bind (marshal ''marshal request'' (VMap [(''code'', VStr code)])) (\<lambda>body.
     go_bind (http_send env Enroll
        \<lparr>rq_method = ''POST'',
         rq_url = ''https://'' @ projectRef @ ''.supabase.co/functions/v1/enroll-agent'',
         rq_headers = [(''Content-Type'', ''application/json'')], rq_body = Some body\<rparr>) (\<lambda>res. case res of
        BuildFailed e \<Rightarrow> go_fail (Wrap ''build request'' (Lib e))
      | DoFailed e \<Rightarrow> go_fail (Wrap ''POST enroll-agent'' (Lib e))
      | ReadFailed _ _ e \<Rightarrow> go_fail (Wrap ''read response'' (Lib e))
      | Response status raw \<Rightarrow> enroll_answer status raw))"

section \<open>Properties\<close>

lemma EnsurePrivateKey_Ok:
  assumes "EnsurePrivateKey env y lib gen cfg path s = (Ok (k, generated, cfg'), t)"
  shows "sc_PrivateKey (f_Supabase cfg') = k \<and>
    (if sc_PrivateKey (f_Supabase cfg) \<noteq> '''' then \<not> generated \<and> cfg' = cfg \<and> t = s
     else generated \<and> cfg' = set_private_key k cfg \<and>
       (\<exists>data. saved y cfg' = Some data \<and> fs t = (fs s)(path \<mapsto> data)))"
  using assms
  by (auto simp: EnsurePrivateKey_def Let_def set_private_key_def dest!: Save_Ok
      split: if_splits sum.splits elim!: go_bind_OkE go_wrap_OkE)

text \<open>
  Claim C28: the key the agent works with is the key in its file: a key that is there is kept and
  nothing is written; a new one has been saved, in a file that differs in nothing else, before it is
  returned.
\<close>

theorem EnsurePrivateKey_saved:
  assumes "EnsurePrivateKey env y lib gen cfg path s = (Ok (k, generated, cfg'), t)"
  shows "sc_PrivateKey (f_Supabase cfg') = k \<and>
    (if sc_PrivateKey (f_Supabase cfg) \<noteq> '''' then \<not> generated \<and> cfg' = cfg \<and> t = s
     else generated \<and> cfg' = set_private_key k cfg \<and>
       (\<exists>data. saved y cfg' = Some data \<and> fs t = (fs s)(path \<mapsto> data)))"
  using assms by (rule EnsurePrivateKey_Ok)

text \<open>
  Claim C18: a password that iOS seals for the key the agent uploads is the password the agent uses:
  through the bytea of the upload, the base64 of the key file and of the command, and HPKE.
\<close>

theorem password_end_to_end:
  assumes lib: "hpke_correct lib"
    and pub: "PublicKeyFromPrivate lib priv = Inr pub"
    and seal: "EncryptForTest lib rnd (the (bytea_decode (bytesToBytea pub))) pw = Inr payload"
    and key: "b64_decode (b64_encode priv) = Inr keybytes" "PrivateKey d = Some keybytes"
    and enc: "PasswordEnc p = b64_encode payload"
  shows "resolveLXCPassword lib d p = Inr pw"
proof -
  have k: "PrivateKey d = Some priv" using key by (simp add: b64_decode_encode)
  have "the (bytea_decode (bytesToBytea pub)) = pub"
    by (simp add: bytea_decode_def bytesToBytea_def hex_bytes_of_bytea)
  with Decrypt_EncryptForTest [OF lib pub] seal have dec: "Decrypt lib priv payload = Inr pw" by simp
  have "PasswordEnc p \<noteq> ''''"
  proof
    assume "PasswordEnc p = ''''"
    then have "b64_decode '''' = Inr payload" using enc b64_decode_encode [of payload] by simp
    moreover have "b64_decode '''' = Inr ''''" by code_simp
    ultimately have "payload = ''''" by simp
    with dec Decrypt_short [of payload lib priv] show False by simp
  qed
  with k dec enc show ?thesis by (simp add: resolveLXCPassword_def b64_decode_encode)
qed

end
