(* ===== verification/RemoteConfig.thy ===== *)
theory RemoteConfig
  imports Files GoTime
begin

text \<open>
  \<open>internal/remoteconfig/fetcher.go\<close>: the configuration the agent fetches at its start, with the
  fallbacks to the cached copy and to the values built in.
\<close>

section \<open>The configuration\<close>

text \<open>\<open>IssuedAt\<close> is an instant and the zone it was given in.\<close>

record rconfig =
  SchemaVersion :: int
  SupabaseBaseURL :: string
  SupabasePublishableKey :: string
  SupabaseRealtimeURL :: string
  MinAgentVersion :: string
  IssuedAt :: "int \<times> int"

definition BakedInDefault :: rconfig where
  "BakedInDefault = \<lparr>SchemaVersion = 1,
     SupabaseBaseURL = ''https://fjesjyoxpkalaudfyebx.supabase.co'',
     SupabasePublishableKey = ''sb_publishable_zRZhor-u2pIdiSXAGDLlMA_Dl8tbDS5'',
     SupabaseRealtimeURL = '''', MinAgentVersion = '''', IssuedAt = (0, 0)\<rparr>"

definition rconfig_fields :: "(string \<times> rconfig setter) list" where
  "rconfig_fields =
    [(''schema_version'', set_int (\<lambda>x r. r\<lparr>SchemaVersion := x\<rparr>)),
     (''supabase_base_url'', set_string (\<lambda>x r. r\<lparr>SupabaseBaseURL := x\<rparr>)),
     (''supabase_publishable_key'', set_string (\<lambda>x r. r\<lparr>SupabasePublishableKey := x\<rparr>)),
     (''supabase_realtime_url'', set_string (\<lambda>x r. r\<lparr>SupabaseRealtimeURL := x\<rparr>)),
     (''min_agent_version'', set_string (\<lambda>x r. r\<lparr>MinAgentVersion := x\<rparr>)),
     (''issued_at'', set_time_off (\<lambda>x r. r\<lparr>IssuedAt := x\<rparr>))]"

definition empty_rconfig :: rconfig where
  "empty_rconfig = \<lparr>SchemaVersion = 0, SupabaseBaseURL = '''', SupabasePublishableKey = '''',
     SupabaseRealtimeURL = '''', MinAgentVersion = '''', IssuedAt = (0, 0)\<rparr>"

definition parse_rconfig :: "string \<Rightarrow> error + rconfig" where
  "parse_rconfig = json_unmarshal (\<lambda>v. decode_struct rconfig_fields v empty_rconfig)"

datatype source = SourceLive | SourceCache | SourceBakedIn

definition Source_String :: "source \<Rightarrow> string" where
  "Source_String s = (case s of SourceLive \<Rightarrow> ''live'' | SourceCache \<Rightarrow> ''cache'' | SourceBakedIn \<Rightarrow> ''baked-in'')"

record fetcher =
  Endpoint :: string
  CachePath :: string

definition DefaultEndpoint :: string where
  "DefaultEndpoint = ''https://proxmoxvue.app/config/v1.json''"

definition NewFetcher :: "string \<Rightarrow> fetcher" where
  "NewFetcher cachePath = \<lparr>Endpoint = DefaultEndpoint, CachePath = cachePath\<rparr>"

section \<open>Fetching\<close>

definition fetch_request :: "fetcher \<Rightarrow> http_request" where
  "fetch_request f = \<lparr>rq_method = ''GET'', rq_url = Endpoint f, rq_headers = [], rq_body = None\<rparr>"

definition limit_bytes :: nat where "limit_bytes = 64 * 1024"

text \<open>
  \<open>io.ReadAll\<close> of an \<open>io.LimitReader\<close>: the body is cut, and an error that lies beyond the limit
  is not seen.
\<close>

definition read_limited :: "http_outcome \<Rightarrow> error + string" where
  "read_limited res = (case res of
     Response _ raw \<Rightarrow> Inr (take limit_bytes raw)
   | ReadFailed _ raw e \<Rightarrow> if limit_bytes \<le> length raw then Inr (take limit_bytes raw) else Inl (Lib e)
   | BuildFailed e \<Rightarrow> Inl (Lib e)
   | DoFailed e \<Rightarrow> Inl (Lib e))"

definition accept_live :: "string \<Rightarrow> error + rconfig" where
  "accept_live body = (case parse_rconfig body of
     Inl e \<Rightarrow> Inl e
   | Inr cfg \<Rightarrow>
     if SchemaVersion cfg \<noteq> 1 then Inl (Err (''unsupported schema_version '' @ int_dec (SchemaVersion cfg)))
     else if SupabaseBaseURL cfg = '''' \<or> SupabasePublishableKey cfg = '''' then
       Inl (Err ''required fields missing'')
     else Inr cfg)"

definition fetchLive :: "'w env \<Rightarrow> fetcher \<Rightarrow> ('w agent, rconfig) go" where
  "fetchLive env f = go_bind (http_send env Fetch (fetch_request f)) (\<lambda>res.
     let status = (case res of Response st _ \<Rightarrow> st | ReadFailed st _ _ \<Rightarrow> st | _ \<Rightarrow> 200) in
     case res of
       BuildFailed e \<Rightarrow> go_fail (Lib e)
     | DoFailed e \<Rightarrow> go_fail (Lib e)
     | _ \<Rightarrow>
       if status \<noteq> 200 then go_fail (Err (''status '' @ int_dec status))
       else (case read_limited res of
          Inl e \<Rightarrow> go_fail e
        | Inr body \<Rightarrow> (case accept_live body of Inl e \<Rightarrow> go_fail e | Inr cfg \<Rightarrow> go_return cfg)))"

definition accept_cache :: "string \<Rightarrow> error + rconfig" where
  "accept_cache data = (case parse_rconfig data of
     Inl e \<Rightarrow> Inl e
   | Inr cfg \<Rightarrow>
     if SchemaVersion cfg \<noteq> 1 then Inl (Err ''cached schema_version mismatch'') else Inr cfg)"

definition readCache :: "'w env \<Rightarrow> fetcher \<Rightarrow> ('w agent, rconfig) go" where
  "readCache env f = go_bind (ReadFile env (CachePath f)) (\<lambda>data.
     case accept_cache data of Inl e \<Rightarrow> go_fail e | Inr cfg \<Rightarrow> go_return cfg)"

text \<open>\<open>json.MarshalIndent\<close> of the struct: its fields in order, \<open>omitempty\<close> where it says so.\<close>

definition cache_text :: "rconfig \<Rightarrow> string option" where
  "cache_text cfg = map_option (\<lambda>t.
     (let fields =
        [(''schema_version'', int_dec (SchemaVersion cfg)),
         (''supabase_base_url'', print_string (SupabaseBaseURL cfg)),
         (''supabase_publishable_key'', print_string (SupabasePublishableKey cfg))]
        @ (if SupabaseRealtimeURL cfg = '''' then []
           else [(''supabase_realtime_url'', print_string (SupabaseRealtimeURL cfg))])
        @ (if MinAgentVersion cfg = '''' then []
           else [(''min_agent_version'', print_string (MinAgentVersion cfg))])
        @ [(''issued_at'', CHR 0x22 # t @ [CHR 0x22])];
        nl = [CHR 0x0A]
      in ''{'' @ nl @ join ('','' @ nl) (map (\<lambda>(k, v). ''  '' @ print_string k @ '': '' @ v) fields) @ nl @ ''}''))
     (marshal_time (IssuedAt cfg))"

definition cache_tmp :: "fetcher \<Rightarrow> string" where
  "cache_tmp f = CachePath f @ ''.tmp''"

definition writeCache :: "'w env \<Rightarrow> fetcher \<Rightarrow> rconfig \<Rightarrow> ('w agent, unit) go" where
  "writeCache env f cfg = go_bind (MkdirAll env (path_dir (CachePath f))) (\<lambda>_.
     case cache_text cfg of
       None \<Rightarrow> go_fail (Lib JsonType)
     | Some data \<Rightarrow>
       go_bind (WriteFile env (cache_tmp f) data) (\<lambda>_. Rename env (cache_tmp f) (CachePath f)))"

definition rc_Load :: "'w env \<Rightarrow> fetcher \<Rightarrow> ('w agent, rconfig \<times> source) go" where
  "rc_Load env f = go_try (fetchLive env f) (\<lambda>live. case live of
     Inr cfg \<Rightarrow> go_try (writeCache env f cfg) (\<lambda>_. go_return (cfg, SourceLive))
   | Inl _ \<Rightarrow> go_try (readCache env f) (\<lambda>cached. case cached of
       Inr cfg \<Rightarrow> go_return (cfg, SourceCache)
     | Inl _ \<Rightarrow> go_return (BakedInDefault, SourceBakedIn)))"

text \<open>One tick of \<open>RefreshLoop\<close>, and the loop over the ticks that come before \<open>ctx\<close> is done.\<close>

definition refresh_tick :: "'w env \<Rightarrow> fetcher \<Rightarrow> ('w agent, unit) go" where
  "refresh_tick env f = go_try (fetchLive env f) (\<lambda>live. case live of
     Inr cfg \<Rightarrow> go_try (writeCache env f cfg) (\<lambda>_. go_return ())
   | Inl _ \<Rightarrow> go_return ())"

fun RefreshLoop :: "'w env \<Rightarrow> fetcher \<Rightarrow> nat \<Rightarrow> ('w agent, unit) go" where
  "RefreshLoop env f 0 = go_return ()"
| "RefreshLoop env f (Suc ticks) = go_bind (refresh_tick env f) (\<lambda>_. RefreshLoop env f ticks)"

section \<open>Properties\<close>

lemma fetchLive_Ok:
  "fetchLive env f s = (Ok cfg, t) \<Longrightarrow>
     SchemaVersion cfg = 1 \<and> SupabaseBaseURL cfg \<noteq> '''' \<and> SupabasePublishableKey cfg \<noteq> '''' \<and> fs t = fs s"
  unfolding fetchLive_def
  by (auto simp: Let_def accept_live_def http_send_def
      split: http_outcome.splits if_splits sum.splits prod.splits elim!: go_bind_OkE)

lemma fetchLive_returns [go_total]: "returns (fetchLive env f)"
  unfolding fetchLive_def
  by (auto simp: Let_def split: http_outcome.splits sum.splits intro!: go_total)

lemma readCache_returns [go_total]: "returns (readCache env f)"
  unfolding readCache_def by (auto split: sum.splits intro!: go_total)

lemma writeCache_returns [go_total]: "returns (writeCache env f cfg)"
  unfolding writeCache_def by (auto split: option.splits intro!: go_total)

lemma rc_Load_returns [go_total]: "returns (rc_Load env f)"
  unfolding rc_Load_def by (auto split: sum.splits intro!: go_total)

lemma rc_Load_cases:
  assumes "rc_Load env f s = (r, t)"
  obtains cfg src where "r = Ok (cfg, src)"
proof -
  have "returned r" using rc_Load_returns assms by (rule returnsD)
  moreover have "r \<noteq> Fail e" for e
    using assms unfolding rc_Load_def
    by (auto simp: go_try_def go_return_def split: outcome.splits prod.splits sum.splits)
  ultimately show thesis using that by (cases r) auto
qed

text \<open>
  Claim C32: loading never fails: it returns the live configuration when that can be fetched and is
  acceptable, else the cached one when that can be read, else the built-in one. A configuration from
  the endpoint has the known schema, a base URL and a key.
\<close>

theorem rc_Load_priority:
  "case rc_Load env f s of (r, t) \<Rightarrow> \<exists>cfg src. r = Ok (cfg, src) \<and>
     (case fetchLive env f s of
        (Ok live, _) \<Rightarrow> cfg = live \<and> src = SourceLive \<and> SchemaVersion cfg = 1 \<and>
           SupabaseBaseURL cfg \<noteq> '''' \<and> SupabasePublishableKey cfg \<noteq> ''''
      | (_, u) \<Rightarrow> (case fst (readCache env f u) of
           Ok cached \<Rightarrow> cfg = cached \<and> src = SourceCache
         | _ \<Rightarrow> cfg = BakedInDefault \<and> src = SourceBakedIn))"
proof -
  obtain r t where r: "rc_Load env f s = (r, t)" by force
  then obtain cfg src where cfg: "r = Ok (cfg, src)" by (rule rc_Load_cases)
  obtain l u where l: "fetchLive env f s = (l, u)" by force
  have "returned l" using fetchLive_returns l by (rule returnsD)
  then consider live where "l = Ok live" | e where "l = Fail e" by (cases l) auto
  then show ?thesis
  proof cases
    case 1
    with l fetchLive_Ok [of env f s live u] r cfg show ?thesis
      by (auto simp: rc_Load_def go_simps go_try_def split: outcome.splits prod.splits)
  next
    case 2
    obtain c v where c: "readCache env f u = (c, v)" by force
    have "returned c" using readCache_returns c by (rule returnsD)
    with 2 l c r cfg show ?thesis
      by (cases c) (auto simp: rc_Load_def go_simps)
  qed
qed

text \<open>What the cache file holds after a change: the old content, or the whole text of a configuration.\<close>

definition cache_whole :: "fetcher \<Rightarrow> 'w agent \<Rightarrow> 'w agent \<Rightarrow> bool" where
  "cache_whole f s t \<longleftrightarrow> fs t (CachePath f) = fs s (CachePath f) \<or>
     (\<exists>cfg data. cache_text cfg = Some data \<and> fs t (CachePath f) = Some data)"

interpretation cache_whole: effect "cache_whole f" for f :: fetcher
  by unfold_locales (auto simp: cache_whole_def)

lemma cache_tmp_neq: "cache_tmp f \<noteq> CachePath f"
  by (simp add: cache_tmp_def)

lemma fetchLive_whole: "changes (cache_whole f) (fetchLive env f)"
proof -
  have "changes (cache_whole f) (http_send env Fetch rq)" for rq
    by (auto simp: changes_def cache_whole_def http_send_def split: prod.splits)
  then show ?thesis unfolding fetchLive_def
    by (auto simp: Let_def split: http_outcome.splits sum.splits intro!: cache_whole.combinators)
qed

lemma writeCache_whole: "changes (cache_whole f) (writeCache env f cfg)"
proof (rule changesI)
  fix s :: "'a agent"
  obtain r u where m: "MkdirAll env (path_dir (CachePath f)) s = (r, u)" by force
  then have u: "fs u = fs s" by (auto simp: MkdirAll_def split: prod.splits option.splits)
  show "cache_whole f s (snd (writeCache env f cfg s))"
  proof (cases r)
    case (Ok x)
    show ?thesis
    proof (cases "cache_text cfg")
      case None
      with Ok m u show ?thesis by (simp add: writeCache_def go_simps cache_whole_def)
    next
      case (Some data)
      obtain w v where w: "WriteFile env (cache_tmp f) data u = (w, v)" by force
      have v: "fs v (CachePath f) = fs s (CachePath f)" "w = Ok () \<Longrightarrow> fs v (cache_tmp f) = Some data"
        "returned w"
        using w u cache_tmp_neq [of f] by (auto simp: WriteFile_def split: prod.splits option.splits)
      with Ok m Some w show ?thesis
        by (cases w) (auto simp: writeCache_def go_simps cache_whole_def Rename_def
            split: prod.splits option.splits)
    qed
  qed (use m u in \<open>auto simp: writeCache_def go_simps cache_whole_def\<close>)
qed

lemma readCache_whole: "changes (cache_whole f) (readCache env f)"
proof -
  have "changes (cache_whole f) (ReadFile env p)" for p
    by (auto simp: changes_def cache_whole_def ReadFile_def split: prod.splits option.splits)
  then show ?thesis unfolding readCache_def
    by (auto split: sum.splits intro!: cache_whole.combinators)
qed

lemma refresh_tick_whole: "changes (cache_whole f) (refresh_tick env f)"
  unfolding refresh_tick_def
  by (auto split: sum.splits intro!: cache_whole.combinators fetchLive_whole writeCache_whole)

text \<open>
  Claim C33: the cache file is never damaged: after a write, successful or not, after a load and after
  any number of ticks it holds what it held before or the complete text of one configuration; only the
  temporary file can be left incomplete.
\<close>

theorem cache_never_damaged:
  "cache_whole f s (snd (rc_Load env f s)) \<and> cache_whole f s (snd (RefreshLoop env f ticks s))"
proof
  have "changes (cache_whole f) (rc_Load env f)"
    unfolding rc_Load_def
    by (auto split: sum.splits
        intro!: cache_whole.combinators fetchLive_whole writeCache_whole readCache_whole)
  then show "cache_whole f s (snd (rc_Load env f s))" by (simp add: changes_def)
  have "changes (cache_whole f) (RefreshLoop env f ticks)"
    by (induction ticks) (auto intro!: cache_whole.combinators refresh_tick_whole)
  then show "cache_whole f s (snd (RefreshLoop env f ticks s))" by (simp add: changes_def)
qed

end
