(* ===== verification/ReadDispatcher.thy ===== *)
theory ReadDispatcher
  imports SupabaseRest
begin

text \<open>
  \<open>internal/commands/read_dispatcher.go\<close>: one read command from claim to completion, the
  whitelist of the paths that may be read, and the query that is built from the parameters. The
  interfaces are records of operations, as in \<open>Dispatcher\<close>.
\<close>

section \<open>Interfaces\<close>

text \<open>\<open>GetRaw\<close> runs under a context that ends after the given time.\<close>

record 's ProxmoxReader =
  pr_GetRaw :: "int \<Rightarrow> string \<Rightarrow> ('s, string) go"

record 's ReadCommandStore =
  rs_ClaimReadCommand :: "int \<Rightarrow> ('s, bool) go"
  rs_CompleteReadCommand :: "int \<Rightarrow> string \<Rightarrow> string option \<Rightarrow> string \<Rightarrow> ('s, unit) go"

section \<open>The whitelist\<close>

definition readEndpointWhitelist :: "string list" where
  "readEndpointWhitelist =
    [''^/api2/json/cluster/resources$'',
     ''^/api2/json/cluster/status$'',
     ''^/api2/json/cluster/tasks$'',
     ''^/api2/json/nodes/[^/]+/status$'',
     ''^/api2/json/nodes/[^/]+/network$'',
     ''^/api2/json/nodes/[^/]+/firewall/rules$'',
     ''^/api2/json/nodes/[^/]+/tasks$'',
     ''^/api2/json/nodes/[^/]+/tasks/[^/]+/status$'',
     ''^/api2/json/nodes/[^/]+/tasks/[^/]+/log$'',
     ''^/api2/json/nodes/[^/]+/(qemu|lxc)/'' @ backslash # ''d+/config$'',
     ''^/api2/json/nodes/[^/]+/(qemu|lxc)/'' @ backslash # ''d+/snapshot$'',
     ''^/api2/json/nodes/[^/]+/(qemu|lxc)/'' @ backslash # ''d+/feature$'',
     ''^/api2/json/nodes/[^/]+/qemu/'' @ backslash # ''d+/agent/get-fsinfo$'',
     ''^/api2/json/nodes/[^/]+/storage/[^/]+/content$'']"

definition endpointAllowed :: "string \<Rightarrow> bool" where
  "endpointAllowed path \<longleftrightarrow> list_ex (\<lambda>re. match_string re path) readEndpointWhitelist"

section \<open>The query\<close>

text \<open>
  \<open>map[string]any\<close>: the members of the object, a later one of the same name replacing an
  earlier one. \<open>order\<close> is the order in which this \<open>range\<close> visits the map; it matters only
  for which of several unusable parameters the error names.
\<close>

definition any_map :: "json \<Rightarrow> (string \<times> json) list option" where
  "any_map v = (case v of JNull \<Rightarrow> Some []
     | JObj ms \<Rightarrow> if any_ok v then Some (fold (\<lambda>(k, _, x). AList.update k x) ms []) else None
     | _ \<Rightarrow> None)"

definition param_value :: "json \<Rightarrow> string option" where
  "param_value v = (case v of
     JStr s \<Rightarrow> Some s
   | JNum n \<Rightarrow> map_option (\<lambda>x. trim_right (trim_right (fmt_f x) ''0'') ''.'') (lit_float n)
   | JBool b \<Rightarrow> Some (if b then ''1'' else ''0'')
   | _ \<Rightarrow> None)"

fun set_params ::
  "(nat \<Rightarrow> bool) \<Rightarrow> (string \<times> json) list \<Rightarrow> url_values \<Rightarrow> error + url_values" where
  "set_params isprint [] q = Inr q"
| "set_params isprint ((k, v) # r) q = (case param_value v of
     None \<Rightarrow> Inl (Err (''unsupported param type for '' @ quote isprint k))
   | Some x \<Rightarrow> set_params isprint r (values_set k x q))"

definition buildPath ::
  "(nat \<Rightarrow> bool) \<Rightarrow> ((string \<times> json) list \<Rightarrow> (string \<times> json) list) \<Rightarrow> string \<Rightarrow> string \<Rightarrow> error + string"
where
  "buildPath isprint order endpoint params =
     (if params = '''' \<or> params = ''{}'' \<or> params = ''null'' then Inr endpoint
      else case json_unmarshal any_map params of
        Inl e \<Rightarrow> Inl (Wrap ''params not an object'' e)
      | Inr raw \<Rightarrow>
          if raw = [] then Inr endpoint
          else (case set_params isprint (order raw) [] of
             Inl e \<Rightarrow> Inl e
           | Inr q \<Rightarrow> Inr (endpoint @ ''?'' @ values_encode q)))"

section \<open>Handle\<close>

definition read_timeout :: int where "read_timeout = dur_s 10"

text \<open>\<open>etext\<close> is the method \<open>Error\<close> of the errors.\<close>

definition Handle_read_claimed ::
  "(nat \<Rightarrow> bool) \<Rightarrow> ((string \<times> json) list \<Rightarrow> (string \<times> json) list) \<Rightarrow> (error \<Rightarrow> string) \<Rightarrow>
   's ProxmoxReader \<Rightarrow> 's ReadCommandStore \<Rightarrow> int \<Rightarrow> ReadCommand \<Rightarrow> ('s, unit) go" where
  "Handle_read_claimed isprint order etext pve store timeout cmd =
     (if \<not> endpointAllowed (rc_Endpoint cmd) then
        rs_CompleteReadCommand store (rc_ID cmd) ''failed'' None (''endpoint not allowed: '' @ rc_Endpoint cmd)
      else case buildPath isprint order (rc_Endpoint cmd) (rc_Params cmd) of
        Inl e \<Rightarrow> rs_CompleteReadCommand store (rc_ID cmd) ''failed'' None (''bad params: '' @ etext e)
      | Inr path \<Rightarrow>
          go_try (pr_GetRaw pve timeout path) (\<lambda>r. case r of
            Inl e \<Rightarrow> rs_CompleteReadCommand store (rc_ID cmd) ''failed'' None (etext e)
          | Inr body \<Rightarrow> rs_CompleteReadCommand store (rc_ID cmd) ''done'' (Some body) ''''))"

definition Handle_read ::
  "('s \<Rightarrow> int \<times> 's) \<Rightarrow> (nat \<Rightarrow> bool) \<Rightarrow> ((string \<times> json) list \<Rightarrow> (string \<times> json) list) \<Rightarrow>
   (error \<Rightarrow> string) \<Rightarrow> 's ProxmoxReader \<Rightarrow> 's ReadCommandStore \<Rightarrow> int \<Rightarrow> ReadCommand \<Rightarrow> ('s, unit) go"
where
  "Handle_read nowf isprint order etext pve store timeout cmd =
     go_bind (is_expired nowf (rc_ExpiresAt cmd)) (\<lambda>expired.
       if expired then
         go_try (rs_ClaimReadCommand store (rc_ID cmd)) (\<lambda>r. case r of
           Inr ok \<Rightarrow> if ok then rs_CompleteReadCommand store (rc_ID cmd) ''expired'' None ''ttl''
                     else go_return ()
         | Inl _ \<Rightarrow> go_return ())
       else
         go_bind (go_wrap (''claim read_command '' @ int_dec (rc_ID cmd))
                    (rs_ClaimReadCommand store (rc_ID cmd))) (\<lambda>ok.
           if \<not> ok then go_return ()
           else Handle_read_claimed isprint order etext pve store timeout cmd))"

section \<open>What the whitelist allows\<close>

text \<open>A path template is a list of segments; a path of the template is one text per segment.\<close>

datatype seg = SLit string | SAny | SNum | SGuest

fun seg_ok :: "seg \<Rightarrow> string \<Rightarrow> bool" where
  "seg_ok (SLit w) p = (p = w)"
| "seg_ok SAny p = (p \<noteq> [] \<and> CHR ''/'' \<notin> set p)"
| "seg_ok SNum p = (p \<noteq> [] \<and> list_all is_digit p)"
| "seg_ok SGuest p = (p = ''qemu'' \<or> p = ''lxc'')"

definition path_of :: "string list \<Rightarrow> string" where
  "path_of ps = concat (map (\<lambda>p. CHR ''/'' # p) ps)"

definition templates :: "seg list list" where
  "templates = map ((@) [SLit ''api2'', SLit ''json''])
    ([[SLit ''cluster'', SLit ''resources''], [SLit ''cluster'', SLit ''status''],
      [SLit ''cluster'', SLit ''tasks'']]
     @ map ((@) [SLit ''nodes'', SAny])
        [[SLit ''status''], [SLit ''network''], [SLit ''firewall'', SLit ''rules''], [SLit ''tasks''],
         [SLit ''tasks'', SAny, SLit ''status''], [SLit ''tasks'', SAny, SLit ''log''],
         [SGuest, SNum, SLit ''config''], [SGuest, SNum, SLit ''snapshot''],
         [SGuest, SNum, SLit ''feature''],
         [SLit ''qemu'', SNum, SLit ''agent'', SLit ''get-fsinfo''],
         [SLit ''storage'', SAny, SLit ''content'']])"

text \<open>The expression of a template, in the shape \<open>compile\<close> builds.\<close>

fun seg_then :: "seg \<Rightarrow> rexp \<Rightarrow> rexp" where
  "seg_then (SLit w) r = foldr (\<lambda>c r. Seq (lit c) r) w r"
| "seg_then SAny r = Seq (plus (Cls True [(CHR ''/'', CHR ''/'')])) r"
| "seg_then SNum r = Seq (plus (Cls False [(CHR ''0'', CHR ''9'')])) r"
| "seg_then SGuest r = Seq (Alt (word ''qemu'') (word ''lxc'')) r"

definition template_re :: "seg list \<Rightarrow> rexp" where
  "template_re ts = foldr (\<lambda>t r. Seq (lit CHR ''/'') (seg_then t r)) ts One"

lemma compile_whitelist:
  "map compile readEndpointWhitelist = map (Some \<circ> template_re) templates"
  by (simp add: readEndpointWhitelist_def templates_def template_re_def compile_def p_class_def
      p_suffix_def Let_def backslash_def word_def is_digit_def)


lemma lang_lits: "s \<in> lang (foldr (\<lambda>c r. Seq (lit c) r) w r) \<longleftrightarrow> (\<exists>t. s = w @ t \<and> t \<in> lang r)"
  by (induction w arbitrary: s) auto

lemma lang_word: "s \<in> lang (word w) \<longleftrightarrow> s = w"
  by (simp add: word_def lang_lits)

lemma in_class_any: "in_class True [(CHR ''/'', CHR ''/'')] c \<longleftrightarrow> c \<noteq> CHR ''/''"
  by (auto simp: in_class_def)

lemma in_class_digit: "in_class False [(CHR ''0'', CHR ''9'')] = is_digit"
  by (simp add: fun_eq_iff in_class_def is_digit_def less_eq_char_def)

lemma lang_seg_then:
  "s \<in> lang (seg_then t r) \<longleftrightarrow> (\<exists>p u. s = p @ u \<and> seg_ok t p \<and> u \<in> lang r)"
proof (cases t)
  case (SLit w)
  then show ?thesis by (simp add: lang_lits)
next
  case SAny
  then show ?thesis
    by (simp add: lang_plus_class in_class_any list_all_iff del: lang.simps(6)) blast
next
  case SNum
  then show ?thesis by (simp add: lang_plus_class in_class_digit del: lang.simps(6))
next
  case SGuest
  then show ?thesis by (auto simp: lang_word)
qed

lemma lang_template:
  "s \<in> lang (template_re ts) \<longleftrightarrow> (\<exists>ps. s = path_of ps \<and> list_all2 seg_ok ts ps)"
proof (induction ts arbitrary: s)
  case Nil
  then show ?case by (simp add: template_re_def path_of_def)
next
  case (Cons t ts)
  have "s \<in> lang (template_re (t # ts)) \<longleftrightarrow>
    (\<exists>p u. s = CHR ''/'' # p @ u \<and> seg_ok t p \<and> u \<in> lang (template_re ts))"
    by (auto simp: template_re_def lang_seg_then)
  then show ?case
    by (auto simp: Cons.IH list_all2_Cons1 path_of_def) (metis concat.simps(2) list.map(2) append_Cons)+
qed

lemma endpointAllowed_templates:
  "endpointAllowed path \<longleftrightarrow> (\<exists>ts \<in> set templates. \<exists>ps. path = path_of ps \<and> list_all2 seg_ok ts ps)"
proof -
  have "list_ex (\<lambda>re. match_string re path) pats \<longleftrightarrow>
      (\<exists>ts \<in> set tss. path \<in> lang (template_re ts))"
    if "map compile pats = map (Some \<circ> template_re) tss" for pats tss
    using that
    by (induction pats arbitrary: tss) (auto simp: map_eq_Cons_conv Cons_eq_map_conv match_string_lang)
  from this [OF compile_whitelist] show ?thesis
    by (simp add: endpointAllowed_def lang_template)
qed


text \<open>
  Claim C16: a path passes the whitelist exactly when it is, segment for segment, one of the fourteen
  templates. So nothing outside of \<open>/cluster\<close> and \<open>/nodes\<close> can be read, and no path with a
  trailing segment.
\<close>

theorem endpointAllowed_iff:
  "endpointAllowed path \<longleftrightarrow> (\<exists>ts \<in> set templates. \<exists>ps. path = path_of ps \<and> list_all2 seg_ok ts ps)"
  by (rule endpointAllowed_templates)

text \<open>
  The first three segments of a path that passes are \<open>api2\<close>, \<open>json\<close> and one of
  \<open>cluster\<close> and \<open>nodes\<close>; in particular no user, token or permission is ever read.
\<close>

theorem endpointAllowed_area:
  assumes "endpointAllowed path"
  shows "\<exists>area rest. area \<in> {''cluster'', ''nodes''} \<and> path = path_of ([''api2'', ''json'', area] @ rest)"
proof -
  from assms obtain ts ps where ts: "ts \<in> set templates" and ps: "path = path_of ps" "list_all2 seg_ok ts ps"
    unfolding endpointAllowed_templates by blast
  from ts have "\<exists>area us. area \<in> {''cluster'', ''nodes''} \<and> ts = [SLit ''api2'', SLit ''json'', SLit area] @ us"
    by (auto simp: templates_def)
  then obtain area us where area: "area \<in> {''cluster'', ''nodes''}"
    and us: "ts = [SLit ''api2'', SLit ''json'', SLit area] @ us" by blast
  from ps(2) us obtain rest where "ps = [''api2'', ''json'', area] @ rest"
    by (auto simp: list_all2_Cons1)
  with area ps(1) show ?thesis by blast
qed

text \<open>
  A segment that is matched by \<open>[^/]+\<close> can hold a question mark; a path that ends with the node cannot
  pass, because a template of a node has at least five segments, and so as many slashes.
\<close>

lemma slashes_path: "length ps \<le> length (filter (\<lambda>c. c = CHR ''/'') (path_of ps))"
  by (induction ps) (auto simp: path_of_def)

lemma node_status_allowed:
  assumes "n \<noteq> []" "CHR ''/'' \<notin> set n"
  shows "endpointAllowed (''/api2/json/nodes/'' @ n @ ''/status'')"
proof -
  have "endpointAllowed (path_of [''api2'', ''json'', ''nodes'', n, ''status''])"
    unfolding endpointAllowed_templates
    by (rule bexI [of _ "[SLit ''api2'', SLit ''json'', SLit ''nodes'', SAny, SLit ''status'']"])
      (use assms in \<open>auto simp: templates_def intro!: exI [of _ "[''api2'', ''json'', ''nodes'', n, ''status'']"]\<close>)
  then show ?thesis by (simp add: path_of_def)
qed

lemma node_not_allowed:
  assumes "CHR ''/'' \<notin> set n"
  shows "\<not> endpointAllowed (''/api2/json/nodes/'' @ n)"
proof
  assume "endpointAllowed (''/api2/json/nodes/'' @ n)"
  then obtain ts ps where ts: "ts \<in> set templates" "''/api2/json/nodes/'' @ n = path_of ps" "list_all2 seg_ok ts ps"
    unfolding endpointAllowed_templates by blast
  have "filter (\<lambda>c. c = CHR ''/'') n = []" using assms by (auto simp: filter_empty_conv)
  then have "length ps \<le> 4" using slashes_path [of ps] ts(2) [symmetric] by simp
  with ts(3) have "length ts \<le> 4" by (simp add: list_all2_lengthD)
  with ts(1) obtain w where "ts = [SLit ''api2'', SLit ''json'', SLit ''cluster'', SLit w]"
    by (auto simp: templates_def)
  with ts(3) have "ps = [''api2'', ''json'', ''cluster'', w]" by (auto simp: list_all2_Cons1)
  with ts(2) show False by (simp add: path_of_def)
qed

section \<open>The query\<close>

lemma trim_zeros: "trim_right (trim_right (nat_dec n @ ''.000000'') ''0'') ''.'' = nat_dec n"
proof -
  have "trim_right (nat_dec n @ ''.000000'') ''0'' = nat_dec n @ ''.''"
    by (simp add: trim_right_def)
  moreover have "trim_right (nat_dec n @ ''.'') ''.'' = nat_dec n"
  proof -
    have "last (nat_dec n) \<noteq> CHR ''.''"
      using nat_dec_digits [of n] last_in_set [OF nat_dec_nonempty, of n] by (auto simp: is_digit_def)
    then have "trim_right (nat_dec n) ''.'' = nat_dec n"
      by (intro trim_right_noop) simp
    then show ?thesis by (simp add: trim_right_def)
  qed
  ultimately show ?thesis by simp
qed

text \<open>
  A whole number that a float represents exactly, below \<open>2 ^ 53\<close>, is sent with exactly
  its digits, though it goes through a float and is printed with six decimals.
\<close>

theorem param_value_integer:
  assumes "n < 2 ^ 53"
  shows "param_value (JNum (nat_dec n)) = Some (nat_dec n)"
proof -
  from lit_float_int [OF assms] obtain r k where
    "lit_float (nat_dec n) = Some (False, r, k)" "float64 n 1 = (r, k)" .
  with fmt_f_int [OF assms, of r k False] show ?thesis
    by (simp add: param_value_def trim_zeros)
qed

lemma values_encode_safe: "c \<in> set (values_encode q) \<Longrightarrow> c \<notin> set ''/?# ''"
proof -
  have j: "c \<in> set (join sep xs) \<Longrightarrow> c \<in> set sep \<or> (\<exists>x \<in> set xs. c \<in> set x)" for sep xs
    by (cases xs) (auto simp: join_def split: if_splits)
  assume "c \<in> set (values_encode q)"
  then consider "c \<in> set ''&''"
    | k v where "c \<in> set (query_escape k @ CHR ''='' # query_escape v)"
    unfolding values_encode_def by (auto dest!: j)
  then show ?thesis
    using query_escape_safe by cases (auto dest: query_escape_safe)
qed

text \<open>
  Claim C26: the path that is requested is the endpoint itself, or the endpoint and a query in which
  no character of a parameter's name or value can end the query or start another path.
\<close>

theorem buildPath_extends:
  assumes "buildPath isprint order endpoint params = Inr path"
  shows "path = endpoint \<or>
    (\<exists>q. path = endpoint @ ''?'' @ values_encode q \<and> (\<forall>c \<in> set (values_encode q). c \<notin> set ''/?# ''))"
  using assms values_encode_safe
  by (auto simp: buildPath_def split: if_splits sum.splits)

end
