(* ===== verification/Clients.thy ===== *)
theory Clients
  imports SupabaseRest ReadDispatcher
begin

text \<open>
  The dispatchers on the agent's own clients, \<open>commands.New(pve, sb)\<close> and
  \<open>commands.NewReadDispatcher(pve, sb)\<close> in \<open>runtime.Start\<close>: the contracts of \<open>Dispatcher\<close> are
  discharged for the Proxmox and the Supabase client.
\<close>

section \<open>The clients as interfaces\<close>

definition pve_actor :: "'w env \<Rightarrow> pve_client \<Rightarrow> 'w agent ProxmoxActor" where
  "pve_actor env c =
     \<lparr>pa_PerformAction = PerformAction env c, pa_CreateSnapshot = CreateSnapshot env c,
      pa_DeleteSnapshot = DeleteSnapshot env c, pa_RollbackSnapshot = RollbackSnapshot env c,
      pa_CreateVM = CreateVM env c, pa_CreateLXC = CreateLXC env c, pa_DeleteGuest = DeleteGuest env c,
      pa_AwaitTaskCompletion = AwaitTaskCompletion env c\<rparr>"

lemma run_act_pve:
  "run_act (pve_actor env c) (Power k n v x) = PerformAction env c k n v x"
  "run_act (pve_actor env c) (SnapCreate k n v nm ds vs) = CreateSnapshot env c k n v nm ds vs"
  "run_act (pve_actor env c) (SnapDelete k n v nm) = DeleteSnapshot env c k n v nm"
  "run_act (pve_actor env c) (SnapRollback k n v nm) = RollbackSnapshot env c k n v nm"
  "run_act (pve_actor env c) (GuestDelete k n v dd pb) = DeleteGuest env c k n v dd pb"
  "run_act (pve_actor env c) (VmCreate vms) = CreateVM env c vms"
  "run_act (pve_actor env c) (LxcCreate lxs) = CreateLXC env c lxs"
  by (simp_all add: pve_actor_def)

text \<open>A preorder that both clients respect is respected by a whole run of \<open>Handle\<close>.\<close>

locale agent_effect = pve: pve_effect R env + sb: sb_session R env c
  for R :: "'w agent \<Rightarrow> 'w agent \<Rightarrow> bool" and env c

sublocale agent_effect \<subseteq> commands: dispatch_effect R "now_val env" "pve_actor env pc" "sb_store env c" for pc
proof unfold_locales
  fix a
  show "changes R (run_act (pve_actor env pc) a)"
    by (cases a) (simp_all only: run_act_pve pve.actions_R)
qed (simp_all add: sb_store_def pve_actor_def pve.now_val_R sb.ops_R pve.AwaitTaskCompletion_R)

section \<open>At most one change in Proxmox\<close>

text \<open>Requests that change something in Proxmox, for a client whose \<open>persist\<close> only writes files.\<close>

definition writes :: "'w sb_client \<Rightarrow> 'w agent \<Rightarrow> nat" where
  "writes c s = (if file_persist c then count_events pve_write s else 0)"

lemma writes_raises: "(file_persist c \<Longrightarrow> raises (count_events pve_write) k m) \<Longrightarrow> raises (writes c) k m"
  by (simp add: raises_def writes_def)

definition some_request :: "'w agent \<Rightarrow> 'w agent \<Rightarrow> bool" where
  "some_request s t \<longleftrightarrow> (\<exists>rq. one_request rq s t)"

lemma some_requestI: "changes (one_request rq) m \<Longrightarrow> changes some_request m"
  by (auto simp: changes_def some_request_def)

lemma Let_changes: "(\<And>x. changes R (f x)) \<Longrightarrow> changes R (Let a f)"
  by (simp add: Let_def)

lemmas some_request_rules = some_requestI [OF wrap_one_request [OF postJSON_one]]
  some_requestI [OF wrap_one_request [OF deleteJSON_one]]
  some_requestI [OF wrap_one_request [OF postForm_one]]

lemma actions_one:
  "changes some_request (PerformAction env c k n v x)"
  "changes some_request (CreateSnapshot env c k n v nm ds vs)"
  "changes some_request (DeleteSnapshot env c k n v nm)"
  "changes some_request (RollbackSnapshot env c k n v nm)"
  "changes some_request (DeleteGuest env c k n v dd pb)"
  "changes some_request (CreateVM env c vms)"
  "changes some_request (CreateLXC env c lxs)"
  unfolding PerformAction_def CreateSnapshot_def DeleteSnapshot_def RollbackSnapshot_def
    CreateVM_def CreateLXC_def DeleteGuest_def
  by (rule some_request_rules | intro Let_changes some_request_rules)+

lemma run_act_raises: "raises (count_events P) 1 (run_act (pve_actor env c) a)"
proof -
  have "changes some_request (run_act (pve_actor env c) a)"
    by (cases a) (simp_all only: run_act_pve actions_one)
  then show ?thesis
    unfolding changes_def raises_def some_request_def by (metis one_request_count Suc_eq_plus1)
qed

lemma await_raises: "raises (count_events pve_write) 0 (AwaitTaskCompletion env c n u t)"
  by (rule no_attempt_raises, rule changes_adds_mono [OF AwaitTaskCompletion_gets])
    (rule pve_get_not_write)

lemma sb_raises: "changes (adds sb_or_file) m \<Longrightarrow> raises (count_events pve_write) 0 m"
  by (rule no_attempt_raises, erule changes_adds_mono)
    (auto simp: sb_or_file_def file_event_def pve_write_def split: event.splits)

interpretation meter: dispatch_meter "writes c" "now_val env" "pve_actor env pc" "sb_store env c"
  for env :: "'w env" and pc c
proof unfold_locales
  fix s :: "'w agent"
  show "writes c (snd (now_val env s)) = writes c s"
    by (auto simp: writes_def count_events_def now_val_def split: prod.splits)
qed (simp_all only: sb_store_def CommandStore.select_convs writes_raises run_act_raises
    writes_raises [OF sb_raises [OF sb_ops_adds(3)]] writes_raises [OF sb_raises [OF sb_ops_adds(4)]],
    simp add: pve_actor_def writes_raises await_raises)

text \<open>The log is never cut: every event of it stays.\<close>

definition grows :: "'w sb_client \<Rightarrow> 'w agent \<Rightarrow> 'w agent \<Rightarrow> bool" where
  "grows c s t \<longleftrightarrow> (file_persist c \<longrightarrow> adds (\<lambda>_. True) s t)"

lemma growsI: "(file_persist c \<Longrightarrow> changes (adds P) m) \<Longrightarrow> changes (grows c) m"
  using changes_adds_mono [of P m \<open>\<lambda>_. True\<close>] by (simp add: grows_def changes_def)

lemma grows_count: "adds (\<lambda>_. True) s t \<Longrightarrow> count_events P s \<le> count_events P t"
  by (auto simp: adds_def count_events_def)

interpretation grows: agent_effect "grows c" env c
  for env :: "'w env" and c
proof unfold_locales
  fix s t u :: "'w agent" and rq d
  show "grows c s s" by (simp add: grows_def adds.R_refl)
  show "grows c s t \<Longrightarrow> grows c t u \<Longrightarrow> grows c s u"
    by (auto simp: grows_def intro: adds.R_trans)
  show "changes (grows c) (http_send env Pve rq)" "changes (grows c) (http_send env Pve rq)"
    "changes (grows c) (http_send env Sb rq)"
    by (auto simp: changes_def grows_def adds_def http_send_def list.pred_True split: prod.splits)
  show "grows c s (snd (now_val env s))" "grows c s (snd (sleep_val env d s))"
    by (auto simp: grows_def adds_def now_val_def sleep_val_def split: prod.splits)
  show "changes (grows c) (refresh env c)" by (rule growsI) (rule sb_ops_adds)
qed

text \<open>
  Claim C13: one command makes the agent send at most one request that is not a GET to Proxmox,
  however the two services behave.
\<close>

theorem Handle_one_write:
  assumes "file_persist c"
  shows "count_events pve_write (snd (Handle (now_val env) (pve_actor env pc) (sb_store env c) lib d cmd s))
    \<le> count_events pve_write s + 1"
  using meter.Handle_at_most_one [where c = c and env = env and pc = pc and lib = lib and d = d and cmd = cmd] assms
  by (simp add: raises_def writes_def)

text \<open>
  Claim C14: a command whose claim did not succeed (another agent was faster, the row is gone, the
  service failed) makes the agent send no request that is not a GET to Proxmox.
\<close>

theorem Handle_no_write_unclaimed:
  assumes "file_persist c"
    and "fst (ClaimCommand env c (ID cmd) (snd (is_expired (now_val env) (ExpiresAt cmd) s))) \<noteq> Ok True"
  shows "count_events pve_write (snd (Handle (now_val env) (pve_actor env pc) (sb_store env c) lib d cmd s))
    = count_events pve_write s"
proof (rule order_antisym)
  show "count_events pve_write (snd (Handle (now_val env) (pve_actor env pc) (sb_store env c) lib d cmd s))
    \<le> count_events pve_write s"
    using meter.Handle_unclaimed [where c = c and env = env and pc = pc and lib = lib and d = d and cmd = cmd]
      assms by (simp add: sb_store_def writes_def)
  show "count_events pve_write s
    \<le> count_events pve_write (snd (Handle (now_val env) (pve_actor env pc) (sb_store env c) lib d cmd s))"
    using grows.commands.Handle_changes [where c = c and env = env and pc = pc and lib = lib and d = d and cmd = cmd]
      assms(1) by (simp add: changes_def grows_def grows_count)
qed

end
