(* ===== verification/ReadClients.thy ===== *)
theory ReadClients
  imports ReadDispatcher Clients
begin

text \<open>
  The read dispatcher as a decision and a protocol, the contract of its interfaces, and the contract
  on the agent's own clients, \<open>commands.NewReadDispatcher(pve, sb)\<close>.
\<close>

section \<open>The decision\<close>

definition read_verdict ::
  "(nat \<Rightarrow> bool) \<Rightarrow> ((string \<times> json) list \<Rightarrow> (string \<times> json) list) \<Rightarrow> (error \<Rightarrow> string) \<Rightarrow> ReadCommand \<Rightarrow>
   string + string" where
  "read_verdict isprint order etext cmd =
     (if \<not> endpointAllowed (rc_Endpoint cmd) then Inl (''endpoint not allowed: '' @ rc_Endpoint cmd)
      else map_sum (\<lambda>e. ''bad params: '' @ etext e) id
             (buildPath isprint order (rc_Endpoint cmd) (rc_Params cmd)))"

definition fetch_and_complete ::
  "(error \<Rightarrow> string) \<Rightarrow> 's ProxmoxReader \<Rightarrow> 's ReadCommandStore \<Rightarrow> int \<Rightarrow> int \<Rightarrow> string \<Rightarrow> ('s, unit) go"
where
  "fetch_and_complete etext pve store timeout i path =
     go_try (pr_GetRaw pve timeout path) (\<lambda>r. case r of
        Inl e \<Rightarrow> rs_CompleteReadCommand store i ''failed'' None (etext e)
      | Inr body \<Rightarrow> rs_CompleteReadCommand store i ''done'' (Some body) '''')"

lemma Handle_read_claimed_eq:
  "Handle_read_claimed isprint order etext pve store timeout cmd =
     (case read_verdict isprint order etext cmd of
        Inl msg \<Rightarrow> rs_CompleteReadCommand store (rc_ID cmd) ''failed'' None msg
      | Inr path \<Rightarrow> fetch_and_complete etext pve store timeout (rc_ID cmd) path)"
  by (simp add: Handle_read_claimed_def read_verdict_def fetch_and_complete_def split: sum.splits)

text \<open>The paths that can be asked for.\<close>

definition readable :: "string \<Rightarrow> bool" where
  "readable path \<longleftrightarrow> (\<exists>endpoint q. endpointAllowed endpoint \<and>
     (path = endpoint \<or> path = endpoint @ ''?'' @ values_encode q))"

lemma read_verdict_readable: "read_verdict isprint order etext cmd = Inr path \<Longrightarrow> readable path"
  by (auto simp: read_verdict_def readable_def buildPath_def map_sum_def split: if_splits sum.splits)

section \<open>The contract\<close>

locale read_effect = effect R for R :: "'s \<Rightarrow> 's \<Rightarrow> bool" +
  fixes nowf :: "'s \<Rightarrow> int \<times> 's"
    and pve :: "'s ProxmoxReader"
    and store :: "'s ReadCommandStore"
  assumes now_R: "R s (snd (nowf s))"
    and claim_R: "changes R (rs_ClaimReadCommand store i)"
    and complete_R: "changes R (rs_CompleteReadCommand store i st raw msg)"
    and get_R: "readable path \<Longrightarrow> changes R (pr_GetRaw pve timeout path)"
begin

lemma fetch_R: "readable path \<Longrightarrow> changes R (fetch_and_complete etext pve store timeout i path)"
  unfolding fetch_and_complete_def by (auto split: sum.splits intro!: attempt get_R complete_R)

lemma expired_R: "changes R (is_expired nowf x)"
  using now_R R_refl by (auto simp: changes_def is_expired_def split: prod.splits) (metis snd_conv)

lemma claimed_R: "changes R (Handle_read_claimed isprint order etext pve store timeout cmd)"
  unfolding Handle_read_claimed_eq
  by (auto split: sum.splits intro: complete_R fetch_R read_verdict_readable)

lemma Handle_read_changes: "changes R (Handle_read nowf isprint order etext pve store timeout cmd)"
  unfolding Handle_read_def
  by (auto split: sum.splits intro!: bind wrap attempt return expired_R claim_R complete_R claimed_R)

end

section \<open>On the agent's clients\<close>

text \<open>The time limit of the context is one of the ways in which the environment fails a request.\<close>

definition pve_reader :: "'w env \<Rightarrow> pve_client \<Rightarrow> 'w agent ProxmoxReader" where
  "pve_reader env c = \<lparr>pr_GetRaw = (\<lambda>timeout. GetRaw env c)\<rparr>"

definition sb_read_store :: "'w env \<Rightarrow> 'w sb_client \<Rightarrow> 'w agent ReadCommandStore" where
  "sb_read_store env c = \<lparr>rs_ClaimReadCommand = ClaimReadCommand env c,
     rs_CompleteReadCommand = CompleteReadCommand env c\<rparr>"

sublocale agent_effect \<subseteq> read_commands: read_effect R "now_val env" "pve_reader env pc" "sb_read_store env c"
  for pc
  by unfold_locales
    (simp_all add: pve_reader_def sb_read_store_def pve.now_val_R sb.ops_R pve.GetRaw_R)

text \<open>What a read command may do: Supabase, the config file, and GET requests for readable paths.\<close>

definition read_event :: "pve_client \<Rightarrow> event \<Rightarrow> bool" where
  "read_event pc e \<longleftrightarrow> sb_or_file e \<or>
     (\<exists>path. readable path \<and> e = Pve (pve_request pc ''GET'' path None))"

definition reads_only :: "pve_client \<Rightarrow> 'w sb_client \<Rightarrow> 'w agent \<Rightarrow> 'w agent \<Rightarrow> bool" where
  "reads_only pc c s t \<longleftrightarrow> (file_persist c \<longrightarrow> adds (read_event pc) s t)"

lemma reads_onlyI: "(file_persist c \<Longrightarrow> changes (adds (read_event pc)) m) \<Longrightarrow> changes (reads_only pc c) m"
  by (simp add: changes_def reads_only_def)

lemma sb_reads_only: "changes (adds sb_or_file) m \<Longrightarrow> changes (adds (read_event pc)) m"
  by (erule changes_adds_mono) (simp add: read_event_def)

interpretation reads: read_effect "reads_only pc c" "now_val env" "pve_reader env pc" "sb_read_store env c"
  for env :: "'w env" and pc c
proof unfold_locales
  fix s t u :: "'w agent" and path timeout
  show "reads_only pc c s s" by (simp add: reads_only_def adds.R_refl)
  show "reads_only pc c s t \<Longrightarrow> reads_only pc c t u \<Longrightarrow> reads_only pc c s u"
    by (auto simp: reads_only_def intro: adds.R_trans)
  show "reads_only pc c s (snd (now_val env s))"
    by (auto simp: reads_only_def adds_def now_val_def split: prod.splits)
  assume "readable path"
  then have "changes (adds (read_event pc)) (GetRaw env pc path)"
    by (intro GetRaw_adds) (auto simp: read_event_def)
  then show "changes (reads_only pc c) (pr_GetRaw (pve_reader env pc) timeout path)"
    by (simp add: pve_reader_def reads_onlyI)
qed (simp_all add: sb_read_store_def reads_onlyI [OF sb_reads_only [OF sb_ops_adds(6)]]
    reads_onlyI [OF sb_reads_only [OF sb_ops_adds(7)]])

text \<open>
  Claim C15: whatever row the backend hands out as a read command, the agent sends nothing to Proxmox
  but GET requests for paths that pass the whitelist, with an encoded query.
\<close>

theorem Handle_read_only:
  assumes "file_persist c"
  shows "adds (read_event pc) s
    (snd (Handle_read (now_val env) isprint order etext (pve_reader env pc) (sb_read_store env c) timeout cmd s))"
  using reads.Handle_read_changes [where pc = pc and c = c and env = env and isprint = isprint
      and order = order and etext = etext and timeout = timeout and cmd = cmd] assms
  by (simp add: changes_def reads_only_def)

text \<open>The path of the URL of a request, as \<open>url.Parse\<close> finds it: up to the fragment and the query.\<close>

definition url_path :: "string \<Rightarrow> string" where
  "url_path url = fst (cut_at CHR ''?'' (fst (cut_at CHR ''#'' url)))"

text \<open>
  Claim C25: the whitelist compares the text of an endpoint, not the path of the URL that is made of it: for
  any \<open>a\<close> and \<open>b\<close> without a slash, the endpoint \<open>/api2/json/nodes/a?b/status\<close> passes, and the agent then
  sends a GET request for the path \<open>/api2/json/nodes/a\<close>, which does not pass, with \<open>b/status\<close> as a query
  that was never encoded.
\<close>

theorem endpoint_question_mark:
  assumes "CHR ''/'' \<notin> set a" "CHR ''/'' \<notin> set b"
    and "CHR ''?'' \<notin> set (APIURL (pve_cfg pc) @ a)" "CHR ''#'' \<notin> set (APIURL (pve_cfg pc) @ a)"
    and cmd: "rc_Endpoint cmd = ''/api2/json/nodes/'' @ a @ ''?'' @ b @ ''/status''" "rc_Params cmd = ''''"
  shows "\<exists>rq. rq_method rq = ''GET'' \<and> rq_url rq = APIURL (pve_cfg pc) @ rc_Endpoint cmd \<and>
    url_path (rq_url rq) = APIURL (pve_cfg pc) @ ''/api2/json/nodes/'' @ a \<and>
    \<not> endpointAllowed (''/api2/json/nodes/'' @ a) \<and>
    Handle_read_claimed isprint order etext (pve_reader env pc) store timeout cmd =
      go_try (pve_do env rq) (\<lambda>r. case r of
          Inl e \<Rightarrow> rs_CompleteReadCommand store (rc_ID cmd) ''failed'' None (etext e)
        | Inr body \<Rightarrow> rs_CompleteReadCommand store (rc_ID cmd) ''done'' (Some body) '''')"
proof -
  let ?rq = "pve_request pc ''GET'' (rc_Endpoint cmd) None"
  have "endpointAllowed (''/api2/json/nodes/'' @ (a @ ''?'' @ b) @ ''/status'')"
    by (rule node_status_allowed) (use assms(1,2) in auto)
  then have "endpointAllowed (rc_Endpoint cmd)" using cmd(1) by simp
  then have "Handle_read_claimed isprint order etext (pve_reader env pc) store timeout cmd =
      go_try (pve_do env ?rq) (\<lambda>r. case r of
          Inl e \<Rightarrow> rs_CompleteReadCommand store (rc_ID cmd) ''failed'' None (etext e)
        | Inr body \<Rightarrow> rs_CompleteReadCommand store (rc_ID cmd) ''done'' (Some body) '''')"
    by (simp add: Handle_read_claimed_def buildPath_def cmd(2) pve_reader_def GetRaw_def)
  moreover have "url_path (u @ ''/api2/json/nodes/'' @ a @ ''?'' @ w) = u @ ''/api2/json/nodes/'' @ a"
    if "CHR ''?'' \<notin> set (u @ a)" "CHR ''#'' \<notin> set (u @ a)" for u w
    using that by (auto simp: url_path_def cut_at_def takeWhile_append)
  ultimately show ?thesis
    using assms(3,4) node_not_allowed [OF assms(1)] cmd(1)
    by (intro exI [of _ ?rq]) (simp add: pve_request_def)
qed

text \<open>
  An answer of Proxmox that is not JSON cannot be stored: completing the command as done
  fails before anything is sent, so the row stays claimed and is never completed.
\<close>

theorem CompleteReadCommand_bad_body:
  assumes "json_parse body = None"
  shows "fst (CompleteReadCommand env c i ''done'' (Some body) '''' s)
      = Fail (Wrap ''marshal complete'' (Lib JsonSyntax)) \<and>
    log (snd (CompleteReadCommand env c i ''done'' (Some body) '''' s)) = log s"
  by (auto simp: CompleteReadCommand_def go_bind_def now_def marshal_def assms go_fail_def
      split: prod.splits dest: now_val_log)

end
