(* ===== verification/Realtime.thy ===== *)
theory Realtime
  imports Supabase SupabaseRest
begin

text \<open>
  \<open>internal/supabase/realtime.go\<close>: a Realtime subscription. \<open>subscribe_join\<close> is
  \<open>subscribeOnce\<close> up to the accepted join; from there two goroutines share the connection, the
  heartbeat and the reader, and \<open>session_step\<close> is the relation of their steps. The waiting
  times between the attempts of \<open>runSubscription\<close> are the last part.
\<close>

section \<open>Constants\<close>

definition heartbeatInterval :: int where "heartbeatInterval = dur_s 25"
definition heartbeatTopic :: string where "heartbeatTopic = ''phoenix''"
definition dialTimeout :: int where "dialTimeout = dur_s 10"
definition readDeadline :: int where "readDeadline = dur_s 60"
definition ackLagThreshold :: int where "ackLagThreshold = 2"

section \<open>Dial and join\<close>

definition ws_url :: "'w sb_client \<Rightarrow> string" where
  "ws_url c = realtimeURL c @ ''?apikey='' @ publishableKey c @ ''&vsn=1.0.0''"

definition Dial :: "'w env \<Rightarrow> string \<Rightarrow> ('w agent, nat) go" where
  "Dial env url s = (case env_dial env url (ext s) of
      (Inl e, w) \<Rightarrow> (Fail (Lib e), s\<lparr>ext := w, log := log s @ [WsDial url]\<rparr>)
    | (Inr conn, w) \<Rightarrow> (Ok conn, s\<lparr>ext := w, log := log s @ [WsDial url], sb_refs := (sb_refs s)(conn := 0)\<rparr>))"

definition ws_read :: "'w env \<Rightarrow> nat \<Rightarrow> ('w agent, string) go" where
  "ws_read env conn s = (case env_ws_read env conn (ext s) of
      (Inl e, w) \<Rightarrow> (Fail (Lib e), s\<lparr>ext := w\<rparr>)
    | (Inr raw, w) \<Rightarrow> (Ok raw, s\<lparr>ext := w\<rparr>))"

definition ws_close :: "nat \<Rightarrow> ('w agent, unit) go" where
  "ws_close conn = go_modify (\<lambda>s. s\<lparr>log := log s @ [WsClose conn]\<rparr>)"

text \<open>\<open>ctx.Err()\<close>\<close>

definition ctx_err :: "'w env \<Rightarrow> 'w agent \<Rightarrow> lib_error option \<times> 'w agent" where
  "ctx_err env s = (case env_ctx env (ext s) of (r, w) \<Rightarrow> (r, s\<lparr>ext := w\<rparr>))"

definition go_ref :: "nat \<Rightarrow> ('w agent, string) go" where
  "go_ref conn s = (case nextRef conn s of (r, s') \<Rightarrow> (Ok r, s'))"

definition sub_topic :: "string \<Rightarrow> string \<Rightarrow> string" where
  "sub_topic table clusterID = ''realtime:'' @ table @ '':'' @ clusterID"

definition join_frame :: "string \<Rightarrow> string \<Rightarrow> string \<Rightarrow> string \<Rightarrow> jval" where
  "join_frame table clusterID token joinRef =
     VMap [(''topic'', VStr (sub_topic table clusterID)), (''event'', VStr ''phx_join''),
       (''payload'', VMap
          [(''config'', VMap
              [(''postgres_changes'', VArr [VMap
                  [(''event'', VStr ''INSERT''), (''schema'', VStr ''public''), (''table'', VStr table),
                   (''filter'', VStr (''cluster_id=eq.'' @ clusterID))]]),
               (''presence'', VMap [(''enabled'', VBool True), (''key'', VStr clusterID)]),
               (''private'', VBool True)]),
           (''access_token'', VStr token)]),
       (''ref'', VStr joinRef), (''join_ref'', VStr joinRef)]"

record join_reply =
  jr_Event :: string
  jr_Status :: string
  jr_Response :: string

definition reply_fields :: "(string \<times> join_reply setter) list" where
  "reply_fields =
    [(''event'', set_string (\<lambda>x r. r\<lparr>jr_Event := x\<rparr>)),
     (''payload'', set_struct
        [(''status'', set_string (\<lambda>x p. (x, snd p))),
         (''response'', set_raw (\<lambda>x p. (fst p, x)))]
        (\<lambda>r. (jr_Status r, jr_Response r)) (\<lambda>p r. r\<lparr>jr_Status := fst p, jr_Response := snd p\<rparr>))]"

definition parse_reply :: "string \<Rightarrow> error + join_reply" where
  "parse_reply = json_unmarshal (\<lambda>v. decode_struct reply_fields v
     \<lparr>jr_Event = '''', jr_Status = '''', jr_Response = ''''\<rparr>)"

definition check_reply :: "(nat \<Rightarrow> bool) \<Rightarrow> string \<Rightarrow> ('s, unit) go" where
  "check_reply isprint raw = (case parse_reply raw of
     Inl e \<Rightarrow> go_fail (Wrap ''parse phx_reply'' e)
   | Inr reply \<Rightarrow>
     if jr_Event reply \<noteq> ''phx_reply'' then
       go_fail (Err (''expected phx_reply, got '' @ quote isprint (jr_Event reply)))
     else if jr_Status reply \<noteq> ''ok'' then go_fail (Err (''join rejected: '' @ jr_Response reply))
     else go_return ())"

text \<open>Every failure after the dial closes the connection (the deferred \<open>conn.Close\<close>).\<close>

definition closing_on_error :: "nat \<Rightarrow> ('w agent, 'a) go \<Rightarrow> ('w agent, 'a) go" where
  "closing_on_error conn m = go_try m (\<lambda>r. case r of
     Inr a \<Rightarrow> go_return a | Inl e \<Rightarrow> go_bind (ws_close conn) (\<lambda>_. go_fail e))"

definition subscribe_join ::
  "(nat \<Rightarrow> bool) \<Rightarrow> 'w env \<Rightarrow> 'w sb_client \<Rightarrow> string \<Rightarrow> string \<Rightarrow> ('w agent, nat \<times> string) go" where
  "subscribe_join isprint env c clusterID table =
     go_bind (go_wrap ''get access token'' (access env c)) (\<lambda>token.
     go_bind (go_wrap ''ws dial'' (Dial env (ws_url c))) (\<lambda>conn.
     closing_on_error conn (
       go_bind (go_ref conn) (\<lambda>joinRef.
       go_bind (go_wrap ''send join'' (writeJSON env conn (join_frame table clusterID token joinRef))) (\<lambda>_.
       go_bind (go_wrap ''wait for phx_reply'' (ws_read env conn)) (\<lambda>raw.
       go_bind (check_reply isprint raw) (\<lambda>_. go_return (conn, joinRef))))))))"

text \<open>
  What follows the join: registration, the refresh loop (the result says whether this call started
  it), and the presence frame, whose failure is ignored.
\<close>

definition track_frame :: "string \<Rightarrow> string \<Rightarrow> string \<Rightarrow> string \<Rightarrow> string \<Rightarrow> jval" where
  "track_frame topic clusterID online_at r joinRef =
     VMap [(''topic'', VStr topic), (''event'', VStr ''presence''),
       (''payload'', VMap [(''type'', VStr ''presence''), (''event'', VStr ''track''),
          (''payload'', VMap [(''cluster_id'', VStr clusterID), (''online_at'', VStr online_at)])]),
       (''ref'', VStr r), (''join_ref'', VStr joinRef)]"

definition after_join ::
  "'w env \<Rightarrow> string \<Rightarrow> string \<Rightarrow> nat \<Rightarrow> string \<Rightarrow> ('w agent, bool) go" where
  "after_join env clusterID table conn joinRef =
     (let topic = sub_topic table clusterID in
      go_bind (go_modify (registerSubscription topic conn)) (\<lambda>_.
      go_bind (\<lambda>s. case startRefreshLoop s of (b, s') \<Rightarrow> (Ok b, s')) (\<lambda>started.
      go_bind (now env) (\<lambda>t.
      go_bind (go_ref conn) (\<lambda>r.
      go_try (writeJSON env conn (track_frame topic clusterID (format_secs t) r joinRef))
        (\<lambda>_. go_return started))))))"

text \<open>The deferred calls of a joined subscription, in their order.\<close>

definition after_close :: "string \<Rightarrow> string \<Rightarrow> nat \<Rightarrow> ('w agent, unit) go" where
  "after_close clusterID table conn =
     go_bind (go_modify (unregisterSubscription (sub_topic table clusterID))) (\<lambda>_. ws_close conn)"

section \<open>Frames\<close>

record ws_frame =
  fr_Topic :: string
  fr_Event :: string
  fr_Payload :: string

definition parse_frame :: "string \<Rightarrow> error + ws_frame" where
  "parse_frame = json_unmarshal (\<lambda>v. decode_struct
     [(''topic'', set_string (\<lambda>x r. r\<lparr>fr_Topic := x\<rparr>)),
      (''event'', set_string (\<lambda>x r. r\<lparr>fr_Event := x\<rparr>)),
      (''payload'', set_raw (\<lambda>x r. r\<lparr>fr_Payload := x\<rparr>))] v
     \<lparr>fr_Topic = '''', fr_Event = '''', fr_Payload = ''''\<rparr>)"

text \<open>The type and the record of the payload; an absent record is the empty text.\<close>

definition parse_change :: "string \<Rightarrow> error + (string \<times> string)" where
  "parse_change = json_unmarshal (\<lambda>v. decode_struct
     [(''data'', set_struct
         [(''type'', set_string (\<lambda>x p. (x, snd p))), (''record'', set_raw (\<lambda>x p. (fst p, x)))] id (\<lambda>p _. p))] v
     ('''', ''''))"

datatype frame_action = AckFrame | DeliverFrame string | IgnoreFrame

definition classify_frame :: "string \<Rightarrow> frame_action" where
  "classify_frame raw = (case parse_frame raw of
     Inl _ \<Rightarrow> IgnoreFrame
   | Inr frame \<Rightarrow>
     if fr_Event frame = ''phx_reply'' \<and> fr_Topic frame = heartbeatTopic then AckFrame
     else if fr_Event frame \<noteq> ''postgres_changes'' then IgnoreFrame
     else (case parse_change (fr_Payload frame) of
        Inl _ \<Rightarrow> IgnoreFrame
      | Inr (ty, rec) \<Rightarrow> if ty \<noteq> ''INSERT'' then IgnoreFrame else DeliverFrame rec))"


section \<open>The joined connection\<close>

text \<open>
  The shared variables of the two goroutines of one connection, and where each of them is: between any
  two of their accesses to a shared variable or to the connection the other one, and the rest of the
  process, can run. \<open>delivered\<close> is what was sent on the channel \<open>out\<close>.
\<close>

text \<open>The heartbeat goroutine, with its locals \<open>sent\<close> and \<open>acked\<close>.\<close>

datatype hb_phase =
    HbSelecting
  | HbWriting string
  | HbWritten
  | HbCounted int
  | HbLoaded int int
  | HbClosing
  | HbReturned

text \<open>
  The reader: at \<open>conn.Read\<close>, with a frame, with the error of a read, about to set the reason of a
  timeout, and returned with an error and the reason that it logs.
\<close>

datatype rd_phase =
    RdReading
  | RdHolding string
  | RdFailed error
  | RdTimedOut
  | RdReturned error "string option"

record conn_state =
  hbSent :: int
  hbAcked :: int
  hb_at :: hb_phase
  rd_at :: rd_phase
  closeReason :: "string option"
  ws_closed :: bool
  delivered :: "string list"

definition joined :: conn_state where
  "joined = \<lparr>hbSent = 0, hbAcked = 0, hb_at = HbSelecting, rd_at = RdReading, closeReason = None,
     ws_closed = False, delivered = []\<rparr>"

text \<open>\<open>CompareAndSwap(nil, &r)\<close>\<close>

definition setReason :: "string \<Rightarrow> conn_state \<Rightarrow> conn_state" where
  "setReason r c = (if closeReason c = None then c\<lparr>closeReason := Some r\<rparr> else c)"

definition heartbeat_frame :: "string \<Rightarrow> jval" where
  "heartbeat_frame r = VMap [(''topic'', VStr heartbeatTopic), (''event'', VStr ''heartbeat''),
     (''payload'', VMap []), (''ref'', VStr r)]"

definition on_frame :: "string \<Rightarrow> conn_state \<Rightarrow> conn_state" where
  "on_frame raw c = (case classify_frame raw of
     AckFrame \<Rightarrow> c\<lparr>hbAcked := hbAcked c + 1\<rparr>
   | DeliverFrame r \<Rightarrow> c\<lparr>delivered := delivered c @ [r]\<rparr>
   | IgnoreFrame \<Rightarrow> c)"

text \<open>
  What the reader does with the error of a read: the heartbeat's reason if it set one, then the
  deadline of the read, then an EOF in the text of the error.
\<close>

fun contains :: "string \<Rightarrow> string \<Rightarrow> bool" where
  "contains [] p = (p = [])"
| "contains (c # s) p = (has_prefix (c # s) p \<or> contains s p)"

definition close_reason :: "(error \<Rightarrow> string) \<Rightarrow> error \<Rightarrow> string option \<Rightarrow> rd_phase" where
  "close_reason etext e reason = (case reason of
     Some r \<Rightarrow> RdReturned ErrPostJoinClosed (Some r)
   | None \<Rightarrow> if errors_is e (Lib CtxDeadline) then RdTimedOut
             else if contains (etext e) ''EOF'' then RdReturned ErrPostJoinClosed (Some ''eof'')
             else RdReturned ErrPostJoinClosed (Some ''peer-close''))"

datatype step_label =
    TakeRef | Beat | BeatFailed | CountBeat | LoadAcks | LagFine | LagFound | CloseNow | HbDone
  | FrameIn string | FrameDone string | ReadError error | LoadReason | SetTimeout | Cancelled
  | Elsewhere

text \<open>
  The steps of the heartbeat goroutine, of the reader, and of everything else in the process, which may
  change the state of the agent but not the variables of the connection. Nothing is said here of what
  the library lets a read return after \<open>CloseNow\<close>.
\<close>

inductive session_step ::
  "'w env \<Rightarrow> nat \<Rightarrow> 'w agent \<times> conn_state \<Rightarrow> step_label \<Rightarrow> 'w agent \<times> conn_state \<Rightarrow> bool"
  for env conn where
  take_ref: "hb_at c = HbSelecting \<Longrightarrow> nextRef conn s = (r, s1) \<Longrightarrow>
     session_step env conn (s, c) TakeRef (s1, c\<lparr>hb_at := HbWriting r\<rparr>)"
| beat: "hb_at c = HbWriting r \<Longrightarrow> writeJSON env conn (heartbeat_frame r) s = (Ok (), s1) \<Longrightarrow>
     session_step env conn (s, c) Beat (s1, c\<lparr>hb_at := HbWritten\<rparr>)"
| beat_failed: "hb_at c = HbWriting r \<Longrightarrow> writeJSON env conn (heartbeat_frame r) s = (Fail e, s1) \<Longrightarrow>
     session_step env conn (s, c) BeatFailed (s1, c\<lparr>hb_at := HbReturned\<rparr>)"
| count_beat: "hb_at c = HbWritten \<Longrightarrow>
     session_step env conn (s, c) CountBeat (s, c\<lparr>hbSent := hbSent c + 1, hb_at := HbCounted (hbSent c + 1)\<rparr>)"
| load_acks: "hb_at c = HbCounted sent \<Longrightarrow>
     session_step env conn (s, c) LoadAcks (s, c\<lparr>hb_at := HbLoaded sent (hbAcked c)\<rparr>)"
| lag_fine: "hb_at c = HbLoaded sent acked \<Longrightarrow> \<not> ackLagThreshold \<le> sent - acked \<Longrightarrow>
     session_step env conn (s, c) LagFine (s, c\<lparr>hb_at := HbSelecting\<rparr>)"
| lag_found: "hb_at c = HbLoaded sent acked \<Longrightarrow> ackLagThreshold \<le> sent - acked \<Longrightarrow>
     session_step env conn (s, c) LagFound (s, (setReason ''ack-lag'' c)\<lparr>hb_at := HbClosing\<rparr>)"
| close_now: "hb_at c = HbClosing \<Longrightarrow>
     session_step env conn (s, c) CloseNow
       (s\<lparr>log := log s @ [WsClose conn]\<rparr>, c\<lparr>hb_at := HbReturned, ws_closed := True\<rparr>)"
| hb_done: "hb_at c = HbSelecting \<Longrightarrow>
     session_step env conn (s, c) HbDone (s, c\<lparr>hb_at := HbReturned\<rparr>)"
| frame: "rd_at c = RdReading \<Longrightarrow> ws_read env conn s = (Ok raw, s1) \<Longrightarrow>
     session_step env conn (s, c) (FrameIn raw) (s1, c\<lparr>rd_at := RdHolding raw\<rparr>)"
| frame_done: "rd_at c = RdHolding raw \<Longrightarrow>
     session_step env conn (s, c) (FrameDone raw) (s, (on_frame raw c)\<lparr>rd_at := RdReading\<rparr>)"
| cancelled: "rd_at c = RdHolding raw \<Longrightarrow> classify_frame raw = DeliverFrame r \<Longrightarrow>
     ctx_err env s = (Some e, s1) \<Longrightarrow>
     session_step env conn (s, c) Cancelled (s1, c\<lparr>rd_at := RdReturned (Lib e) None\<rparr>)"
| read_error: "rd_at c = RdReading \<Longrightarrow> ws_read env conn s = (Fail e, s1) \<Longrightarrow>
     session_step env conn (s, c) (ReadError e) (s1, c\<lparr>rd_at := RdFailed e\<rparr>)"
| load_reason: "rd_at c = RdFailed e \<Longrightarrow>
     session_step env conn (s, c) LoadReason
       (s, c\<lparr>rd_at := close_reason (error_text (env_text env)) e (closeReason c)\<rparr>)"
| set_timeout: "rd_at c = RdTimedOut \<Longrightarrow>
     session_step env conn (s, c) SetTimeout
       (s, (setReason ''read-timeout'' c)\<lparr>rd_at := RdReturned ErrPostJoinClosed (Some ''read-timeout'')\<rparr>)"
| elsewhere: "session_step env conn (s, c) Elsewhere (s1, c)"

inductive_cases session_stepE: "session_step env conn (s, c) l (t, d)"
inductive_simps session_step_simps: "session_step env conn (s, c) l (t, d)"

inductive session_run ::
  "'w env \<Rightarrow> nat \<Rightarrow> 'w agent \<times> conn_state \<Rightarrow> step_label list \<Rightarrow> 'w agent \<times> conn_state \<Rightarrow> bool"
  for env conn where
  run_nil: "session_run env conn x [] x"
| run_step: "session_run env conn x ls y \<Longrightarrow> session_step env conn y l z \<Longrightarrow>
     session_run env conn x (ls @ [l]) z"

section \<open>Invariants of a connection\<close>

text \<open>What the steps of a run do to the counters and to the channel.\<close>

definition acks :: "step_label list \<Rightarrow> int" where
  "acks ls = int (length (filter (\<lambda>l. \<exists>raw. l = FrameDone raw \<and> classify_frame raw = AckFrame) ls))"

definition beats :: "step_label list \<Rightarrow> int" where
  "beats ls = int (length (filter (\<lambda>l. l = Beat) ls))"

definition inserts :: "step_label list \<Rightarrow> string list" where
  "inserts ls = List.map_filter (\<lambda>l. case l of
     FrameDone raw \<Rightarrow> (case classify_frame raw of DeliverFrame r \<Rightarrow> Some r | _ \<Rightarrow> None) | _ \<Rightarrow> None) ls"

lemma label_counts [simp]:
  "acks [] = 0" "beats [] = 0" "inserts [] = []"
  "acks (ls @ [l]) = acks ls + acks [l]" "beats (ls @ [l]) = beats ls + (if l = Beat then 1 else 0)"
  "inserts (ls @ [l]) = inserts ls @ inserts [l]"
  "acks [FrameDone raw] = (if classify_frame raw = AckFrame then 1 else 0)"
  "(\<And>raw. l \<noteq> FrameDone raw) \<Longrightarrow> acks [l] = 0"
  by (auto simp: acks_def beats_def inserts_def List.map_filter_def)

lemma on_frame_simps [simp]:
  "hbSent (on_frame raw c) = hbSent c" "hb_at (on_frame raw c) = hb_at c"
  "rd_at (on_frame raw c) = rd_at c" "closeReason (on_frame raw c) = closeReason c"
  "ws_closed (on_frame raw c) = ws_closed c"
  "hbAcked (on_frame raw c) = hbAcked c + (if classify_frame raw = AckFrame then 1 else 0)"
  by (simp_all add: on_frame_def split: frame_action.split)

lemma setReason_simps [simp]:
  "hbSent (setReason r c) = hbSent c" "hbAcked (setReason r c) = hbAcked c" "hb_at (setReason r c) = hb_at c"
  "rd_at (setReason r c) = rd_at c" "ws_closed (setReason r c) = ws_closed c" "delivered (setReason r c) = delivered c"
  "closeReason (setReason r c) = (case closeReason c of None \<Rightarrow> Some r | Some x \<Rightarrow> Some x)"
  by (auto simp: setReason_def split: option.splits)

text \<open>
  \<open>ls\<close> are the steps so far. At \<open>HbLoaded\<close> the acknowledgements that were loaded are the ones of a
  moment that lies in the past; the goroutine has not written since.
\<close>

definition looked :: "step_label list \<Rightarrow> int \<Rightarrow> int \<Rightarrow> bool" where
  "looked ls sent acked \<longleftrightarrow>
     (\<exists>ls1 ls2. ls = ls1 @ LoadAcks # ls2 \<and> beats ls1 = sent \<and> acks ls1 = acked \<and> beats ls2 = 0)"

definition cut :: "step_label list \<Rightarrow> bool" where
  "cut ls \<longleftrightarrow> (\<exists>sent acked. looked ls sent acked \<and> sent - acked = ackLagThreshold)"

lemma looked_later: "looked ls sent acked \<Longrightarrow> l \<noteq> Beat \<Longrightarrow> looked (ls @ [l]) sent acked"
proof -
  assume "looked ls sent acked" and l: "l \<noteq> Beat"
  then obtain ls1 ls2 where "ls = ls1 @ LoadAcks # ls2" "beats ls1 = sent" "acks ls1 = acked" "beats ls2 = 0"
    by (auto simp: looked_def)
  with l show ?thesis unfolding looked_def by (intro exI [of _ ls1] exI [of _ "ls2 @ [l]"]) simp
qed

lemma looked_now: "looked (ls @ [LoadAcks]) (beats ls) (acks ls)"
  unfolding looked_def by (intro exI [of _ ls] exI [of _ "[]"]) simp

lemma cut_later: "cut ls \<Longrightarrow> l \<noteq> Beat \<Longrightarrow> cut (ls @ [l])"
  unfolding cut_def using looked_later by blast

text \<open>The counters, by where the heartbeat goroutine is.\<close>

definition hb_inv :: "step_label list \<Rightarrow> conn_state \<Rightarrow> bool" where
  "hb_inv ls c \<longleftrightarrow> hbAcked c = acks ls \<and> beats ls - acks ls \<le> ackLagThreshold \<and>
     (case hb_at c of
        HbSelecting \<Rightarrow> hbSent c = beats ls \<and> beats ls - acks ls < ackLagThreshold
      | HbWriting _ \<Rightarrow> hbSent c = beats ls \<and> beats ls - acks ls < ackLagThreshold
      | HbWritten \<Rightarrow> hbSent c + 1 = beats ls
      | HbCounted n \<Rightarrow> n = beats ls \<and> hbSent c = beats ls
      | HbLoaded n a \<Rightarrow> n = beats ls \<and> hbSent c = beats ls \<and> looked ls n a \<and> n - a \<le> ackLagThreshold \<and> a \<le> acks ls
      | HbClosing \<Rightarrow> cut ls
      | HbReturned \<Rightarrow> True)"

definition reason_inv :: "step_label list \<Rightarrow> conn_state \<Rightarrow> bool" where
  "reason_inv ls c \<longleftrightarrow> (ws_closed c \<longrightarrow> hb_at c = HbReturned \<and> cut ls) \<and>
     (closeReason c = None \<and> \<not> ws_closed c \<and> hb_at c \<noteq> HbClosing \<or>
      closeReason c = Some ''ack-lag'' \<and> cut ls \<and> hb_at c \<in> {HbClosing, HbReturned} \<or>
      closeReason c = Some ''read-timeout'' \<and> rd_at c = RdReturned ErrPostJoinClosed (Some ''read-timeout''))"

lemma joined_inv: "hb_inv [] joined" "reason_inv [] joined"
  by (auto simp: hb_inv_def reason_inv_def joined_def ackLagThreshold_def)

lemma hb_step_inv:
  "session_step env conn x l y \<Longrightarrow> hb_inv ls (snd x) \<Longrightarrow> hb_inv (ls @ [l]) (snd y)"
  by (induction rule: session_step.induct)
    (auto simp: hb_inv_def ackLagThreshold_def looked_now cut_def split: hb_phase.splits
      intro: looked_later)

lemma reason_inv_cong:
  assumes "reason_inv ls c" "l \<noteq> Beat" "closeReason d = closeReason c" "ws_closed d = ws_closed c"
    "hb_at d = hb_at c" "(\<forall>e r. rd_at c \<noteq> RdReturned e r) \<or> rd_at d = rd_at c"
  shows "reason_inv (ls @ [l]) d"
  using assms(1) cut_later [OF _ assms(2), of ls] unfolding reason_inv_def assms(3-5) using assms(6) by metis

lemma reason_hb_cong:
  assumes "reason_inv ls c" "closeReason d = closeReason c" "ws_closed d = ws_closed c" "rd_at d = rd_at c"
    "hb_at c \<notin> {HbClosing, HbReturned}" "hb_at d \<noteq> HbClosing"
  shows "reason_inv (ls @ [l]) d"
  using assms(1) unfolding reason_inv_def assms(2-4) using assms(5,6) by auto

lemma reason_step_inv:
  assumes "session_step env conn x l y" "hb_inv ls (snd x)" "reason_inv ls (snd x)"
  shows "reason_inv (ls @ [l]) (snd y)"
  using assms(1)
proof cases
  case (lag_found c sent acked s)
  then have "cut ls" using assms(2) by (auto simp: hb_inv_def cut_def)
  then have "cut (ls @ [l])" using cut_later lag_found by blast
  moreover have "\<not> ws_closed c" using lag_found assms(3) by (auto simp: reason_inv_def)
  ultimately show ?thesis using lag_found assms(3) by (cases "closeReason c") (auto simp: reason_inv_def)
next
  case (close_now c s)
  then have "cut (ls @ [l])" using assms(2) cut_later by (auto simp: hb_inv_def)
  with close_now assms(3) show ?thesis by (auto simp: reason_inv_def)
next
  case (set_timeout c s)
  have "cut ls \<Longrightarrow> cut (ls @ [l])" using cut_later set_timeout by blast
  with set_timeout assms(3) show ?thesis by (cases "closeReason c") (auto simp: reason_inv_def)
qed (rule reason_hb_cong [OF assms(3)] reason_inv_cong [OF assms(3)]; simp; fail)+

lemma session_run_inv:
  "session_run env conn x ls y \<Longrightarrow> snd x = joined \<Longrightarrow> hb_inv ls (snd y) \<and> reason_inv ls (snd y)"
  by (induction rule: session_run.induct) (auto simp: joined_inv intro: hb_step_inv reason_step_inv)

lemma session_run_delivered:
  "session_run env conn x ls y \<Longrightarrow> delivered (snd y) = delivered (snd x) @ inserts ls"
proof (induction rule: session_run.induct)
  case (run_step x ls y l z)
  from run_step.hyps(2) run_step.IH show ?case
    by (cases rule: session_step.cases)
      (auto simp: inserts_def List.map_filter_def on_frame_def split: frame_action.splits)
qed simp

text \<open>
  Claim C34: on a joined connection at most two heartbeats are ever unanswered, however the steps
  interleave. The agent cuts the connection (and gives a missing answer as the reason) only if exactly
  two were unanswered when the heartbeat goroutine loaded the count of the answers, and then it has
  sent no heartbeat since; an answer that comes after that moment does not save the connection.
\<close>

theorem heartbeat_lag_bounded:
  assumes "session_run env conn (s, joined) ls (t, c)"
  shows "beats ls - acks ls \<le> ackLagThreshold \<and>
    (ws_closed c \<or> closeReason c = Some ''ack-lag'' \<longrightarrow>
       (\<exists>ls1 ls2. ls = ls1 @ LoadAcks # ls2 \<and> beats ls1 - acks ls1 = ackLagThreshold \<and> beats ls2 = 0)) \<and>
    (ws_closed c \<longrightarrow> closeReason c \<in> {Some ''ack-lag'', Some ''read-timeout''})"
proof -
  have "hb_inv ls c" "reason_inv ls c" using session_run_inv [OF assms] by simp_all
  then have "beats ls - acks ls \<le> ackLagThreshold" "ws_closed c \<or> closeReason c = Some ''ack-lag'' \<Longrightarrow> cut ls"
    "ws_closed c \<Longrightarrow> closeReason c \<in> {Some ''ack-lag'', Some ''read-timeout''}"
    by (auto simp: hb_inv_def reason_inv_def)
  then show ?thesis unfolding cut_def looked_def by blast
qed

text \<open>
  The channel receives the records of the INSERT frames that were read, all of them and in
  order, and nothing else.
\<close>

theorem delivered_inserts:
  assumes "session_run env conn (s, joined) ls (t, c)"
  shows "delivered c = inserts ls"
  using session_run_delivered [OF assms] by (simp add: joined_def)

section \<open>The waits between the attempts\<close>

text \<open>
  One turn of the loop of \<open>runSubscription\<close> after an attempt ended: the wait, with its duration, and
  then the next backoff or the end of the loop. \<open>rand.Int64N\<close> panics for an argument that is not
  positive.
\<close>

definition next_backoff :: "int \<Rightarrow> int" where
  "next_backoff b = (if b < dur_s 30 then b * 2 else b)"

definition backoff_wait :: "'w env \<Rightarrow> int \<Rightarrow> ('w agent, int \<times> int option) go" where
  "backoff_wait env b s =
     (if b div 2 \<le> 0 then (Panic ''invalid argument to Int64N'', s)
      else case env_rand env (b div 2) (ext s) of (r, w) \<Rightarrow>
        (let jitter = r - b div 4; d = b + jitter in
         case sleep_val env d (s\<lparr>ext := w\<rparr>) of
           (Some _, s') \<Rightarrow> (Ok (d, None), s')
         | (None, s') \<Rightarrow> (Ok (d, Some (next_backoff b)), s')))"

text \<open>What the documentation of \<open>rand.Int64N\<close> promises.\<close>

definition rand_in_range :: "'w env \<Rightarrow> bool" where
  "rand_in_range env \<longleftrightarrow> (\<forall>n w. 0 < n \<longrightarrow> 0 \<le> fst (env_rand env n w) \<and> fst (env_rand env n w) < n)"

text \<open>The backoff before attempt \<open>n\<close>, counted from 0.\<close>

fun backoff_seq :: "nat \<Rightarrow> int" where
  "backoff_seq 0 = dur_s 1"
| "backoff_seq (Suc n) = next_backoff (backoff_seq n)"

text \<open>The values of the sequence, and what the jitter makes of a wait.\<close>

lemma backoff_seq_eq: "backoff_seq n = dur_s (if n < 5 then 2 ^ n else 32)"
proof (induction n)
  case (Suc n)
  have "n < 4 \<or> n = 4 \<or> 4 < n" by arith
  moreover have "n < 4 \<Longrightarrow> n = 0 \<or> n = 1 \<or> n = 2 \<or> n = 3" by arith
  ultimately show ?case using Suc by (auto simp: next_backoff_def)
qed simp

lemma backoff_seq_range: "backoff_seq n \<in> {dur_s 1, dur_s 2, dur_s 4, dur_s 8, dur_s 16, dur_s 32}"
proof -
  have "n < 5 \<Longrightarrow> n = 0 \<or> n = 1 \<or> n = 2 \<or> n = 3 \<or> n = 4" by arith
  then show ?thesis unfolding backoff_seq_eq by auto
qed

section \<open>One subscription from dial to end\<close>

text \<open>
  \<open>subscribeOnce\<close> as a relation: rejected before the join was accepted, or joined, run and ended by
  the error of a read, or by a context that is done when a record is to be delivered. What the other
  goroutines do meanwhile is part of the run.
\<close>

inductive subscribe_once ::
  "(nat \<Rightarrow> bool) \<Rightarrow> 'w env \<Rightarrow> 'w sb_client \<Rightarrow> string \<Rightarrow> string \<Rightarrow> 'w agent \<Rightarrow> error \<Rightarrow> string list \<Rightarrow> 'w agent \<Rightarrow> bool"
  for isprint env c clusterID table where
  rejected: "subscribe_join isprint env c clusterID table s = (Fail e, t) \<Longrightarrow>
     subscribe_once isprint env c clusterID table s e [] t"
| ended: "subscribe_join isprint env c clusterID table s = (Ok (conn, joinRef), s1) \<Longrightarrow>
     after_join env clusterID table conn joinRef s1 = (Ok started, s2) \<Longrightarrow>
     session_run env conn (s2, joined) ls (s3, d) \<Longrightarrow> rd_at d = RdReturned e reason \<Longrightarrow>
     after_close clusterID table conn s3 = (Ok (), t) \<Longrightarrow>
     subscribe_once isprint env c clusterID table s e (delivered d) t"

lemma after_join_registers:
  "after_join env clusterID table conn joinRef s = (r, t) \<Longrightarrow>
     map_of (sb_subs t) (sub_topic table clusterID) = Some conn \<and> sb_loop t \<and> (\<exists>b. r = Ok b)"
  by (auto simp: after_join_def Let_def go_bind_def go_try_def go_modify_def go_return_def now_def go_ref_def
      now_val_def nextRef_def startRefreshLoop_def writeJSON_def registerSubscription_def update_conv'
      split: prod.splits option.splits)

text \<open>
  Claim C36: a connection is in the registry of the refresh loop while its subscription is joined and no
  longer: the join puts it there, with the loop started, and when \<open>subscribeOnce\<close> returns from a
  joined subscription its topic is gone.
\<close>

theorem subscription_registry:
  "(after_join env clusterID table conn joinRef s = (r, t) \<longrightarrow>
      map_of (sb_subs t) (sub_topic table clusterID) = Some conn \<and> sb_loop t) \<and>
   (subscribe_once isprint env c clusterID table u e ds v \<longrightarrow>
      subscribe_join isprint env c clusterID table u = (Fail e, v) \<or>
      map_of (sb_subs v) (sub_topic table clusterID) = None)"
proof (intro conjI impI)
  assume "after_join env clusterID table conn joinRef s = (r, t)"
  from after_join_registers [OF this]
  show "map_of (sb_subs t) (sub_topic table clusterID) = Some conn" "sb_loop t" by auto
next
  have closed: "after_close clusterID table k w = (Ok (), v) \<Longrightarrow>
      map_of (sb_subs v) (sub_topic table clusterID) = None" for k w
    by (auto simp: after_close_def go_bind_def go_modify_def ws_close_def
        unregisterSubscription_def delete_conv')
  assume "subscribe_once isprint env c clusterID table u e ds v"
  then show "subscribe_join isprint env c clusterID table u = (Fail e, v) \<or>
      map_of (sb_subs v) (sub_topic table clusterID) = None"
    by (cases rule: subscribe_once.cases) (auto dest: closed)
qed

section \<open>The loop of attempts\<close>

text \<open>
  \<open>runSubscription\<close>, with its waits (the backoff and the duration that was waited for) and the records
  it delivered: it ends when the context is done before an attempt or during a wait; \<open>between\<close> is a
  loop that is about to try again.
\<close>

inductive subscription_loop ::
  "(nat \<Rightarrow> bool) \<Rightarrow> 'w env \<Rightarrow> 'w sb_client \<Rightarrow> string \<Rightarrow> string \<Rightarrow> int \<Rightarrow> 'w agent \<Rightarrow>
   (int \<times> int) list \<Rightarrow> string list \<Rightarrow> 'w agent \<Rightarrow> bool"
  for isprint env c clusterID table where
  between: "subscription_loop isprint env c clusterID table b s [] [] s"
| done_before: "ctx_err env s = (Some e, t) \<Longrightarrow> subscription_loop isprint env c clusterID table b s [] [] t"
| done_waiting: "ctx_err env s = (None, s1) \<Longrightarrow> subscribe_once isprint env c clusterID table s1 e ds s2 \<Longrightarrow>
     backoff_wait env b s2 = (Ok (d, None), t) \<Longrightarrow>
     subscription_loop isprint env c clusterID table b s [(b, d)] ds t"
| again: "ctx_err env s = (None, s1) \<Longrightarrow> subscribe_once isprint env c clusterID table s1 e ds s2 \<Longrightarrow>
     backoff_wait env b s2 = (Ok (d, Some b'), s3) \<Longrightarrow>
     subscription_loop isprint env c clusterID table b' s3 bs ds' t \<Longrightarrow>
     subscription_loop isprint env c clusterID table b s ((b, d) # bs) (ds @ ds') t"

text \<open>\<open>runSubscription\<close> starts with one second.\<close>

definition first_backoff :: int where "first_backoff = dur_s 1"

lemma backoff_wait_Ok:
  assumes "backoff_wait env b s = (Ok (d, n), t)"
  obtains r where "r = fst (env_rand env (b div 2) (ext s))" "0 < b div 2" "d = b + (r - b div 4)"
    "\<exists>u w. sleep_val env d u = (w, t)" "n = None \<or> n = Some (next_backoff b)"
  using assms by (auto simp: backoff_wait_def Let_def split: if_splits prod.splits option.splits)

text \<open>The jitter moves a wait by at most a quarter of the backoff.\<close>

definition wait_ok :: "int \<Rightarrow> int \<Rightarrow> bool" where
  "wait_ok b d \<longleftrightarrow> 3 * b \<le> 4 * d \<and> 4 * d < 5 * b \<and> d < dur_s 40"

lemma backoff_wait_range:
  assumes "rand_in_range env" "backoff_wait env (backoff_seq n) s = (Ok (d, m), t)"
  shows "wait_ok (backoff_seq n) d \<and> (\<forall>b'. m = Some b' \<longrightarrow> b' = backoff_seq (Suc n))"
proof -
  from assms(2) obtain r where r: "r = fst (env_rand env (backoff_seq n div 2) (ext s))"
    "0 < backoff_seq n div 2" "d = backoff_seq n + (r - backoff_seq n div 4)"
    "m = None \<or> m = Some (next_backoff (backoff_seq n))"
    by (rule backoff_wait_Ok)
  have "0 \<le> r \<and> r < backoff_seq n div 2" using assms(1) r(1,2) by (simp add: rand_in_range_def)
  with r(3,4) backoff_seq_range [of n] show ?thesis
    by (auto simp: wait_ok_def)
qed

lemma loop_backoffs:
  assumes "rand_in_range env"
  shows "subscription_loop isprint env c clusterID table b s bs ds t \<Longrightarrow> b = backoff_seq n \<Longrightarrow>
     map fst bs = map backoff_seq [n..<n + length bs] \<and> (\<forall>(b, d) \<in> set bs. wait_ok b d)"
proof (induction arbitrary: n rule: subscription_loop.induct)
  case (again s s1 e ds s2 b d b' s3 bs ds' t)
  note W = backoff_wait_range [OF assms again.hyps(3) [unfolded again.prems]]
  have "map fst bs = map backoff_seq [Suc n..<Suc n + length bs] \<and> (\<forall>(b, d) \<in> set bs. wait_ok b d)"
    using again.IH [of "Suc n"] W by simp
  moreover have "[n..<n + Suc (length bs)] = n # [Suc n..<Suc n + length bs]"
    by (subst upt_conv_Cons) simp_all
  ultimately show ?case using again.prems W by (auto simp del: upt_Suc)
next
  case (done_waiting s s1 e ds s2 b d t)
  then show ?case using backoff_wait_range [OF assms, of n s2 d None t] by simp
qed simp_all

text \<open>
  Claim C35: over all attempts of a subscription the backoff doubles from one second to 32 seconds and
  stays there (it is never reset, not even by a connection that lasted); the random number is always
  drawn from a valid range, and every wait is between three quarters and five quarters of the backoff,
  so never more than 40 seconds.
\<close>

theorem backoff_bounds:
  assumes "rand_in_range env"
    and "subscription_loop isprint env c clusterID table first_backoff s bs ds t" "i < length bs"
  shows "\<exists>b d. bs ! i = (b, d) \<and> b = dur_s (if i < 5 then 2 ^ i else 32) \<and>
    3 * b \<le> 4 * d \<and> 4 * d < 5 * b \<and> d < dur_s 40 \<and>
    (\<forall>u. fst (backoff_wait env b u) \<noteq> Panic ''invalid argument to Int64N'') \<and>
    (\<forall>u d' n v. backoff_wait env b u = (Ok (d', n), v) \<longrightarrow> (\<exists>u' w. sleep_val env d' u' = (w, v)))"
proof -
  have L: "map fst bs = map backoff_seq [0..<0 + length bs] \<and> (\<forall>(b, d) \<in> set bs. wait_ok b d)"
    by (rule loop_backoffs [OF assms(1,2)]) (simp add: first_backoff_def)
  obtain b d where bd: "bs ! i = (b, d)" by force
  have b: "b = backoff_seq i"
    using L assms(3) bd by (metis add_0 fst_conv length_upt minus_nat.diff_0 nth_map nth_upt)
  moreover have "wait_ok b d" using L assms(3) bd by (metis (mono_tags, lifting) case_prodD nth_mem)
  moreover have "0 < b div 2" using backoff_seq_range [of i] by (auto simp: b)
  then have "fst (backoff_wait env b u) \<noteq> Panic x" for u x
    by (auto simp: backoff_wait_def Let_def split: prod.splits option.splits)
  moreover have "\<exists>u' w. sleep_val env d' u' = (w, v)" if "backoff_wait env b u = (Ok (d', n), v)" for u d' n v
    using that by (rule backoff_wait_Ok) blast
  ultimately show ?thesis by (auto simp: bd backoff_seq_eq wait_ok_def)
qed

section \<open>What the pipelines receive\<close>

text \<open>
  \<open>SubscribeCommands\<close> and \<open>SubscribeReadCommands\<close>: the goroutine between the two channels, on the
  records that arrive before the context is done. A record that does not decode is dropped.
\<close>

definition decoded :: "(json \<Rightarrow> 'a option) \<Rightarrow> string \<Rightarrow> 'a option" where
  "decoded dec raw = (case json_unmarshal dec raw of Inl _ \<Rightarrow> None | Inr x \<Rightarrow> Some x)"

definition command_stream :: "string list \<Rightarrow> Command list" where
  "command_stream raws = List.map_filter (decoded decode_command) raws"

definition read_command_stream :: "string list \<Rightarrow> ReadCommand list" where
  "read_command_stream raws = List.map_filter (decoded decode_read_command) raws"

end
