(* ===== verification/Runtime.thy ===== *)
theory Runtime
  imports Keysync RemoteConfig ReadClients Realtime
begin

text \<open>
  \<open>internal/runtime/runtime.go\<close>: the start of the agent, the snapshot loop, what is done with a
  command, and the function that writes a rotated refresh token to the configuration file. The
  goroutines that \<open>Start\<close> creates are functions of their own here; \<open>Start_boot\<close> is \<open>Start\<close> up to
  the loop and \<open>main_loop\<close> the loop.
\<close>

section \<open>Persisting a rotated token\<close>

definition set_refresh_token :: "string \<Rightarrow> File \<Rightarrow> File" where
  "set_refresh_token tok cfg = cfg\<lparr>f_Supabase := (f_Supabase cfg)\<lparr>sc_RefreshToken := tok\<rparr>\<rparr>"

text \<open>A step whose failure removes the temporary file; the error of \<open>Remove\<close> is dropped.\<close>

definition removing_on_error :: "'w env \<Rightarrow> string \<Rightarrow> ('w agent, unit) go \<Rightarrow> ('w agent, unit) go" where
  "removing_on_error env tmpPath m = go_try m (\<lambda>r. case r of
     Inr _ \<Rightarrow> go_return ()
   | Inl e \<Rightarrow> go_try (Remove env tmpPath) (\<lambda>_. go_fail e))"

definition persistRefreshTo :: "'w env \<Rightarrow> 'x yaml \<Rightarrow> string \<Rightarrow> string \<Rightarrow> ('w agent, unit) go" where
  "persistRefreshTo env y path newToken =
     go_bind (go_wrap ''reload config'' (Load env y path)) (\<lambda>current.
     go_bind (go_wrap ''create temp'' (CreateTemp env (path_dir path) ''.config-*.yml'')) (\<lambda>tmpPath.
     go_bind (removing_on_error env tmpPath (Save env y tmpPath (set_refresh_token newToken current))) (\<lambda>_.
     go_bind (removing_on_error env tmpPath (go_wrap ''chmod temp'' (Chmod env tmpPath))) (\<lambda>_.
     removing_on_error env tmpPath (go_wrap ''rename temp'' (Rename env tmpPath path))))))"

section \<open>Validation\<close>

definition pve_config_of :: "ProxmoxConfig \<Rightarrow> pve_config" where
  "pve_config_of p = \<lparr>APIURL = px_APIURL p, APITokenID = px_APITokenID p,
     APITokenSecret = px_APITokenSecret p, VerifyTLS = px_VerifyTLS p\<rparr>"

definition validate :: "File \<Rightarrow> error option" where
  "validate cfg =
     (if sc_ClusterID (f_Supabase cfg) = '''' \<or> sc_RefreshToken (f_Supabase cfg) = ''''
      then Some (Err ''supabase section incomplete (run --register first)'')
      else Valid ((pve_config_of (f_Proxmox cfg))\<lparr>VerifyTLS := False\<rparr>))"

section \<open>Snapshots\<close>

definition touchHeartbeat :: "'w env \<Rightarrow> string \<Rightarrow> ('w agent, unit) go" where
  "touchHeartbeat env path =
     (if path = '''' then go_return () else go_try (WriteFile env path '''') (\<lambda>_. go_return ()))"

text \<open>\<open>(nodes, qemu, lxc, storage)\<close>\<close>

definition count_type :: "string \<Rightarrow> string list \<Rightarrow> nat" where
  "count_type ty ts = length (filter (\<lambda>t. t = ty) ts)"

definition raw_bytes :: "string option \<Rightarrow> string" where
  "raw_bytes m = (case m of None \<Rightarrow> '''' | Some raw \<Rightarrow> raw)"

definition countSnapshotEntries :: "string option \<Rightarrow> nat \<times> nat \<times> nat \<times> nat" where
  "countSnapshotEntries resources =
     (case json_unmarshal (decode_list (\<lambda>_ v. decode_struct [(''type'', set_string (\<lambda>x _. x))] v ''''))
             (raw_bytes resources) of
        Inl _ \<Rightarrow> (0, 0, 0, 0)
      | Inr ts \<Rightarrow> (count_type ''node'' ts, count_type ''qemu'' ts, count_type ''lxc'' ts, count_type ''storage'' ts))"

definition pushOnce ::
  "'w env \<Rightarrow> pve_client \<Rightarrow> 'w sb_client \<Rightarrow> string \<Rightarrow> string \<Rightarrow> ('w agent, unit) go" where
  "pushOnce env pve sb clusterID heartbeatPath =
     go_bind (touchHeartbeat env heartbeatPath) (\<lambda>_.
     go_bind (now env) (\<lambda>_.
     go_bind (ClusterResources env pve) (\<lambda>resources.
     go_bind (now env) (\<lambda>_.
     PushSnapshot env sb clusterID resources))))"

section \<open>Waiting for the cluster to show the new state\<close>

definition hasGuestState :: "string option \<Rightarrow> int \<Rightarrow> string \<Rightarrow> bool" where
  "hasGuestState resources vmid expected =
     (case json_unmarshal (decode_list (\<lambda>_ v. decode_struct
              [(''vmid'', set_int (\<lambda>x p. (x, snd p))), (''status'', set_string (\<lambda>x p. (fst p, x)))]
              v (0, '''')))
            (raw_bytes resources) of
        Inl _ \<Rightarrow> False
      | Inr entries \<Rightarrow> list_ex (\<lambda>(v, st). v = vmid \<and> st = expected) entries)"

text \<open>The loop of \<open>waitForClusterStateMatch\<close>; \<open>None\<close> is a loop that never ends.\<close>

partial_function (option) match_loop ::
  "'w env \<Rightarrow> pve_client \<Rightarrow> int \<Rightarrow> string \<Rightarrow> int \<Rightarrow> 'w agent \<Rightarrow> (unit outcome \<times> 'w agent) option" where
  "match_loop env pve vmid expected deadline s =
     (let (t, s1) = now_val env s in
      if \<not> t < deadline then Some (Ok (), s1)
      else
        (let (r, s2) = ClusterResources env pve s1 in
         if (case r of Ok res \<Rightarrow> hasGuestState res vmid expected | _ \<Rightarrow> False) then Some (Ok (), s2)
         else
           (let (w, s3) = sleep_val env pollInterval s2 in
            case w of Some e \<Rightarrow> Some (Ok (), s3)
            | None \<Rightarrow> match_loop env pve vmid expected deadline s3)))"

definition waitForClusterStateMatch :: "'w env \<Rightarrow> pve_client \<Rightarrow> Command \<Rightarrow> ('w agent, unit) go" where
  "waitForClusterStateMatch env pve cmd s =
     (case ExpectedStateFor (Kind cmd) of
        None \<Rightarrow> (Ok (), s)
      | Some (expected, timeout) \<Rightarrow>
        (case ParseGuestRef cmd of
           None \<Rightarrow> (Ok (), s)
         | Some ref \<Rightarrow>
           (let (t, s1) = now_val env s in
            case match_loop env pve (ref_VMID ref) expected (t + timeout) s1 of
              Some r \<Rightarrow> r | None \<Rightarrow> (Diverge, s1))))"

section \<open>Commands\<close>

definition handleCommand ::
  "'w env \<Rightarrow> ('k, 'p, 'o, 'l) hpke \<Rightarrow> Dispatcher \<Rightarrow> pve_client \<Rightarrow> 'w sb_client \<Rightarrow> string \<Rightarrow> string \<Rightarrow> Command \<Rightarrow>
   ('w agent, unit) go" where
  "handleCommand env lib d pve sb clusterID heartbeatPath cmd =
     go_try (Handle (now_val env) (pve_actor env pve) (sb_store env sb) lib d cmd) (\<lambda>r. case r of
       Inl _ \<Rightarrow> go_return ()
     | Inr _ \<Rightarrow>
       go_bind (waitForClusterStateMatch env pve cmd) (\<lambda>_.
       go_try (pushOnce env pve sb clusterID heartbeatPath) (\<lambda>_. go_return ())))"

definition handleReadCommand ::
  "'w env \<Rightarrow> (nat \<Rightarrow> bool) \<Rightarrow> ((string \<times> json) list \<Rightarrow> (string \<times> json) list) \<Rightarrow> pve_client \<Rightarrow> 'w sb_client \<Rightarrow>
   ReadCommand \<Rightarrow> ('w agent, unit) go" where
  "handleReadCommand env isprint order pve sb cmd =
     go_try (Handle_read (now_val env) isprint order (error_text (env_text env)) (pve_reader env pve)
               (sb_read_store env sb) read_timeout cmd) (\<lambda>_. go_return ())"

text \<open>The catch-up after a (re)connect: the commands that a goroutine is started for.\<close>

definition cmdCatchUp :: "'w env \<Rightarrow> 'w sb_client \<Rightarrow> string \<Rightarrow> ('w agent, Command list) go" where
  "cmdCatchUp env sb clusterID = go_try (PendingCommands env sb clusterID) (\<lambda>r. case r of
     Inl _ \<Rightarrow> go_return [] | Inr rows \<Rightarrow> go_return rows)"

definition readCatchUp :: "'w env \<Rightarrow> 'w sb_client \<Rightarrow> string \<Rightarrow> ('w agent, ReadCommand list) go" where
  "readCatchUp env sb clusterID = go_try (PendingReadCommands env sb clusterID) (\<lambda>r. case r of
     Inl _ \<Rightarrow> go_return [] | Inr rows \<Rightarrow> go_return rows)"

section \<open>Start\<close>

definition defaultPollInterval :: int where "defaultPollInterval = dur_s 30"

record 'w started =
  st_pve :: pve_client
  st_sb :: "'w sb_client"
  st_cluster :: string
  st_dispatcher :: Dispatcher
  st_interval :: int
  st_heartbeat :: string

definition poll_interval :: "AgentConfig \<Rightarrow> int" where
  "poll_interval a = (if 0 < ag_PollIntervalSeconds a then wrap64 (dur_s (ag_PollIntervalSeconds a))
     else defaultPollInterval)"

text \<open>
  \<open>Start\<close> up to the subscriptions and the loop; \<open>start_session\<close> is what it does with the client it
  built. \<open>gen\<close> is the key pair the generator would make.
\<close>

definition start_session ::
  "'w env \<Rightarrow> 'x yaml \<Rightarrow> ('k, 'p, 'o, 'l) hpke \<Rightarrow> lib_error + ('p \<times> 'k) \<Rightarrow> string \<Rightarrow> File \<Rightarrow> pve_client \<Rightarrow>
   'w sb_client \<Rightarrow> string \<Rightarrow> ('w agent, 'w started) go" where
  "start_session env y lib gen configPath cfg pve sb heartbeatPath =
     (let cluster = sc_ClusterID (f_Supabase cfg) in
        go_bind (go_wrap ''proxmox version check'' (Version env pve)) (\<lambda>_.
        go_bind (go_wrap ''supabase initial auth'' (Ping env sb)) (\<lambda>_.
        go_bind (go_wrap ''ensure private key'' (EnsurePrivateKey env y lib gen cfg configPath))
          (\<lambda>(privateKeyB64, generated, cfg).
        go_bind (if generated
                 then go_try (UploadPublicKey env lib sb cluster privateKeyB64) (\<lambda>_. go_return ())
                 else go_return ()) (\<lambda>_.
        (case b64_decode privateKeyB64 of
           Inl e \<Rightarrow> go_fail (Wrap ''decode supabase.private_key'' e)
         | Inr privBytes \<Rightarrow> go_return
             \<lparr>st_pve = pve, st_sb = sb, st_cluster = cluster,
              st_dispatcher = New_dispatcher\<lparr>PrivateKey := Some privBytes\<rparr>,
              st_interval = poll_interval (f_Agent cfg), st_heartbeat = heartbeatPath\<rparr>))))))"

definition Start_boot ::
  "(nat \<Rightarrow> bool) \<Rightarrow> 'w env \<Rightarrow> 'x yaml \<Rightarrow> ('k, 'p, 'o, 'l) hpke \<Rightarrow> lib_error + ('p \<times> 'k) \<Rightarrow> string \<Rightarrow> rconfig \<Rightarrow>
   ('w agent, 'w started) go" where
  "Start_boot isprint env y lib gen configPath rc =
     go_bind (go_wrap ''load config'' (Load env y configPath)) (\<lambda>cfg.
     case validate cfg of
       Some e \<Rightarrow> go_fail (Wrap ''config invalid'' e)
     | None \<Rightarrow>
        go_bind (go_wrap ''build supabase client''
          (New_sb isprint (SupabaseBaseURL rc) (SupabasePublishableKey rc) (SupabaseRealtimeURL rc)
             (sc_RefreshToken (f_Supabase cfg)) (Some (persistRefreshTo env y configPath)))) (\<lambda>sb.
        start_session env y lib gen configPath cfg (New_pve (pve_config_of (f_Proxmox cfg))) sb
          (path_join (path_dir configPath) ''.last-poll'')))"

text \<open>
  The loop, over the wake-ups of its \<open>select\<close> so far. \<open>Ok True\<close> is the return of nil after
  \<open>ctx.Done()\<close>, \<open>Ok False\<close> a loop that waits for its next wake-up.
\<close>

datatype wakeup = Tick | CtxIsDone

fun main_loop ::
  "'w env \<Rightarrow> pve_client \<Rightarrow> 'w sb_client \<Rightarrow> string \<Rightarrow> string \<Rightarrow> wakeup list \<Rightarrow> ('w agent, bool) go" where
  "main_loop env pve sb cluster hb [] = go_return False"
| "main_loop env pve sb cluster hb (CtxIsDone # ws) = go_return True"
| "main_loop env pve sb cluster hb (Tick # ws) =
     go_try (pushOnce env pve sb cluster hb) (\<lambda>r. case r of
       Inl e \<Rightarrow> if errors_is e ErrRefreshRevoked then go_fail e else main_loop env pve sb cluster hb ws
     | Inr _ \<Rightarrow> main_loop env pve sb cluster hb ws)"

text \<open>\<open>Start\<close>: boot, the first push, the ticker (which panics for an interval that is not positive).\<close>

definition Start ::
  "(nat \<Rightarrow> bool) \<Rightarrow> 'w env \<Rightarrow> 'x yaml \<Rightarrow> ('k, 'p, 'o, 'l) hpke \<Rightarrow> lib_error + ('p \<times> 'k) \<Rightarrow> string \<Rightarrow> rconfig \<Rightarrow>
   wakeup list \<Rightarrow> ('w agent, bool) go" where
  "Start isprint env y lib gen configPath rc ws =
     go_bind (Start_boot isprint env y lib gen configPath rc) (\<lambda>b.
     go_try (pushOnce env (st_pve b) (st_sb b) (st_cluster b) (st_heartbeat b)) (\<lambda>_.
     if st_interval b \<le> 0 then go_panic ''non-positive interval for NewTicker''
     else main_loop env (st_pve b) (st_sb b) (st_cluster b) (st_heartbeat b) ws))"


section \<open>The rewrite of the configuration is atomic\<close>

text \<open>The outcome of a persist: the path holds the complete new file, or what it held before.\<close>

definition persisted :: "'x yaml \<Rightarrow> string \<Rightarrow> string \<Rightarrow> 'w agent \<Rightarrow> 'w agent \<Rightarrow> bool" where
  "persisted y path tok s t \<longleftrightarrow>
     (\<exists>old cfg data. fs s path = Some old \<and> y_unmarshal y old = Inr cfg \<and>
        saved y (set_refresh_token tok cfg) = Some data \<and> fs t path = Some data)"

definition others_kept :: "string \<Rightarrow> 'w agent \<Rightarrow> 'w agent \<Rightarrow> bool" where
  "others_kept path s t \<longleftrightarrow> (\<forall>p. fs s p \<noteq> None \<longrightarrow> p \<noteq> path \<longrightarrow> fs t p = fs s p)"

lemma removing_Fail:
  assumes "removing_on_error env tmp m s = (r, t)" "\<forall>x. r \<noteq> Ok x" "returns m"
  obtains e u where "m s = (Fail e, u)" "\<forall>p. p \<noteq> tmp \<longrightarrow> fs t p = fs u p"
proof -
  obtain r1 u where m: "m s = (r1, u)" by force
  have "returned r1" using assms(3) m by (rule returnsD)
  with assms(1,2) m obtain e where "r1 = Fail e"
    by (cases r1) (auto simp: removing_on_error_def go_simps)
  moreover have "\<forall>p. p \<noteq> tmp \<longrightarrow> fs t p = fs u p"
    using assms(1) m \<open>r1 = Fail e\<close>
    by (auto simp: removing_on_error_def go_simps go_try_def Remove_def split: prod.splits option.splits)
  ultimately show thesis using that m by blast
qed

lemma removing_Ok: "removing_on_error env tmp m s = (Ok x, t) \<Longrightarrow> m s = (Ok (), t)"
  by (auto simp: removing_on_error_def go_try_def go_fail_def split: outcome.splits prod.splits)

lemma Save_returns [go_total]: "returns (Save env y path f)"
  unfolding Save_def by (auto split: sum.splits intro!: go_total)

lemma Load_returns [go_total]: "returns (Load env y path)"
  unfolding Load_def by (auto split: sum.splits intro!: go_total)

lemma removing_returns [go_total]: "returns m \<Longrightarrow> returns (removing_on_error env tmp m)"
  unfolding removing_on_error_def by (auto split: sum.splits intro!: go_total)

lemma persist_returns [go_total]: "returns (persistRefreshTo env y path tok)"
  unfolding persistRefreshTo_def by (intro go_total)

lemma Save_other: "Save env y path f s = (r, t) \<Longrightarrow> p \<noteq> path \<Longrightarrow> fs t p = fs s p"
  by (auto simp: Save_def go_wrap_def go_fail_def WriteFile_def
      split: sum.splits prod.splits option.splits outcome.splits)

lemma Load_fs: "Load env y path s = (r, t) \<Longrightarrow> fs t = fs s"
  by (auto simp: Load_def go_bind_def go_wrap_def go_simps ReadFile_def
      split: prod.splits option.splits outcome.splits sum.splits)

lemma CreateTemp_Ok: "CreateTemp env dir pat s = (Ok tmp, t) \<Longrightarrow> fs s tmp = None \<and> fs t = (fs s)(tmp \<mapsto> '''')"
  by (auto simp: CreateTemp_def split: prod.splits sum.splits if_splits)

lemma CreateTemp_Fail: "CreateTemp env dir pat s = (Fail e, t) \<Longrightarrow> fs t = fs s"
  by (auto simp: CreateTemp_def split: prod.splits sum.splits if_splits)

lemma Chmod_fs: "go_wrap ctx (Chmod env p) s = (r, t) \<Longrightarrow> fs t = fs s"
  by (auto simp: Chmod_def go_wrap_def split: prod.splits option.splits outcome.splits)

lemma Rename_fs:
  "go_wrap ctx (Rename env old new) s = (r, t) \<Longrightarrow>
     (if r = Ok () then \<exists>d. fs s old = Some d \<and> fs t = (fs s)(old := None, new \<mapsto> d) else fs t = fs s)"
  by (auto simp: Rename_def go_wrap_def split: prod.splits option.splits outcome.splits)

text \<open>What a step under \<open>removing_on_error\<close> leads to: its continuation, or the end.\<close>

lemma removing_bind:
  assumes "go_bind (removing_on_error env tmp m) f s = (r, t)" "returns m"
  obtains (ok) u where "m s = (Ok (), u)" "f () u = (r, t)"
    | (failed) e u where "m s = (Fail e, u)" "\<forall>p. p \<noteq> tmp \<longrightarrow> fs t p = fs u p" "r \<noteq> Ok ()"
proof -
  obtain r1 u where m: "removing_on_error env tmp m s = (r1, u)" by force
  show thesis
  proof (cases "r1 = Ok ()")
    case True
    with assms(1) m removing_Ok [of env tmp m s "()" u] ok show thesis by (auto simp: go_simps)
  next
    case False
    with m assms(2) obtain e v where "m s = (Fail e, v)" "\<forall>p. p \<noteq> tmp \<longrightarrow> fs u p = fs v p"
      by (elim removing_Fail) auto
    moreover have "t = u \<and> r \<noteq> Ok ()"
      using assms(1) m False by (cases r1) (auto simp: go_simps)
    ultimately show thesis using failed by auto
  qed
qed

text \<open>Save, chmod and rename, from a state in which the temporary file exists.\<close>

definition persist_tail :: "'w env \<Rightarrow> 'x yaml \<Rightarrow> string \<Rightarrow> string \<Rightarrow> File \<Rightarrow> ('w agent, unit) go" where
  "persist_tail env y path tmp new =
     go_bind (removing_on_error env tmp (Save env y tmp new)) (\<lambda>_.
     go_bind (removing_on_error env tmp (go_wrap ''chmod temp'' (Chmod env tmp))) (\<lambda>_.
     removing_on_error env tmp (go_wrap ''rename temp'' (Rename env tmp path))))"

lemma persist_tail_cases:
  assumes run: "persist_tail env y path tmp new s = (r, t)"
  shows "(if r = Ok () then \<exists>data. saved y new = Some data \<and> fs t = (fs s)(tmp := None, path \<mapsto> data)
     else \<forall>p. p \<noteq> tmp \<longrightarrow> fs t p = fs s p)"
proof -
  from run [unfolded persist_tail_def] Save_returns show ?thesis
  proof (cases rule: removing_bind)
    case (failed e u)
    then show ?thesis using Save_other by metis
  next
    case (ok u)
    from Save_Ok [OF ok(1)] obtain data where d: "saved y new = Some data" "fs u = (fs s)(tmp \<mapsto> data)" by blast
    have "returns (go_wrap ''chmod temp'' (Chmod env tmp))" by (intro go_total)
    with ok(2) show ?thesis
    proof (cases rule: removing_bind)
      case (failed e v)
      then show ?thesis using Chmod_fs d by (metis fun_upd_other)
    next
      case (ok v)
      have f: "fs v = (fs s)(tmp \<mapsto> data)" using Chmod_fs [OF ok(1)] d by simp
      have R: "returns (go_wrap ''rename temp'' (Rename env tmp path))" by (intro go_total)
      show ?thesis
      proof (cases "r = Ok ()")
        case True
        with removing_Ok ok(2) have "go_wrap ''rename temp'' (Rename env tmp path) v = (Ok (), t)" by blast
        from Rename_fs [OF this] f d(1) True show ?thesis by auto
      next
        case False
        then obtain e w where "go_wrap ''rename temp'' (Rename env tmp path) v = (Fail e, w)"
          "\<forall>p. p \<noteq> tmp \<longrightarrow> fs t p = fs w p"
          using removing_Fail [OF ok(2) _ R] by auto
        with Rename_fs [of _ env tmp path v] f False show ?thesis by fastforce
      qed
    qed
  qed
qed

lemma persist_cases:
  assumes run: "persistRefreshTo env y path tok s = (r, t)"
  shows "(if r = Ok () then persisted y path tok s t else fs t path = fs s path) \<and> others_kept path s t"
proof -
  obtain r1 s1 where l: "Load env y path s = (r1, s1)" by force
  obtain r2 s2 where c: "CreateTemp env (path_dir path) ''.config-*.yml'' s1 = (r2, s2)" by force
  have f1: "fs s1 = fs s" using l by (rule Load_fs)
  have ret: "returned r1" "returned r2"
    using returnsD [OF Load_returns l] returnsD [OF file_ops_return(3) c] by simp_all
  show ?thesis
  proof (cases "\<exists>cfg tmp. r1 = Ok cfg \<and> r2 = Ok tmp")
    case False
    then consider e where "r1 = Fail e" | cfg e where "r1 = Ok cfg" "r2 = Fail e"
      using ret by (cases r1; cases r2) auto
    then have "(\<exists>e. r = Fail e) \<and> fs t = fs s"
    proof cases
      case 1
      then show ?thesis using run l f1 by (auto simp: persistRefreshTo_def go_bind_def go_wrap_def)
    next
      case 2
      from CreateTemp_Fail c 2(2) have "fs s2 = fs s1" by blast
      with 2 show ?thesis using run l c f1 by (auto simp: persistRefreshTo_def go_bind_def go_wrap_def)
    qed
    then show ?thesis by (auto simp: others_kept_def)
  next
    case True
    then obtain cfg tmp where ok: "r1 = Ok cfg" "r2 = Ok tmp" by blast
    from Load_Ok l ok obtain old where old: "fs s path = Some old" "y_unmarshal y old = Inr cfg" by blast
    have tmp: "fs s tmp = None" "tmp \<noteq> path" "\<forall>p. p \<noteq> tmp \<longrightarrow> fs s2 p = fs s p"
      using CreateTemp_Ok [OF c [unfolded ok(2)]] f1 old by auto
    have "persist_tail env y path tmp (set_refresh_token tok cfg) s2 = (r, t)"
      using run l c ok by (simp add: persistRefreshTo_def persist_tail_def go_simps go_bind_def go_wrap_def)
    note tail = persist_tail_cases [OF this]
    have "fs t p = fs s p" if "fs s p \<noteq> None" "p \<noteq> path" for p
    proof -
      have "p \<noteq> tmp" using that tmp by auto
      with tail tmp that show ?thesis by (cases "r = Ok ()") auto
    qed
    then have "others_kept path s t" by (simp add: others_kept_def)
    with tail tmp old show ?thesis by (auto simp: persisted_def)
  qed
qed

text \<open>
  Claim C8: persisting a rotated token either succeeds, and the configuration file then holds the whole
  new file (the old configuration with the new token), or it fails and the file holds what it held; no
  other file that existed is touched, and it always returns.
\<close>

theorem persistRefreshTo_atomic:
  assumes "persistRefreshTo env y path tok s = (r, t)"
  shows "(r = Ok () \<longrightarrow> persisted y path tok s t) \<and>
    ((\<exists>e. r = Fail e) \<longrightarrow> fs t path = fs s path) \<and> returned r \<and>
    (\<forall>p. fs s p \<noteq> None \<longrightarrow> p \<noteq> path \<longrightarrow> fs t p = fs s p)"
  using persist_cases [OF assms] returnsD [OF persist_returns assms]
  by (auto simp: others_kept_def split: if_splits)

end
