(* ===== verification/AgentMain.thy ===== *)
theory AgentMain
  imports Runtime
begin

text \<open>
  \<open>cmd/proxmoxvue-agent/main.go\<close>: the command line. The result of a command is its exit code,
  \<open>None\<close> while \<open>--run\<close> is still running. What the program prints is in the log of the agent;
  what package \<open>flag\<close> prints about a wrong command line, and the lines of \<open>slog\<close>, are not.
  \<open>sv\<close> is package \<open>semver\<close>.
\<close>

section \<open>Constants\<close>

definition defaultProjectRef :: string where "defaultProjectRef = ''fjesjyoxpkalaudfyebx''"
definition defaultConfigPath :: string where "defaultConfigPath = ''/etc/proxmoxvue-agent/config.yml''"
definition defaultRemoteCachePath :: string where
  "defaultRemoteCachePath = ''/var/lib/proxmoxvue-agent/remote-config.json''"
definition exitRevoked :: int where "exitRevoked = 78"

section \<open>Package flag\<close>

text \<open>
  \<open>FlagSet.Parse\<close> with \<open>ExitOnError\<close>, for flags that take a value: the values of the flags and the
  remaining arguments, or the exit code (0 after \<open>-h\<close>, 2 after an error).
\<close>

datatype flags = FlagExit int | Parsed "(string \<times> string) list" "string list"

definition flag_name :: "string \<Rightarrow> string option" where
  "flag_name s = (case s of
     c # d # r \<Rightarrow> if c \<noteq> CHR ''-'' then None else if d = CHR ''-'' then Some r else Some (d # r)
   | _ \<Rightarrow> None)"

text \<open>The name up to an equals sign that is not its first character, and the value behind it.\<close>

definition flag_split :: "string \<Rightarrow> string \<times> string option" where
  "flag_split name = (case name of [] \<Rightarrow> ([], None)
   | c # r \<Rightarrow> (c # takeWhile (\<lambda>x. x \<noteq> CHR ''='') r,
       if CHR ''='' \<in> set r then Some (tl (dropWhile (\<lambda>x. x \<noteq> CHR ''='') r)) else None))"

fun parse_flags :: "(string \<times> string) list \<Rightarrow> string list \<Rightarrow> flags" where
  "parse_flags vals [] = Parsed vals []"
| "parse_flags vals (s # args) = (case flag_name s of
     None \<Rightarrow> Parsed vals (s # args)
   | Some name \<Rightarrow>
     if name = '''' then Parsed vals args
     else if hd name = CHR ''-'' \<or> hd name = CHR ''='' then FlagExit 2
     else (case flag_split name of (n, v) \<Rightarrow>
       if map_of vals n = None then FlagExit (if n = ''help'' \<or> n = ''h'' then 0 else 2)
       else (case v of
          Some x \<Rightarrow> parse_flags (AList.update n x vals) args
        | None \<Rightarrow> (case args of
            [] \<Rightarrow> FlagExit 2
          | x # args' \<Rightarrow> parse_flags (AList.update n x vals) args'))))"

definition flag_value :: "(string \<times> string) list \<Rightarrow> string \<Rightarrow> string" where
  "flag_value vals n = the (map_of vals n)"

section \<open>Printing and reading\<close>

definition out :: "string \<Rightarrow> ('w agent, unit) go" where
  "out t = go_modify (\<lambda>s. s\<lparr>log := log s @ [Stdout t]\<rparr>)"

definition err_out :: "string \<Rightarrow> ('w agent, unit) go" where
  "err_out t = go_modify (\<lambda>s. s\<lparr>log := log s @ [Stderr t]\<rparr>)"

definition err_text :: "'w env \<Rightarrow> error \<Rightarrow> string" where
  "err_text env e = error_text (env_text env) e"

definition nl :: string where "nl = [CHR 0x0A]"

definition outln :: "string \<Rightarrow> ('w agent, unit) go" where "outln t = out (t @ nl)"
definition errln :: "string \<Rightarrow> ('w agent, unit) go" where "errln t = err_out (t @ nl)"

fun in_order :: "('s, unit) go list \<Rightarrow> ('s, unit) go" where
  "in_order [] = go_return ()"
| "in_order (m # ms) = go_bind m (\<lambda>_. in_order ms)"

definition out_lines :: "string list \<Rightarrow> ('w agent, unit) go" where "out_lines ts = in_order (map outln ts)"
definition err_lines :: "string list \<Rightarrow> ('w agent, unit) go" where "err_lines ts = in_order (map errln ts)"

text \<open>\<open>os.Exit\<close>, after a message on standard error.\<close>

definition exit_with :: "int \<Rightarrow> ('w agent, int option) go" where
  "exit_with code = go_return (Some code)"

definition die :: "string \<Rightarrow> int \<Rightarrow> ('w agent, int option) go" where
  "die t code = go_bind (errln t) (\<lambda>_. exit_with code)"

definition printUsage :: "('w agent, unit) go" where
  "printUsage = err_lines
     [''usage: proxmoxvue-agent <command>'', '''', ''commands:'',
      ''  --register CODE   enroll this host against the ProxmoxVue backend'',
      ''  --rotate-key      generate a fresh HPKE keypair and upload the public key'',
      ''  --run             run the long-lived agent loop (used by systemd)'',
      ''  --version         print version'', '''',
      ''flags for --register, --rotate-key, and --run:'',
      ''  --config PATH          config path (default /etc/proxmoxvue-agent/config.yml)'',
      ''  --project-ref REF      Supabase project ref (register only)'']"

text \<open>\<open>isStdinTTY\<close>; the environment answers false where \<open>Stat\<close> fails.\<close>

definition isStdinTTY :: "'w env \<Rightarrow> ('w agent, bool) go" where
  "isStdinTTY env s = (case env_tty env (ext s) of (b, w) \<Rightarrow> (Ok b, s\<lparr>ext := w\<rparr>))"

text \<open>\<open>ReadString\<close> returns what it read also when it fails.\<close>

definition read_string :: "'w env \<Rightarrow> ('w agent, string \<times> lib_error option) go" where
  "read_string env s = (case env_line env (ext s) of (r, w) \<Rightarrow> (Ok r, s\<lparr>ext := w\<rparr>))"

definition readLine :: "'w env \<Rightarrow> string \<Rightarrow> ('w agent, string) go" where
  "readLine env prompt = go_bind (out prompt) (\<lambda>_. go_bind (read_string env) (\<lambda>(line, err).
     if err \<noteq> None \<and> line = '''' then go_return '''' else go_return (trim_space line)))"

section \<open>The Proxmox credentials\<close>

text \<open>One field: asked for if it is empty; an answer that is not empty is stored.\<close>

definition ask_field ::
  "'w env \<Rightarrow> string \<Rightarrow> (ProxmoxConfig \<Rightarrow> string) \<Rightarrow> (string \<Rightarrow> ProxmoxConfig \<Rightarrow> ProxmoxConfig) \<Rightarrow>
   bool \<times> File \<Rightarrow> ('w agent, bool \<times> File) go" where
  "ask_field env prompt field upd = (\<lambda>(changed, cfg).
     if field (f_Proxmox cfg) = '''' then
       go_bind (readLine env prompt) (\<lambda>v.
         if v \<noteq> '''' then go_return (True, cfg\<lparr>f_Proxmox := upd v (f_Proxmox cfg)\<rparr>)
         else go_return (changed, cfg))
     else go_return (changed, cfg))"

definition fresh_install :: "File \<Rightarrow> bool" where
  "fresh_install cfg \<longleftrightarrow> px_APIURL (f_Proxmox cfg) = '''' \<and> px_APITokenID (f_Proxmox cfg) = '''' \<and>
     px_APITokenSecret (f_Proxmox cfg) = ''''"

definition promptProxmoxConfig :: "'w env \<Rightarrow> File \<Rightarrow> ('w agent, bool \<times> File) go" where
  "promptProxmoxConfig env cfg =
     go_bind (out_lines ['''', ''set up Proxmox API credentials (press Enter to skip a field):'']) (\<lambda>_.
     go_bind (ask_field env ''  api_url (e.g. https://pve.example.com:8006): '' px_APIURL
        (\<lambda>v p. p\<lparr>px_APIURL := v\<rparr>) (False, cfg)) (\<lambda>st.
     go_bind (ask_field env ''  api_token_id (e.g. root@pam!claude): '' px_APITokenID
        (\<lambda>v p. p\<lparr>px_APITokenID := v\<rparr>) st) (\<lambda>st.
     go_bind (ask_field env ''  api_token_secret (uuid): '' px_APITokenSecret
        (\<lambda>v p. p\<lparr>px_APITokenSecret := v\<rparr>) st) (\<lambda>(changed, cfg').
     if fresh_install cfg \<and> changed then
       go_bind (readLine env ''  verify_tls (y/N) [N for self-signed homelab certs]: '') (\<lambda>v.
         go_return (changed, cfg'\<lparr>f_Proxmox := (f_Proxmox cfg')
           \<lparr>px_VerifyTLS := to_lower v = ''y'' \<or> to_lower v = ''yes''\<rparr>\<rparr>))
     else go_return (changed, cfg')))))"

section \<open>The log\<close>

datatype log_sink = StderrOnly | StderrAndFile LogRotation

definition newLogSink :: "'w env \<Rightarrow> LogRotation \<Rightarrow> ('w agent, log_sink) go" where
  "newLogSink env r = go_try (OpenCreate env (lr_FilePath r)) (\<lambda>probe. case probe of
     Inl e \<Rightarrow> go_bind (errln (''log file '' @ lr_FilePath r @ '' not writable ('' @ err_text env e @
        '') '' @ [CHR 0xE2, CHR 0x80, CHR 0x94] @ '' falling back to stderr-only''))
        (\<lambda>_. go_return StderrOnly)
   | Inr _ \<Rightarrow> go_return (StderrAndFile r))"

section \<open>What the commands are given\<close>

text \<open>
  The libraries (\<open>unicode.IsPrint\<close>, YAML, HPKE with the key pair its generator would make,
  \<open>semver.IsValid\<close> and \<open>semver.Compare\<close>) and the version that the linker put in.
\<close>

record ('x, 'k, 'p, 'o, 'l) deps =
  d_isprint :: "nat \<Rightarrow> bool"
  d_yaml :: "'x yaml"
  d_hpke :: "('k, 'p, 'o, 'l) hpke"
  d_gen :: "lib_error + ('p \<times> 'k)"
  d_sv_valid :: "string \<Rightarrow> bool"
  d_sv_compare :: "string \<Rightarrow> string \<Rightarrow> int"
  d_version :: string

text \<open>A long dash, and a part that exits or goes on with a value.\<close>

definition dash :: string where
  "dash = [CHR 0xE2, CHR 0x80, CHR 0x94]"

section \<open>--run\<close>

text \<open>
  The settings of the log: an exit code for a value that is not valid, else the level and the
  rotation. A configuration that cannot be loaded is left to \<open>Start\<close>.
\<close>

definition logging_setup ::
  "'w env \<Rightarrow> ('x, 'k, 'p, 'o, 'l) deps \<Rightarrow> string \<Rightarrow> ('w agent, int + (slog_level \<times> LogRotation)) go" where
  "logging_setup env dp configPath = go_try (Load env (d_yaml dp) configPath) (\<lambda>r. case r of
     Inl _ \<Rightarrow> go_return (Inr (LevelInfo, EffectiveLogRotation empty_agent))
   | Inr cfg \<Rightarrow>
     (case ParseLogLevel (d_isprint dp) (ag_LogLevel (f_Agent cfg)) of
        Inl e \<Rightarrow> go_bind (errln (err_text env e)) (\<lambda>_. go_return (Inl 1))
      | Inr l \<Rightarrow>
        (case ValidateLogging (f_Agent cfg) of
           Some e \<Rightarrow> go_bind (errln (err_text env e)) (\<lambda>_. go_return (Inl 1))
         | None \<Rightarrow>
           (let cfg' = snd (EnsureDefaults cfg) in
            go_try (Save env (d_yaml dp) configPath cfg') (\<lambda>saveErr. case saveErr of
              Inl e \<Rightarrow> go_bind (errln (''warn: failed to rewrite config: '' @ err_text env e))
                        (\<lambda>_. go_return (Inr (l, EffectiveLogRotation (f_Agent cfg'))))
            | Inr _ \<Rightarrow> go_return (Inr (l, EffectiveLogRotation (f_Agent cfg'))))))))"

text \<open>Whether the configuration of the server refuses this version.\<close>

definition version_refused :: "('x, 'k, 'p, 'o, 'l) deps \<Rightarrow> rconfig \<Rightarrow> bool" where
  "version_refused dp rc \<longleftrightarrow> MinAgentVersion rc \<noteq> '''' \<and>
     \<not> (\<not> d_sv_valid dp (d_version dp) \<or> \<not> d_sv_valid dp (MinAgentVersion rc)) \<and>
     d_sv_compare dp (d_version dp) (MinAgentVersion rc) < 0"

definition run_flags :: "(string \<times> string) list" where
  "run_flags = [(''config'', defaultConfigPath), (''remote-config-cache'', defaultRemoteCachePath)]"

definition runAgent ::
  "'w env \<Rightarrow> ('x, 'k, 'p, 'o, 'l) deps \<Rightarrow> string list \<Rightarrow> wakeup list \<Rightarrow> ('w agent, int option) go" where
  "runAgent env dp args ws = (case parse_flags run_flags args of
     FlagExit code \<Rightarrow> exit_with code
   | Parsed vals _ \<Rightarrow>
     (let configPath = flag_value vals ''config'' in
      go_bind (logging_setup env dp configPath) (\<lambda>setup. case setup of
        Inl code \<Rightarrow> exit_with code
      | Inr (level, rotation) \<Rightarrow>
        go_bind (newLogSink env rotation) (\<lambda>_.
        go_bind (rc_Load env (NewFetcher (flag_value vals ''remote-config-cache''))) (\<lambda>(rc, source).
        if version_refused dp rc then exit_with 1
        else
          go_try (Start (d_isprint dp) env (d_yaml dp) (d_hpke dp) (d_gen dp) configPath rc ws) (\<lambda>r. case r of
            Inl e \<Rightarrow>
              if errors_is e ErrRefreshRevoked
              then die (''supabase session revoked '' @ dash @ '' re-enroll with --register'') exitRevoked
              else die (''agent exited: '' @ err_text env e) 1
          | Inr stopped \<Rightarrow> if stopped then exit_with 0 else go_return None))))))"

section \<open>--register\<close>

text \<open>The existing configuration, or an empty one if there is none.\<close>

definition existing_config ::
  "'w env \<Rightarrow> ('x, 'k, 'p, 'o, 'l) deps \<Rightarrow> string \<Rightarrow> (File \<Rightarrow> ('w agent, int option) go) \<Rightarrow>
   ('w agent, int option) go" where
  "existing_config env dp configPath k = go_try (Load env (d_yaml dp) configPath) (\<lambda>r. case r of
     Inr existing \<Rightarrow>
       if ag_LogLevel (f_Agent existing) \<noteq> '''' then
         (case ParseLogLevel (d_isprint dp) (ag_LogLevel (f_Agent existing)) of
            Inl e \<Rightarrow> die (''config has invalid '' @ err_text env e) 1
          | Inr _ \<Rightarrow> k existing)
       else k existing
   | Inl e \<Rightarrow>
       if errors_is e (Lib OsNotExist) then k empty_file
       else die (''failed to read existing config: '' @ err_text env e) 1)"

definition enrolled_config :: "enroll_result \<Rightarrow> File \<Rightarrow> File" where
  "enrolled_config result cfg = snd (EnsureDefaults (cfg\<lparr>f_Supabase :=
     \<lparr>sc_ClusterID = en_ClusterID result, sc_RefreshToken = en_RefreshToken result,
      sc_PrivateKey = sc_PrivateKey (f_Supabase cfg)\<rparr>\<rparr>))"

definition manual_lines :: "string list" where
  "manual_lines =
     [''next: add your Proxmox API token to the config file:'', ''  proxmox:'',
      ''    api_url: https://<host>:8006'', ''    api_token_id: user@realm!tokenid'',
      ''    api_token_secret: <uuid>'', ''    verify_tls: false'',
      ''then: systemctl restart proxmoxvue-agent'']"

definition restart_lines :: "string list" where
  "restart_lines = [''  systemctl restart proxmoxvue-agent  (systemd)'',
     ''  or: proxmoxvue-agent --run  (foreground)'']"

text \<open>The ends of a registration: a text, and the exit code 0.\<close>

definition say :: "string list \<Rightarrow> ('w agent, int option) go" where
  "say ts = go_bind (out_lines ts) (\<lambda>_. exit_with 0)"

definition save_prompted ::
  "'w env \<Rightarrow> ('x, 'k, 'p, 'o, 'l) deps \<Rightarrow> string \<Rightarrow> File \<Rightarrow> ('w agent, int option) go" where
  "save_prompted env dp configPath cfg = go_try (Save env (d_yaml dp) configPath cfg) (\<lambda>r. case r of
     Inl e \<Rightarrow> die (''failed to write Proxmox credentials to config: '' @ err_text env e) 1
   | Inr _ \<Rightarrow> say ([nl @ ''Proxmox credentials written to '' @ configPath,
        ''restart the agent to start dispatching commands:''] @ restart_lines))"

text \<open>Credentials are asked for on a terminal only.\<close>

definition ask_credentials ::
  "'w env \<Rightarrow> ('x, 'k, 'p, 'o, 'l) deps \<Rightarrow> string \<Rightarrow> File \<Rightarrow> ('w agent, int option) go" where
  "ask_credentials env dp configPath cfg = go_bind (isStdinTTY env) (\<lambda>tty.
     if tty then
       go_bind (promptProxmoxConfig env cfg) (\<lambda>(changed, cfg').
         if changed then save_prompted env dp configPath cfg' else say manual_lines)
     else say manual_lines)"

text \<open>What follows the upload of the key.\<close>

definition register_finish ::
  "'w env \<Rightarrow> ('x, 'k, 'p, 'o, 'l) deps \<Rightarrow> string \<Rightarrow> enroll_result \<Rightarrow> File \<Rightarrow> ('w agent, int option) go" where
  "register_finish env dp configPath result cfg =
     go_bind (out_lines [''registered cluster '' @ en_ClusterID result @ '' (host '' @ en_HostID result @
        ''), config written to '' @ configPath, '''']) (\<lambda>_.
     if px_APIURL (f_Proxmox cfg) = '''' \<or> px_APITokenSecret (f_Proxmox cfg) = ''''
     then ask_credentials env dp configPath cfg
     else say ([''Proxmox config is ready '' @ dash @ '' restart the agent:''] @ restart_lines))"

text \<open>From the configuration that was written to the end. The client has no \<open>persist\<close> function.\<close>

definition register_upload ::
  "'w env \<Rightarrow> ('x, 'k, 'p, 'o, 'l) deps \<Rightarrow> string \<Rightarrow> string \<Rightarrow> enroll_result \<Rightarrow> string \<Rightarrow> File \<Rightarrow>
   ('w agent, int option) go" where
  "register_upload env dp configPath cachePath result privateKeyB64 cfg =
     go_bind (rc_Load env (NewFetcher cachePath)) (\<lambda>(rc, _).
     go_try (New_sb (d_isprint dp) (SupabaseBaseURL rc) (SupabasePublishableKey rc) (SupabaseRealtimeURL rc)
               (sc_RefreshToken (f_Supabase cfg)) None) (\<lambda>r. case r of
       Inl e \<Rightarrow> die (''build supabase client: '' @ err_text env e) 1
     | Inr sb \<Rightarrow>
       go_try (UploadPublicKey env (d_hpke dp) sb (sc_ClusterID (f_Supabase cfg)) privateKeyB64) (\<lambda>r. case r of
         Inl e \<Rightarrow>
           go_bind (err_lines [''warn: failed to upload public key: '' @ err_text env e,
              ''      cloud-path LXC creates will fail until this succeeds;'',
              ''      run --register or --rotate-key once Supabase is reachable.''])
             (\<lambda>_. register_finish env dp configPath result cfg)
       | Inr _ \<Rightarrow> register_finish env dp configPath result cfg)))"

definition register_flags :: "(string \<times> string) list" where
  "register_flags = [(''config'', ''/etc/proxmoxvue-agent/config.yml''), (''project-ref'', defaultProjectRef),
     (''remote-config-cache'', defaultRemoteCachePath)]"

definition runRegister ::
  "'w env \<Rightarrow> ('x, 'k, 'p, 'o, 'l) deps \<Rightarrow> string list \<Rightarrow> ('w agent, int option) go" where
  "runRegister env dp args = (case parse_flags register_flags args of
     FlagExit code \<Rightarrow> exit_with code
   | Parsed vals [] \<Rightarrow> die ''missing CODE argument'' 2
   | Parsed vals (code # _) \<Rightarrow>
     (let configPath = flag_value vals ''config'' in
      go_try (enroll_Run env code (flag_value vals ''project-ref'')) (\<lambda>r. case r of
        Inl e \<Rightarrow> die (''enrollment failed: '' @ err_text env e) 1
      | Inr result \<Rightarrow>
        existing_config env dp configPath (\<lambda>existing.
        (let cfg = enrolled_config result existing in
         go_try (Save env (d_yaml dp) configPath cfg) (\<lambda>r. case r of
           Inl e \<Rightarrow> die (''failed to write config: '' @ err_text env e) 1
         | Inr _ \<Rightarrow>
           go_try (EnsurePrivateKey env (d_yaml dp) (d_hpke dp) (d_gen dp) cfg configPath) (\<lambda>r. case r of
             Inl e \<Rightarrow> die (''failed to ensure keypair: '' @ err_text env e) 1
           | Inr (privateKeyB64, _, cfg') \<Rightarrow>
             register_upload env dp configPath (flag_value vals ''remote-config-cache'') result privateKeyB64 cfg')))))))"

section \<open>--rotate-key\<close>

definition runRotateKey ::
  "'w env \<Rightarrow> ('x, 'k, 'p, 'o, 'l) deps \<Rightarrow> string list \<Rightarrow> ('w agent, int option) go" where
  "runRotateKey env dp args = (case parse_flags run_flags args of
     FlagExit code \<Rightarrow> exit_with code
   | Parsed vals _ \<Rightarrow>
     (let configPath = flag_value vals ''config'' in
      go_try (Load env (d_yaml dp) configPath) (\<lambda>r. case r of
        Inl e \<Rightarrow> die (''failed to load config: '' @ err_text env e) 1
      | Inr cfg \<Rightarrow>
        if sc_ClusterID (f_Supabase cfg) = '''' \<or> sc_RefreshToken (f_Supabase cfg) = '''' then
          die (''config is missing Supabase enrollment fields '' @ dash @ '' run --register first'') 1
        else
          go_bind (rc_Load env (NewFetcher (flag_value vals ''remote-config-cache''))) (\<lambda>(rc, _).
          go_try (New_sb (d_isprint dp) (SupabaseBaseURL rc) (SupabasePublishableKey rc) (SupabaseRealtimeURL rc)
                    (sc_RefreshToken (f_Supabase cfg)) None) (\<lambda>r. case r of
            Inl e \<Rightarrow> die (''build supabase client: '' @ err_text env e) 1
          | Inr sb \<Rightarrow>
            go_try (RotateKey env (d_yaml dp) (d_hpke dp) (d_gen dp) cfg configPath sb) (\<lambda>r. case r of
              Inl e \<Rightarrow> die (''rotate-key failed: '' @ err_text env e) 1
            | Inr _ \<Rightarrow>
              go_bind (out_lines [''rotated HPKE keypair, public key uploaded to cluster'',
                 ''restart the agent to pick up the new private key:'',
                 ''  systemctl restart proxmoxvue-agent'']) (\<lambda>_. exit_with 0)))))))"

section \<open>main\<close>

definition agent_main ::
  "'w env \<Rightarrow> ('x, 'k, 'p, 'o, 'l) deps \<Rightarrow> string list \<Rightarrow> wakeup list \<Rightarrow> ('w agent, int option) go" where
  "agent_main env dp osArgs ws = (case osArgs of
     prog # cmd # args \<Rightarrow>
       if cmd = ''--register'' \<or> cmd = ''register'' then runRegister env dp args
       else if cmd = ''--rotate-key'' \<or> cmd = ''rotate-key'' then runRotateKey env dp args
       else if cmd = ''--run'' \<or> cmd = ''run'' then runAgent env dp args ws
       else if cmd = ''--version'' \<or> cmd = ''version'' then
         go_bind (outln (''proxmoxvue-agent '' @ d_version dp)) (\<lambda>_. exit_with 0)
       else if cmd = ''--help'' \<or> cmd = ''-h'' \<or> cmd = ''help'' then
         go_bind printUsage (\<lambda>_. exit_with 0)
       else
         go_bind (errln (''unknown command: '' @ cmd @ nl)) (\<lambda>_.
         go_bind printUsage (\<lambda>_. exit_with 2))
   | _ \<Rightarrow> go_bind printUsage (\<lambda>_. exit_with 2))"


section \<open>A client that cannot persist never gets a token\<close>

definition sb_post :: "event \<Rightarrow> bool" where
  "sb_post e \<longleftrightarrow> (\<forall>rq. e = Sb rq \<longrightarrow> rq_method rq = ''POST'')"

lemma sb_post_simps [simp]:
  "sb_post (Stdout t)" "sb_post (Stderr t)" "sb_post (FsWrite p)" "sb_post (FsRename p p')" "sb_post (FsTemp p)"
  "sb_post (FsChmod p)" "sb_post (FsRemove p)" "sb_post (Fetch rq)" "sb_post (Enroll rq)" "sb_post (Pve rq)"
  "sb_post (Sb rq) \<longleftrightarrow> rq_method rq = ''POST''"
  by (auto simp: sb_post_def)

lemma refresh_None_fails: "persist c = None \<Longrightarrow> refresh env c s = (r, t) \<Longrightarrow> r \<noteq> Ok tok"
  by (auto elim: refresh_Ok_cases)

lemma refresh_None_posts: "persist c = None \<Longrightarrow> changes (adds sb_post) (refresh env c)"
  by (rule refresh_adds)
    (auto simp: file_persist_def refresh_request_def file_event_def sb_post_def split: event.splits)

text \<open>What a request of such a client, without an access token, comes to: a refresh that fails.\<close>

lemma with_token_None:
  assumes "persist c = None" "sb_access s = ''''" "with_token env c rq s = (r, t)"
  shows "(\<forall>x. r \<noteq> Ok x) \<and> adds sb_post s t"
proof -
  have "access env c s = refresh env c s" using assms(2) by (simp add: access_def)
  moreover obtain r1 u where r: "refresh env c s = (r1, u)" by force
  moreover have "\<forall>tok. r1 \<noteq> Ok tok" using refresh_None_fails [OF assms(1) r] by blast
  moreover have "adds sb_post s u" using refresh_None_posts [OF assms(1)] r by (rule changesD)
  ultimately show ?thesis
    using assms(3) by (cases r1) (auto simp: with_token_def go_simps)
qed


lemma UploadPublicKey_None:
  assumes "persist sb = None" "sb_access s = ''''" "UploadPublicKey env lib sb cluster k s = (r, t)"
  shows "r \<noteq> Ok () \<and> adds sb_post s t"
proof -
  have p: "r1 \<noteq> Ok () \<and> adds sb_post u t1" if "patchRow env sb path body u = (r1, t1)" "sb_access u = ''''"
    for path body u r1 t1
  proof -
    obtain r2 t2 where w: "with_token env sb (patch_request sb path body ''return=minimal'') u = (r2, t2)" by force
    from with_token_None [OF assms(1) that(2) w] that(1) w show ?thesis
      by (cases r2) (auto simp: patchRow_def patchWithAuth_def go_simps)
  qed
  have not_ok: "sb_access u = '''' \<Longrightarrow> patchRow env sb path body u \<noteq> (Ok (), t1)" for path body u t1
    using p by blast
  have added: "patchRow env sb path body u = (r1, t1) \<Longrightarrow> sb_access u = '''' \<Longrightarrow> adds sb_post u t1"
    for path body u r1 t1
    using p by blast
  show ?thesis
    using assms(2,3)
    by (auto dest: added not_ok intro: adds.R_refl simp: UploadPublicKey_def UploadClusterPublicKey_def marshal_def go_simps go_bind_def go_wrap_def
        split: sum.splits option.splits outcome.splits prod.splits)
qed


section \<open>What the parts of a command add to the log\<close>

text \<open>Events of the programs's own output, of its files and of the other two services.\<close>

lemma outputs_add [go_effect]:
  "P (Stdout t) \<Longrightarrow> changes (adds P) (out t)" "P (Stderr t) \<Longrightarrow> changes (adds P) (err_out t)"
  by (auto simp: changes_def adds_def out_def err_out_def go_modify_def)

lemma in_order_adds: "(\<And>m. m \<in> set ms \<Longrightarrow> changes (adds P) m) \<Longrightarrow> changes (adds P) (in_order ms)"
  by (induction ms) (auto intro!: adds.combinators)

lemma messages_post:
  "changes (adds sb_post) (outln t)" "changes (adds sb_post) (errln t)"
  "changes (adds sb_post) (out_lines ts)" "changes (adds sb_post) (err_lines ts)"
  "changes (adds sb_post) (die t code)" "changes (adds sb_post) (exit_with code)"
  by (auto simp: outln_def errln_def out_lines_def err_lines_def die_def exit_with_def
      intro!: adds.combinators outputs_add in_order_adds)

lemma files_post:
  "changes (adds sb_post) (Load env y p)" "changes (adds sb_post) (Save env y p f)"
  "changes (adds sb_post) (EnsurePrivateKey env y lib gen cfg p)"
proof -
  show s: "changes (adds sb_post) (Save env y p f)" for f
    unfolding Save_def by (auto split: sum.splits intro!: adds.combinators logged_files)
  show "changes (adds sb_post) (Load env y p)"
    unfolding Load_def by (auto split: sum.splits intro!: adds.combinators quiet_files)
  show "changes (adds sb_post) (EnsurePrivateKey env y lib gen cfg p)"
    unfolding EnsurePrivateKey_def by (auto simp: Let_def split: sum.splits intro!: adds.combinators s)
qed

lemma services_post:
  "changes (adds sb_post) (rc_Load env f)" "changes (adds sb_post) (enroll_Run env code ref)"
proof -
  have fetch: "changes (adds sb_post) (fetchLive env f)"
    unfolding fetchLive_def by (auto simp: Let_def split: http_outcome.splits sum.splits intro!: adds.combinators adds_http)
  have cache: "changes (adds sb_post) (writeCache env f cfg)" "changes (adds sb_post) (readCache env f)" for cfg
    unfolding writeCache_def readCache_def
    by (auto split: option.splits sum.splits intro!: adds.combinators logged_files quiet_files)
  show "changes (adds sb_post) (rc_Load env f)"
    unfolding rc_Load_def by (auto split: sum.splits intro!: adds.combinators fetch cache)
  have m: "changes (adds sb_post) (marshal ctx v)" for ctx v
    unfolding marshal_def by (auto split: option.splits intro!: adds.combinators)
  show "changes (adds sb_post) (enroll_Run env code ref)"
    unfolding enroll_Run_def enroll_answer_def
    by (auto split: http_outcome.splits sum.splits intro!: adds.combinators adds_http m)
qed

lemma prompts_post:
  "changes (adds sb_post) (isStdinTTY env)" "changes (adds sb_post) (promptProxmoxConfig env cfg)"
proof -
  show "changes (adds sb_post) (isStdinTTY env)"
    by (auto simp: changes_def adds_def isStdinTTY_def split: prod.splits)
  have r: "changes (adds sb_post) (read_string env)"
    by (auto simp: changes_def adds_def read_string_def split: prod.splits)
  have l: "changes (adds sb_post) (readLine env t)" for t
    unfolding readLine_def by (auto intro!: adds.combinators outputs_add r)
  have a: "changes (adds sb_post) (ask_field env t field upd st)" for t field upd st
    unfolding ask_field_def by (auto split: prod.splits intro!: adds.combinators l)
  show "changes (adds sb_post) (promptProxmoxConfig env cfg)"
    unfolding promptProxmoxConfig_def by (auto intro!: adds.combinators messages_post a l)
qed

lemma New_sb_Ok:
  "New_sb isprint base key rt tok per s = (Ok sb, t) \<Longrightarrow> persist sb = per \<and> sb_access t = '''' \<and> log t = log s \<and> fs t = fs s"
  by (auto simp: New_sb_def Let_def split: sum.splits if_splits option.splits)

lemma New_sb_post: "changes (adds sb_post) (New_sb isprint base key rt tok per)"
  by (auto simp: changes_def adds_def New_sb_def Let_def split: sum.splits if_splits option.splits)

lemma finish_post: "changes (adds sb_post) (register_finish env dp path result cfg)"
  unfolding register_finish_def ask_credentials_def save_prompted_def say_def
  by (auto simp: Let_def split: sum.splits intro!: adds.combinators messages_post files_post prompts_post)


section \<open>The key never reaches the backend\<close>

text \<open>The part of a command after its client was made, for a call that the client never completes.\<close>

lemma after_New_sb:
  assumes "go_try (New_sb isprint base key rt tok None) f s = (r, t)"
    and "\<And>e u. f (Inl e) u = (r, t) \<Longrightarrow> log u = log s \<Longrightarrow> Q"
    and "\<And>sb u. persist sb = None \<Longrightarrow> sb_access u = '''' \<Longrightarrow> log u = log s \<Longrightarrow> f (Inr sb) u = (r, t) \<Longrightarrow> Q"
  shows Q
proof -
  obtain r1 u where n: "New_sb isprint base key rt tok None s = (r1, u)" by force
  then have "log u = log s" "returned r1"
    by (auto simp: New_sb_def Let_def split: sum.splits if_splits option.splits)
  with assms n New_sb_Ok [of isprint base key rt tok None s _ u] show Q
    by (cases r1) (auto simp: go_simps)
qed

lemma log_adds: "log u = log s \<Longrightarrow> adds P u t \<Longrightarrow> adds P s t"
  by (simp add: adds_def)

lemma register_upload_post:
  "changes (adds sb_post) (register_upload env dp path cache result k cfg)"
proof -
  have sb: "changes (adds sb_post) (\<lambda>s. go_try (New_sb isprint base key rt tok None) (\<lambda>r. case r of
       Inl e \<Rightarrow> die (m e) 1
     | Inr sb \<Rightarrow>
       go_try (UploadPublicKey env lib sb cluster k) (\<lambda>r. case r of
         Inl e \<Rightarrow> go_bind (err_lines (ts e)) (\<lambda>_. register_finish env dp path result cfg)
       | Inr _ \<Rightarrow> register_finish env dp path result cfg)) s)"
    for isprint base key rt tok m lib cluster ts
  proof (rule changesI)
    fix s :: "'a agent"
    let ?after = "\<lambda>r. case r of Inl e \<Rightarrow> go_bind (err_lines (ts e)) (\<lambda>_. register_finish env dp path result cfg)
       | Inr _ \<Rightarrow> register_finish env dp path result cfg"
    let ?f = "\<lambda>r. case r of Inl e \<Rightarrow> die (m e) 1 | Inr sb \<Rightarrow> go_try (UploadPublicKey env lib sb cluster k) ?after"
    have after: "changes (adds sb_post) (?after r)" for r
      by (auto split: sum.splits intro!: adds.combinators messages_post finish_post)
    obtain r t where run: "go_try (New_sb isprint base key rt tok None) ?f s = (r, t)" by force
    then have "adds sb_post s t"
    proof (rule after_New_sb)
      fix e u assume "?f (Inl e) u = (r, t)" "log u = log s"
      then show ?thesis using log_adds changesD [OF messages_post(5)] by (metis sum.simps(5))
    next
      fix sb :: "'a sb_client" and u
      assume c: "persist sb = None" "sb_access u = ''''" "log u = log s" "?f (Inr sb) u = (r, t)"
      obtain r1 v where up: "UploadPublicKey env lib sb cluster k u = (r1, v)" by force
      from UploadPublicKey_None [OF c(1,2) up] have "adds sb_post u v" by blast
      moreover have "adds sb_post v t"
      proof (cases r1)
        case (Ok x)
        with c(4) up have "?after (Inr x) v = (r, t)" by (simp add: go_simps)
        with after show ?thesis by (rule changesD)
      next
        case (Fail e)
        with c(4) up have "?after (Inl e) v = (r, t)" by (simp add: go_simps)
        with after show ?thesis by (rule changesD)
      qed (use c(4) up in \<open>auto simp: go_simps adds.R_refl\<close>)
      ultimately show ?thesis using adds.R_trans log_adds c(3) by blast
    qed
    with run show "adds sb_post s (snd (go_try (New_sb isprint base key rt tok None) ?f s))" by simp
  qed
  show ?thesis
    unfolding register_upload_def by (auto intro!: adds.bind services_post sb)
qed

text \<open>
  Claim C37: enrolling a host sends nothing to Supabase but POST requests of the token endpoint: the
  client is built without a function that persists tokens, so it never gets an access token and the
  PATCH with the public key is never sent, however the services answer.
\<close>

theorem register_never_uploads:
  "\<exists>es. log (snd (runRegister env dp args s)) = log s @ es \<and>
     {rq_method rq | rq. Sb rq \<in> set es} \<subseteq> {''POST''}"
proof -
  have existing: "changes (adds sb_post) (existing_config env dp path k)" if "\<And>cfg. changes (adds sb_post) (k cfg)" for path k
    unfolding existing_config_def
    by (auto split: sum.splits intro!: adds.combinators messages_post files_post that)
  have "changes (adds sb_post) (runRegister env dp args)"
    unfolding runRegister_def
    by (auto simp: Let_def split: flags.splits list.splits sum.splits prod.splits
        intro!: adds.combinators messages_post files_post services_post register_upload_post existing)
  then have "adds sb_post s (snd (runRegister env dp args s))" by (simp add: changes_def)
  then show ?thesis unfolding adds_def by (fastforce simp: list_all_iff sb_post_def)
qed

lemma Save_keeps: "Save env y p f s = (r, t) \<Longrightarrow> sb_access t = sb_access s"
  by (auto simp: Save_def go_wrap_def go_fail_def WriteFile_def
      split: sum.splits prod.splits option.splits outcome.splits)

lemma RotateKey_None:
  assumes "persist sb = None" "sb_access s = ''''"
  shows "RotateKey env y lib gen cfg path sb s \<noteq> (Ok x, t)"
proof
  assume "RotateKey env y lib gen cfg path sb s = (Ok x, t)"
  then obtain k u where "sb_access u = ''''" "UploadPublicKey env lib sb (sc_ClusterID (f_Supabase cfg)) k u = (Ok (), t)"
    using assms(2)
    by (auto simp: RotateKey_def Let_def split: sum.splits prod.splits elim!: go_bind_OkE go_wrap_OkE
        dest!: Save_keeps)
  with UploadPublicKey_None [OF assms(1)] show False by blast
qed

lemma die_not_0: "die t 1 s \<noteq> (Ok (Some 0), u)"
  by (simp add: die_def exit_with_def errln_def err_out_def go_bind_def go_modify_def)

text \<open>
  Claim C38: rotating the key never succeeds: the only way to the exit code 0 is to ask for help.
\<close>

theorem rotate_never_succeeds:
  "fst (runRotateKey env dp args s) = Ok (Some 0) \<longleftrightarrow> parse_flags run_flags args = FlagExit 0"
proof
  assume "parse_flags run_flags args = FlagExit 0"
  then show "fst (runRotateKey env dp args s) = Ok (Some 0)" by (simp add: runRotateKey_def exit_with_def go_defs)
next
  assume ok: "fst (runRotateKey env dp args s) = Ok (Some 0)"
  show "parse_flags run_flags args = FlagExit 0"
  proof (cases "parse_flags run_flags args")
    case (FlagExit code)
    with ok show ?thesis by (simp add: runRotateKey_def exit_with_def go_defs)
  next
    case (Parsed vals rest)
    obtain t where "runRotateKey env dp args s = (Ok (Some 0), t)" using ok by (metis prod.collapse)
    with Parsed have False
      unfolding runRotateKey_def Let_def
      by (auto simp: go_try_def [of "Load env y p" for env y p] die_not_0 RotateKey_None
          split: outcome.splits prod.splits if_splits elim!: go_bind_OkE after_New_sb)
         (auto simp: go_try_def die_not_0 RotateKey_None split: outcome.splits prod.splits)
    then show ?thesis ..
  qed
qed


section \<open>What a registration leaves in the file\<close>

lemma go_try_OkE:
  assumes "go_try m f s = (Ok b, t)"
  obtains (ok) a u where "m s = (Ok a, u)" "f (Inr a) u = (Ok b, t)"
    | (failed) e u where "m s = (Fail e, u)" "f (Inl e) u = (Ok b, t)"
  using assms by (auto simp: go_try_def split: outcome.splits prod.splits)

text \<open>Fields that were filled in are kept, and without a fresh start so is the choice about TLS.\<close>

definition credentials_kept :: "ProxmoxConfig \<Rightarrow> ProxmoxConfig \<Rightarrow> bool" where
  "credentials_kept p q \<longleftrightarrow>
     (px_APIURL p \<noteq> '''' \<longrightarrow> px_APIURL q = px_APIURL p) \<and>
     (px_APITokenID p \<noteq> '''' \<longrightarrow> px_APITokenID q = px_APITokenID p) \<and>
     (px_APITokenSecret p \<noteq> '''' \<longrightarrow> px_APITokenSecret q = px_APITokenSecret p) \<and>
     (px_APIURL p \<noteq> '''' \<or> px_APITokenID p \<noteq> '''' \<or> px_APITokenSecret p \<noteq> '''' \<longrightarrow>
        px_VerifyTLS q = px_VerifyTLS p)"

lemma credentials_kept_refl [simp]: "credentials_kept p p"
  by (simp add: credentials_kept_def)

definition same_fs :: "'w agent \<Rightarrow> 'w agent \<Rightarrow> bool" where
  "same_fs s t \<longleftrightarrow> fs t = fs s"

interpretation same_fs: effect same_fs
  by unfold_locales (auto simp: same_fs_def)

lemma same_fs_outputs:
  "changes same_fs (outln t)" "changes same_fs (errln t)" "changes same_fs (out_lines ts)" "changes same_fs (err_lines ts)"
  "changes same_fs (die t code)" "changes same_fs (exit_with code)" "changes same_fs (isStdinTTY env)"
proof -
  have o: "changes same_fs (out t)" "changes same_fs (err_out t)" for t
    by (auto simp: changes_def same_fs_def out_def err_out_def go_modify_def)
  have l: "(\<And>m. m \<in> set ms \<Longrightarrow> changes same_fs m) \<Longrightarrow> changes same_fs (in_order ms)"
    for ms :: "('w agent, unit) go list"
    by (induction ms) (auto intro!: same_fs.combinators)
  show "changes same_fs (outln t)" "changes same_fs (errln t)" "changes same_fs (out_lines ts)" "changes same_fs (err_lines ts)"
    "changes same_fs (die t code)" "changes same_fs (exit_with code)"
    by (auto simp: outln_def errln_def out_lines_def err_lines_def die_def exit_with_def
        intro!: same_fs.combinators o l)
  show "changes same_fs (isStdinTTY env)"
    by (auto simp: changes_def same_fs_def isStdinTTY_def split: prod.splits)
qed

lemma readLine_fs: "changes same_fs (readLine env t)"
proof -
  have "changes same_fs (out t)" "changes same_fs (read_string env)"
    by (auto simp: changes_def same_fs_def out_def go_modify_def read_string_def split: prod.splits)
  then show ?thesis unfolding readLine_def by (auto intro!: same_fs.combinators)
qed

lemma ask_field_fs: "changes same_fs (ask_field env t field upd st)"
  unfolding ask_field_def by (auto split: prod.splits intro!: same_fs.combinators readLine_fs)

lemma prompt_fs: "changes same_fs (promptProxmoxConfig env cfg)"
  unfolding promptProxmoxConfig_def
  by (auto intro!: same_fs.combinators same_fs_outputs ask_field_fs readLine_fs)

lemma ask_field_Ok:
  assumes "ask_field env t field upd (ch, cfg) s = (Ok (ch', cfg'), u)"
  shows "(cfg' = cfg \<and> ch' = ch) \<or>
    (\<exists>v. field (f_Proxmox cfg) = '''' \<and> ch' \<and> cfg' = cfg\<lparr>f_Proxmox := upd v (f_Proxmox cfg)\<rparr>)"
  using assms by (auto simp: ask_field_def split: if_splits elim!: go_bind_OkE)

lemma prompt_Ok:
  assumes "promptProxmoxConfig env cfg s = (Ok (ch, cfg'), t)"
  shows "f_Supabase cfg' = f_Supabase cfg \<and> f_Agent cfg' = f_Agent cfg \<and>
    credentials_kept (f_Proxmox cfg) (f_Proxmox cfg')"
proof -
  from assms obtain c1 ch1 c2 ch2 c3 ch3 s1 s2 s3 s4 where
    a: "ask_field env ''  api_url (e.g. https://pve.example.com:8006): '' px_APIURL
        (\<lambda>v p. p\<lparr>px_APIURL := v\<rparr>) (False, cfg) s1 = (Ok (ch1, c1), s2)"
    and b: "ask_field env ''  api_token_id (e.g. root@pam!claude): '' px_APITokenID
        (\<lambda>v p. p\<lparr>px_APITokenID := v\<rparr>) (ch1, c1) s2 = (Ok (ch2, c2), s3)"
    and c: "ask_field env ''  api_token_secret (uuid): '' px_APITokenSecret
        (\<lambda>v p. p\<lparr>px_APITokenSecret := v\<rparr>) (ch2, c2) s3 = (Ok (ch3, c3), s4)"
    and rest: "(if fresh_install cfg \<and> ch3 then
       go_bind (readLine env ''  verify_tls (y/N) [N for self-signed homelab certs]: '') (\<lambda>v.
         go_return (ch3, c3\<lparr>f_Proxmox := (f_Proxmox c3)
           \<lparr>px_VerifyTLS := to_lower v = ''y'' \<or> to_lower v = ''yes''\<rparr>\<rparr>))
     else go_return (ch3, c3)) s4 = (Ok (ch, cfg'), t)"
    unfolding promptProxmoxConfig_def by (elim go_bind_OkE) (auto split: prod.splits)
  from rest have d: "cfg' = c3 \<or> fresh_install cfg \<and> (\<exists>b. cfg' = c3\<lparr>f_Proxmox := (f_Proxmox c3)\<lparr>px_VerifyTLS := b\<rparr>\<rparr>)"
    by (auto split: if_splits elim!: go_bind_OkE)
  from ask_field_Ok [OF a] ask_field_Ok [OF b] ask_field_Ok [OF c] d show ?thesis
    unfolding credentials_kept_def fresh_install_def by (elim disjE exE conjE) simp_all
qed


text \<open>Without a \<open>persist\<close> function the client touches no file.\<close>

definition no_files :: "'w sb_client \<Rightarrow> 'w agent \<Rightarrow> 'w agent \<Rightarrow> bool" where
  "no_files c s t \<longleftrightarrow> (persist c = None \<longrightarrow> fs t = fs s)"

interpretation no_files: sb_effect "no_files c" env c
  for env :: "'w env" and c :: "'w sb_client"
  by unfold_locales
    (auto simp: no_files_def changes_def http_send_def now_val_def split: prod.splits)

lemma UploadPublicKey_fs: "persist c = None \<Longrightarrow> UploadPublicKey env lib c cluster k s = (r, t) \<Longrightarrow> fs t = fs s"
proof -
  have "changes (no_files c) (UploadPublicKey env lib c cluster k)"
    unfolding UploadPublicKey_def
    by (auto split: sum.splits intro!: no_files.combinators no_files.ops_R)
  then show "persist c = None \<Longrightarrow> UploadPublicKey env lib c cluster k s = (r, t) \<Longrightarrow> fs t = fs s"
    by (auto dest!: changesD simp: no_files_def)
qed

lemma enroll_fs: "changes same_fs (enroll_Run env code ref)"
proof -
  have "changes same_fs (http_send env Enroll rq)" "changes same_fs (marshal ctx v)" for rq ctx v
    by (auto simp: changes_def same_fs_def http_send_def marshal_def go_defs split: prod.splits option.splits)
  then show ?thesis
    unfolding enroll_Run_def enroll_answer_def
    by (auto split: http_outcome.splits sum.splits intro!: same_fs.combinators)
qed

text \<open>Loading the remote configuration writes its cache and the temporary file of it only.\<close>

lemma rc_Load_files:
  assumes "CachePath f \<notin> A" "cache_tmp f \<notin> A"
  shows "changes (keeps_files A) (rc_Load env f)"
proof -
  have "changes (keeps_files A) (http_send env Fetch rq)" for rq
    by (auto simp: changes_def keeps_files_def http_send_def split: prod.splits)
  then have fetch: "changes (keeps_files A) (fetchLive env f)"
    unfolding fetchLive_def
    by (auto simp: Let_def split: http_outcome.splits sum.splits intro!: keeps_files.combinators)
  have cache: "changes (keeps_files A) (writeCache env f cfg)" "changes (keeps_files A) (readCache env f)" for cfg
    unfolding writeCache_def readCache_def
    by (auto split: option.splits sum.splits intro!: keeps_files.combinators keeps_files_ops assms)
  show ?thesis
    unfolding rc_Load_def by (auto split: sum.splits intro!: keeps_files.combinators fetch cache)
qed

text \<open>
  The file holds a configuration that \<open>cfg\<close> was completed to: same identity and settings, no
  credential lost.
\<close>

definition completed :: "'x yaml \<Rightarrow> string \<Rightarrow> File \<Rightarrow> 'w agent \<Rightarrow> bool" where
  "completed y path cfg s \<longleftrightarrow> (\<exists>cfg' data. fs s path = Some data \<and> saved y cfg' = Some data \<and>
     f_Supabase cfg' = f_Supabase cfg \<and> f_Agent cfg' = f_Agent cfg \<and>
     credentials_kept (f_Proxmox cfg) (f_Proxmox cfg'))"

lemma completed_same: "changes same_fs m \<Longrightarrow> m s = (r, t) \<Longrightarrow> completed y path cfg s \<Longrightarrow> completed y path cfg t"
  by (auto simp: completed_def same_fs_def dest!: changesD)

lemma say_fs: "changes same_fs (say ts)"
  unfolding say_def by (auto intro!: same_fs.combinators same_fs_outputs)

lemma save_prompted_Ok:
  assumes "save_prompted env dp path cfg' s = (Ok (Some 0), t)" "f_Supabase cfg' = f_Supabase cfg"
    "f_Agent cfg' = f_Agent cfg" "credentials_kept (f_Proxmox cfg) (f_Proxmox cfg')"
  shows "completed (d_yaml dp) path cfg t"
proof -
  from assms(1) obtain u ts where "Save env (d_yaml dp) path cfg' s = (Ok (), u)" "say ts u = (Ok (Some 0), t)"
    unfolding save_prompted_def using die_not_0 by (elim go_try_OkE) auto
  moreover from Save_Ok [OF this(1)] assms(2-4) have "completed (d_yaml dp) path cfg u"
    by (auto simp: completed_def)
  ultimately show ?thesis using completed_same [OF say_fs] by blast
qed

lemma ask_credentials_Ok:
  assumes "ask_credentials env dp path cfg s = (Ok (Some 0), t)" "completed (d_yaml dp) path cfg s"
  shows "completed (d_yaml dp) path cfg t"
proof -
  from assms(1) obtain tty u where tty: "isStdinTTY env s = (Ok tty, u)"
    and rest: "(if tty then go_bind (promptProxmoxConfig env cfg) (\<lambda>(changed, cfg').
         if changed then save_prompted env dp path cfg' else say manual_lines)
       else say manual_lines) u = (Ok (Some 0), t)"
    unfolding ask_credentials_def by (elim go_bind_OkE)
  have u: "completed (d_yaml dp) path cfg u" by (rule completed_same [OF same_fs_outputs(7) tty assms(2)])
  show ?thesis
  proof (cases tty)
    case True
    with rest obtain ch cfg' v where p: "promptProxmoxConfig env cfg u = (Ok (ch, cfg'), v)"
      and fin: "(if ch then save_prompted env dp path cfg' else say manual_lines) v = (Ok (Some 0), t)"
      by (auto elim!: go_bind_OkE)
    have "completed (d_yaml dp) path cfg v" by (rule completed_same [OF prompt_fs p u])
    then show ?thesis
      using fin prompt_Ok [OF p] completed_same [OF say_fs] save_prompted_Ok by (cases ch) auto
  qed (use rest u completed_same [OF say_fs] in auto)
qed

lemma finish_Ok:
  assumes "register_finish env dp path result cfg s = (Ok (Some 0), t)" "completed (d_yaml dp) path cfg s"
  shows "completed (d_yaml dp) path cfg t"
proof -
  from assms(1) obtain ts x u where o: "out_lines ts s = (Ok x, u)"
    and r: "(if px_APIURL (f_Proxmox cfg) = '''' \<or> px_APITokenSecret (f_Proxmox cfg) = ''''
       then ask_credentials env dp path cfg
       else say ([''Proxmox config is ready '' @ dash @ '' restart the agent:''] @ restart_lines)) u = (Ok (Some 0), t)"
    unfolding register_finish_def by (elim go_bind_OkE)
  have u: "completed (d_yaml dp) path cfg u" by (rule completed_same [OF same_fs_outputs(3) o assms(2)])
  show ?thesis
    using r by (split if_split_asm) (blast intro: ask_credentials_Ok [OF _ u] completed_same [OF say_fs _ u])+
qed


text \<open>Only a file that is not there is reported as not there.\<close>

definition honest_files :: "'w env \<Rightarrow> 'x yaml \<Rightarrow> string \<Rightarrow> bool" where
  "honest_files env y path \<longleftrightarrow> (\<forall>w. fst (env_read env path w) \<noteq> Some OsNotExist) \<and>
     (\<forall>d. y_unmarshal y d \<noteq> Inl OsNotExist)"

lemma Load_not_exist:
  assumes "honest_files env y path" "Load env y path s = (Fail e, t)" "errors_is e (Lib OsNotExist)"
  shows "fs s path = None"
proof (rule ccontr)
  assume "fs s path \<noteq> None"
  then obtain d where d: "fs s path = Some d" by blast
  obtain r w where r: "env_read env path (ext s) = (r, w)" by force
  with assms(1) have "r \<noteq> Some OsNotExist" unfolding honest_files_def by (metis fst_conv)
  moreover have "y_unmarshal y d \<noteq> Inl OsNotExist" using assms(1) by (simp add: honest_files_def)
  ultimately show False
    using assms(2,3) d r
    by (cases r) (auto simp: Load_def ReadFile_def go_bind_def go_wrap_def go_defs split: sum.splits)
qed

lemma existing_Ok:
  assumes "honest_files env (d_yaml dp) path" "existing_config env dp path k s = (Ok (Some 0), t)"
  obtains existing u where "k existing u = (Ok (Some 0), t)" "fs u = fs s"
    "case fs s path of None \<Rightarrow> existing = empty_file | Some d \<Rightarrow> y_unmarshal (d_yaml dp) d = Inr existing"
  using assms(2) unfolding existing_config_def
proof (cases rule: go_try_OkE)
  case (ok cfg u)
  from ok(2) die_not_0 have "k cfg u = (Ok (Some 0), t)" by (auto split: if_splits sum.splits)
  with that Load_Ok [OF ok(1)] show ?thesis by auto
next
  case (failed e u)
  from failed(2) die_not_0 have "errors_is e (Lib OsNotExist)" "k empty_file u = (Ok (Some 0), t)"
    by (auto split: if_splits)
  with that Load_not_exist [OF assms(1) failed(1)] Load_fs [OF failed(1)] show ?thesis by auto
qed

lemma upload_Ok:
  assumes "register_upload env dp path cache result k cfg s = (Ok (Some 0), t)"
    and "completed (d_yaml dp) path cfg s" "path \<noteq> cache" "path \<noteq> cache @ ''.tmp''"
  shows "completed (d_yaml dp) path cfg t"
proof -
  let ?rest = "\<lambda>rc. go_try (New_sb (d_isprint dp) (SupabaseBaseURL rc) (SupabasePublishableKey rc) (SupabaseRealtimeURL rc)
               (sc_RefreshToken (f_Supabase cfg)) None) (\<lambda>r. case r of
       Inl e \<Rightarrow> die (''build supabase client: '' @ err_text env e) 1
     | Inr sb \<Rightarrow>
       go_try (UploadPublicKey env (d_hpke dp) sb (sc_ClusterID (f_Supabase cfg)) k) (\<lambda>r. case r of
         Inl e \<Rightarrow>
           go_bind (err_lines [''warn: failed to upload public key: '' @ err_text env e,
              ''      cloud-path LXC creates will fail until this succeeds;'',
              ''      run --register or --rotate-key once Supabase is reachable.''])
             (\<lambda>_. register_finish env dp path result cfg)
       | Inr _ \<Rightarrow> register_finish env dp path result cfg))"
  from assms(1) obtain rc src u where load: "rc_Load env (NewFetcher cache) s = (Ok (rc, src), u)"
    and rest: "?rest rc u = (Ok (Some 0), t)"
    unfolding register_upload_def by (auto elim!: go_bind_OkE)
  have "keeps_files {path} s u"
    by (rule changesD [OF rc_Load_files load]) (use assms(3,4) in \<open>auto simp: NewFetcher_def cache_tmp_def\<close>)
  with assms(2) have u: "completed (d_yaml dp) path cfg u" by (simp add: completed_def keeps_files_def)
  from rest obtain sb v where n: "New_sb (d_isprint dp) (SupabaseBaseURL rc) (SupabasePublishableKey rc)
      (SupabaseRealtimeURL rc) (sc_RefreshToken (f_Supabase cfg)) None u = (Ok sb, v)"
    and up: "go_try (UploadPublicKey env (d_hpke dp) sb (sc_ClusterID (f_Supabase cfg)) k) (\<lambda>r. case r of
         Inl e \<Rightarrow>
           go_bind (err_lines [''warn: failed to upload public key: '' @ err_text env e,
              ''      cloud-path LXC creates will fail until this succeeds;'',
              ''      run --register or --rotate-key once Supabase is reachable.''])
             (\<lambda>_. register_finish env dp path result cfg)
       | Inr _ \<Rightarrow> register_finish env dp path result cfg) v = (Ok (Some 0), t)"
    by (rule go_try_OkE) (auto simp: die_not_0 simp del: One_nat_def)
  from New_sb_Ok [OF n] u have sb: "persist sb = None" "completed (d_yaml dp) path cfg v"
    by (auto simp: completed_def)
  from up show ?thesis
  proof (cases rule: go_try_OkE)
    case (ok a w)
    have "completed (d_yaml dp) path cfg w"
      using UploadPublicKey_fs [OF sb(1) ok(1)] sb(2) by (simp add: completed_def)
    moreover have "register_finish env dp path result cfg w = (Ok (Some 0), t)" using ok(2) by simp
    ultimately show ?thesis using finish_Ok by blast
  next
    case (failed e w)
    have w: "completed (d_yaml dp) path cfg w"
      using UploadPublicKey_fs [OF sb(1) failed(1)] sb(2) by (simp add: completed_def)
    from failed(2) obtain x ts where "err_lines ts w = (Ok (), x)" "register_finish env dp path result cfg x = (Ok (Some 0), t)"
      by (auto elim!: go_bind_OkE)
    with w show ?thesis using completed_same [OF same_fs_outputs(4)] finish_Ok by blast
  qed
qed

text \<open>
  Claim C12: a registration that ends well leaves a complete configuration file: the new cluster and
  refresh token, the old private key if there was one, the old settings with the defaults filled in,
  and no Proxmox credential lost.
\<close>

theorem runRegister_merges:
  assumes flags: "parse_flags register_flags args = Parsed vals (code # rest)"
    and cache: "flag_value vals ''config'' \<noteq> flag_value vals ''remote-config-cache''"
      "flag_value vals ''config'' \<noteq> flag_value vals ''remote-config-cache'' @ ''.tmp''"
    and honest: "honest_files env (d_yaml dp) (flag_value vals ''config'')"
    and run: "runRegister env dp args s = (Ok (Some 0), t)"
  shows "\<exists>result u existing cfg data. enroll_Run env code (flag_value vals ''project-ref'') s = (Ok result, u) \<and>
    (case fs s (flag_value vals ''config'') of None \<Rightarrow> existing = empty_file
     | Some d \<Rightarrow> y_unmarshal (d_yaml dp) d = Inr existing) \<and>
    fs t (flag_value vals ''config'') = Some data \<and> saved (d_yaml dp) cfg = Some data \<and>
    sc_ClusterID (f_Supabase cfg) = en_ClusterID result \<and> sc_RefreshToken (f_Supabase cfg) = en_RefreshToken result \<and>
    (sc_PrivateKey (f_Supabase existing) \<noteq> '''' \<longrightarrow> sc_PrivateKey (f_Supabase cfg) = sc_PrivateKey (f_Supabase existing)) \<and>
    f_Agent cfg = f_Agent (snd (EnsureDefaults existing)) \<and> credentials_kept (f_Proxmox existing) (f_Proxmox cfg)"
proof -
  let ?p = "flag_value vals ''config''" and ?c = "flag_value vals ''remote-config-cache''"
  let ?k = "\<lambda>result existing. go_try (Save env (d_yaml dp) ?p (enrolled_config result existing)) (\<lambda>r. case r of
           Inl e \<Rightarrow> die (''failed to write config: '' @ err_text env e) 1
         | Inr _ \<Rightarrow>
           go_try (EnsurePrivateKey env (d_yaml dp) (d_hpke dp) (d_gen dp) (enrolled_config result existing) ?p) (\<lambda>r. case r of
             Inl e \<Rightarrow> die (''failed to ensure keypair: '' @ err_text env e) 1
           | Inr (privateKeyB64, _, cfg') \<Rightarrow>
             register_upload env dp ?p ?c result privateKeyB64 cfg'))"
  from run flags obtain result u where en: "enroll_Run env code (flag_value vals ''project-ref'') s = (Ok result, u)"
    and k: "existing_config env dp ?p (?k result) u = (Ok (Some 0), t)"
    unfolding runRegister_def Let_def by (auto simp: die_not_0 elim!: go_try_OkE simp del: One_nat_def)
  have u: "fs u = fs s" using changesD [OF enroll_fs en] by (simp add: same_fs_def)
  from existing_Ok [OF honest k] obtain existing v where v: "?k result existing v = (Ok (Some 0), t)" "fs v = fs u"
    and ex: "case fs u ?p of None \<Rightarrow> existing = empty_file | Some d \<Rightarrow> y_unmarshal (d_yaml dp) d = Inr existing"
    by blast
  note sv = v(1)
  from sv obtain x key gen cfg y where s1: "Save env (d_yaml dp) ?p (enrolled_config result existing) v = (Ok (), x)"
    and s2: "EnsurePrivateKey env (d_yaml dp) (d_hpke dp) (d_gen dp) (enrolled_config result existing) ?p x = (Ok (key, gen, cfg), y)"
    and s3: "register_upload env dp ?p ?c result key cfg y = (Ok (Some 0), t)"
    by (auto simp: die_not_0 elim!: go_try_OkE simp del: One_nat_def)
  from Save_Ok [OF s1] EnsurePrivateKey_Ok [OF s2] obtain data where d: "fs y ?p = Some data" "saved (d_yaml dp) cfg = Some data"
    and cfg: "cfg = enrolled_config result existing \<or>
      sc_PrivateKey (f_Supabase (enrolled_config result existing)) = '''' \<and>
      cfg = set_private_key key (enrolled_config result existing)"
    by (fastforce split: if_splits)
  have y: "completed (d_yaml dp) ?p cfg y" unfolding completed_def using d credentials_kept_refl by blast
  from upload_Ok [OF s3 y cache] have "completed (d_yaml dp) ?p cfg t" .
  then obtain cfg' data where c: "fs t ?p = Some data" "saved (d_yaml dp) cfg' = Some data"
    "f_Supabase cfg' = f_Supabase cfg" "f_Agent cfg' = f_Agent cfg" "credentials_kept (f_Proxmox cfg) (f_Proxmox cfg')"
    by (auto simp: completed_def)
  moreover have "f_Agent cfg = f_Agent (snd (EnsureDefaults existing)) \<and> f_Proxmox cfg = f_Proxmox existing \<and>
     sc_ClusterID (f_Supabase cfg) = en_ClusterID result \<and> sc_RefreshToken (f_Supabase cfg) = en_RefreshToken result \<and>
     (sc_PrivateKey (f_Supabase existing) \<noteq> '''' \<longrightarrow> sc_PrivateKey (f_Supabase cfg) = sc_PrivateKey (f_Supabase existing))"
    using cfg by (auto simp: enrolled_config_def EnsureDefaults_def set_private_key_def Let_def)
  ultimately show ?thesis
    using en ex [unfolded u] by (intro exI [of _ result] exI [of _ u] exI [of _ existing] exI [of _ cfg'] exI [of _ data]) simp
qed

end
