(* ===== verification/Session.thy ===== *)
theory Session
  imports Runtime
begin

text \<open>
  The agent at work: the Supabase client with the \<open>persist\<close> function that \<open>Start\<close> gives it, and the
  things its goroutines do, each without interruption. What happens when they overlap is the subject of
  theory \<open>Goroutines\<close>.
\<close>

section \<open>The persist function of the agent\<close>

definition agent_client :: "'w env \<Rightarrow> 'x yaml \<Rightarrow> string \<Rightarrow> 'w sb_client \<Rightarrow> bool" where
  "agent_client env y path c \<longleftrightarrow> persist c = Some (persistRefreshTo env y path)"

lemma keeps_tokens_files [go_effect]:
  "changes keeps_tokens (ReadFile env p)" "changes keeps_tokens (WriteFile env p d)"
  "changes keeps_tokens (CreateTemp env p d)" "changes keeps_tokens (Chmod env p)"
  "changes keeps_tokens (Rename env p d)" "changes keeps_tokens (Remove env p)"
  by (auto simp: changes_def keeps_tokens_def tokens_def file_ops split: prod.splits option.splits sum.splits)

lemma persist_parts:
  assumes "effect R" "changes R (ReadFile env path)" "\<And>p d. changes R (WriteFile env p d)"
    "\<And>d pat. changes R (CreateTemp env d pat)" "\<And>p. changes R (Chmod env p)"
    "\<And>p q. changes R (Rename env p q)" "\<And>p. changes R (Remove env p)"
  shows "changes R (persistRefreshTo env y path tok)"
proof -
  note parts = effect.combinators [OF assms(1)] assms(2-)
  have lds: "changes R (Load env y path)" "changes R (Save env y p f)" for p f
    unfolding Load_def Save_def by (auto split: sum.splits intro!: parts)
  have remove: "changes R m \<Longrightarrow> changes R (removing_on_error env tmp m)" for tmp m
    unfolding removing_on_error_def by (auto split: sum.splits intro!: parts)
  show ?thesis unfolding persistRefreshTo_def by (intro parts lds remove)
qed

lemma agent_client_persists:
  assumes "agent_client env y path c"
  shows "file_persist c" "persists c"
proof -
  have "changes (adds file_event) (persistRefreshTo env y path tok)" for tok
    by (rule persist_parts)
      (auto simp: file_event_def intro: adds.effect_axioms quiet_files logged_files)
  moreover have "changes keeps_tokens (persistRefreshTo env y path tok)" for tok
    by (rule persist_parts) (intro keeps_tokens.effect_axioms go_effect)+
  ultimately show "file_persist c" "persists c"
    using assms by (auto simp: file_persist_def persists_def agent_client_def)
qed

section \<open>The token on the disk\<close>

text \<open>
  \<open>base\<close> is the configuration but for the token: the file decodes to it with the token that the
  client holds.
\<close>

definition on_disk :: "'x yaml \<Rightarrow> string \<Rightarrow> File \<Rightarrow> 'w agent \<Rightarrow> bool" where
  "on_disk y path base s \<longleftrightarrow>
     (\<exists>data. fs s path = Some data \<and> y_unmarshal y data = Inr (set_refresh_token (sb_refresh s) base))"

definition keeps_disk :: "'w env \<Rightarrow> 'x yaml \<Rightarrow> string \<Rightarrow> File \<Rightarrow> 'w sb_client \<Rightarrow> 'w agent \<Rightarrow> 'w agent \<Rightarrow> bool" where
  "keeps_disk env y path base c s t \<longleftrightarrow>
     (yaml_ok y \<longrightarrow> agent_client env y path c \<longrightarrow> on_disk y path base s \<longrightarrow> on_disk y path base t)"

lemma on_disk_same: "fs t path = fs s path \<Longrightarrow> sb_refresh t = sb_refresh s \<Longrightarrow> on_disk y path base t = on_disk y path base s"
  by (simp add: on_disk_def)

lemma set_refresh_token_twice [simp]: "set_refresh_token a (set_refresh_token b cfg) = set_refresh_token a cfg"
  by (simp add: set_refresh_token_def)

lemma set_refresh_token_self [simp]: "set_refresh_token (sc_RefreshToken (f_Supabase cfg)) cfg = cfg"
  by (simp add: set_refresh_token_def)

lemma persisted_on_disk:
  assumes "yaml_ok y" "persisted y path tok s u" "on_disk y path base s" "fs t = fs u" "sb_refresh t = tok"
  shows "on_disk y path base t"
  using assms(2-) saved_reads [OF assms(1)] by (fastforce simp: persisted_def on_disk_def)

text \<open>The ways of a refresh: \<open>persist\<close> was not called, or it was and its outcome decided.\<close>

lemma refresh_steps:
  assumes "refresh env c s = (r, t)"
  obtains (quiet) "fs t = fs s" "tokens t = tokens s"
    | (called) f u p r' v where "persist c = Some f" "fs u = fs s" "tokens u = tokens s"
        "f (RefreshToken p) u = (r', v)" "if r' = Ok () then store_tokens env p v = (r, t) else t = v"
proof -
  obtain res u where h: "http_send env Sb (refresh_request c (refresh_body (sb_refresh s))) s = (Ok res, u)"
    "fs u = fs s" "tokens u = tokens s"
    by (cases "env_http env (refresh_request c (refresh_body (sb_refresh s))) (ext s)")
      (auto simp: http_send_def tokens_def)
  show thesis
  proof (cases "\<exists>p f. hands_out res \<and> (\<exists>raw. res = Response 200 raw \<and> parse_refresh raw = Inr p) \<and> persist c = Some f")
    case True
    then obtain p f raw where p: "res = Response 200 raw" "parse_refresh raw = Inr p" "persist c = Some f" "hands_out res"
      by blast
    obtain r' v where f: "f (RefreshToken p) u = (r', v)" by force
    from p assms h(1) have "go_bind (go_wrap ''persist rotated refresh token'' (f (RefreshToken p)))
            (\<lambda>_. store_tokens env p) u = (r, t)"
      unfolding refresh_eq by (simp add: go_bind_def [of "http_send env ev rq" for ev rq] refresh_response_def
          hands_out_def call_persist_def)
    with f have "if r' = Ok () then store_tokens env p v = (r, t) else t = v"
      by (cases r') (auto simp: go_bind_def go_wrap_def)
    with called p h f show ?thesis by blast
  next
    case False
    with assms h(1) have "t = u"
      unfolding refresh_eq
      by (auto simp: go_bind_def go_fail_def go_panic_def hands_out_def go_wrap_def refresh_response_def call_persist_def
          split: http_outcome.splits option.splits sum.splits if_splits outcome.splits prod.splits)
    with quiet h show ?thesis by blast
  qed
qed

lemma refresh_keeps_disk: "changes (keeps_disk env y path base c) (refresh env c)"
  unfolding changes_def keeps_disk_def
proof (intro allI impI)
  fix s :: "'a agent" assume y: "yaml_ok y" and c: "agent_client env y path c" and d: "on_disk y path base s"
  obtain r t where r: "refresh env c s = (r, t)" by force
  then have "on_disk y path base t"
  proof (cases rule: refresh_steps)
    case quiet
    with d show ?thesis by (simp add: on_disk_def tokens_def)
  next
    case (called f u p r' v)
    have run: "persistRefreshTo env y path (RefreshToken p) u = (r', v)"
      using called c by (simp add: agent_client_def)
    have u: "on_disk y path base u" using d called by (simp add: on_disk_def tokens_def)
    show ?thesis
    proof (cases "r' = Ok ()")
      case True
      with persist_cases [OF run] have "persisted y path (RefreshToken p) u v" by simp
      moreover have "fs t = fs v" "sb_refresh t = RefreshToken p"
        using store_tokens_result [of env p v r t] called True by auto
      ultimately show ?thesis using persisted_on_disk [OF y _ u] by blast
    next
      case False
      with persist_cases [OF run] called have "fs t path = fs u path" by simp
      moreover have "changes keeps_tokens (persistRefreshTo env y path (RefreshToken p))"
        using agent_client_persists(2) [OF c] c by (simp add: persists_def agent_client_def)
      with changesD [OF this run] False called have "sb_refresh t = sb_refresh u"
        by (simp add: keeps_tokens_def tokens_def)
      ultimately show ?thesis using u by (simp add: on_disk_def)
    qed
  qed
  with r show "on_disk y path base (snd (refresh env c s))" by simp
qed

interpretation keeps_disk: agent_effect "keeps_disk env y path base c" env c
  for env :: "'w env" and y :: "'x yaml" and path base and c :: "'w sb_client"
proof unfold_locales
  fix s t u :: "'w agent" and rq d
  show "keeps_disk env y path base c s s" by (simp add: keeps_disk_def)
  show "keeps_disk env y path base c s t \<Longrightarrow> keeps_disk env y path base c t u \<Longrightarrow> keeps_disk env y path base c s u"
    by (auto simp: keeps_disk_def)
  show "changes (keeps_disk env y path base c) (http_send env Pve rq)"
    "changes (keeps_disk env y path base c) (http_send env Pve rq)"
    "changes (keeps_disk env y path base c) (http_send env Sb rq)"
    by (auto simp: changes_def keeps_disk_def on_disk_def http_send_def split: prod.splits)
  show "keeps_disk env y path base c s (snd (now_val env s))" "keeps_disk env y path base c s (snd (sleep_val env d s))"
    by (auto simp: keeps_disk_def on_disk_def now_val_def sleep_val_def split: prod.splits)
qed (rule refresh_keeps_disk)

section \<open>What the goroutines do\<close>

text \<open>What the Proxmox client's reads respect, the wait for the cluster respects.\<close>

locale pve_loop = pve_reads R env for R :: "'w agent \<Rightarrow> 'w agent \<Rightarrow> bool" and env
begin

lemma match_loop_R:
  assumes "match_loop env pc vmid expected deadline s = Some x"
  shows "R s (snd x)"
proof (rule match_loop.raw_induct
    [where P = "\<lambda>e pc vmid expected deadline s x. e = env \<longrightarrow> R s (snd x)", OF _ assms, THEN mp, OF _ refl])
  fix f and e :: "'w env" and pc vmid expected deadline s x
  assume IH: "\<And>e pc vmid expected deadline s x. f e pc vmid expected deadline s = Some x \<Longrightarrow> e = env \<longrightarrow> R s (snd x)"
    and eq: "(let (t, s1) = now_val e s in
      if \<not> t < deadline then Some (Ok (), s1)
      else
        (let (r, s2) = ClusterResources e pc s1 in
         if (case r of Ok res \<Rightarrow> hasGuestState res vmid expected | _ \<Rightarrow> False) then Some (Ok (), s2)
         else
           (let (w, s3) = sleep_val e pollInterval s2 in
            case w of Some e \<Rightarrow> Some (Ok (), s3)
            | None \<Rightarrow> f e pc vmid expected deadline s3))) = Some x"
  show "e = env \<longrightarrow> R s (snd x)"
  proof
    assume e: "e = env"
    obtain t s1 where n: "now_val env s = (t, s1)" by force
    obtain r s2 where g: "ClusterResources env pc s1 = (r, s2)" by force
    obtain w s3 where sl: "sleep_val env pollInterval s2 = (w, s3)" by force
    have 1: "R s s1" using now_val_R [of s] n by simp
    have "R s1 s2" using reads_R(2) g by (rule changesD)
    with 1 have 2: "R s s2" using R_trans by blast
    have "R s2 s3" using sleep_R [of s2 pollInterval] sl by simp
    with 2 have 3: "R s s3" using R_trans by blast
    show "R s (snd x)"
      using eq 1 2 3 R_trans [OF 3] IH
      by (auto simp: e g n sl Let_def split: if_splits option.splits)
  qed
qed

lemma waitForClusterStateMatch_R: "changes R (waitForClusterStateMatch env pc cmd)"
proof (rule changesI)
  fix s
  obtain t s1 where n: "now_val env s = (t, s1)" by force
  have "R s s1" using now_val_R [of s] n by simp
  then show "R s (snd (waitForClusterStateMatch env pc cmd s))"
    using R_trans R_refl
    by (auto simp: waitForClusterStateMatch_def n split: option.splits dest!: match_loop_R)
qed

end

text \<open>
  \<open>runtime_reads\<close>: a preorder that GET requests, the Supabase client, the heartbeat file and the
  frames of the central loop respect is respected by everything the goroutines of \<open>Start\<close> do but the
  commands; \<open>runtime_effect\<close> extends it to all requests to Proxmox and so to the commands.
\<close>

locale runtime_reads = pve: pve_loop R env + sb: sb_session R env c
  for R :: "'w agent \<Rightarrow> 'w agent \<Rightarrow> bool" and env c +
  fixes hb :: string
  assumes heartbeat_R: "changes R (touchHeartbeat env hb)"
    and frame_R: "changes R (pushAccessToken env topic conn token)"
begin

lemmas parts = pve.combinators sb.now_R sb.ops_R sb.refresh_R pve.reads_R heartbeat_R frame_R

lemma pushOnce_R: "changes R (pushOnce env pc c cluster hb)"
  unfolding pushOnce_def by (intro parts)

lemma catch_up_R: "changes R (cmdCatchUp env c cluster)" "changes R (readCatchUp env c cluster)"
  unfolding cmdCatchUp_def readCatchUp_def by (auto split: sum.splits intro!: parts)

lemma central_tick_R: "changes R (refreshAndPushAll env order c)"
proof -
  have "changes R (push_all env token subs)" for token subs
    by (induction subs) (auto intro!: parts)
  then show ?thesis unfolding refreshAndPushAll_def by (auto split: sum.splits intro!: parts)
qed

lemma main_loop_R: "changes R (main_loop env pc c cluster hb ws)"
proof (induction ws)
  case (Cons w ws)
  then show ?case by (cases w) (auto split: sum.splits intro!: parts pushOnce_R)
qed (simp add: pve.return)

end

locale runtime_effect = runtime_reads R env c hb + agent_effect R env c
  for R :: "'w agent \<Rightarrow> 'w agent \<Rightarrow> bool" and env c hb
begin

lemma commands_R:
  "changes R (handleCommand env lib d pc c cluster hb cmd)"
  "changes R (handleReadCommand env isprint order pc c rcmd)"
  unfolding handleCommand_def handleReadCommand_def
  by (auto split: sum.splits intro!: parts pushOnce_R pve.waitForClusterStateMatch_R
      commands.Handle_changes read_commands.Handle_read_changes)

end

text \<open>
  The bodies of the goroutines, one after the other: a push of the main loop, a command and
  a read command with what is done for them, the two catch-ups after a connect, a tick of the central
  refresh loop.
\<close>

datatype activity = Pushes | Commands Command | Reads ReadCommand | CatchesUp | ReadsUp | CentralTick

definition perform ::
  "'w env \<Rightarrow> ('k, 'p, 'o, 'l) hpke \<Rightarrow> (nat \<Rightarrow> bool) \<Rightarrow> ((string \<times> json) list \<Rightarrow> (string \<times> json) list) \<Rightarrow>
   ((string \<times> nat) list \<Rightarrow> (string \<times> nat) list) \<Rightarrow> 'w started \<Rightarrow> activity \<Rightarrow> ('w agent, unit) go" where
  "perform env lib isprint order subs_order b a = (case a of
     Pushes \<Rightarrow> go_try (pushOnce env (st_pve b) (st_sb b) (st_cluster b) (st_heartbeat b)) (\<lambda>_. go_return ())
   | Commands cmd \<Rightarrow>
       handleCommand env lib (st_dispatcher b) (st_pve b) (st_sb b) (st_cluster b) (st_heartbeat b) cmd
   | Reads cmd \<Rightarrow> handleReadCommand env isprint order (st_pve b) (st_sb b) cmd
   | CatchesUp \<Rightarrow> go_bind (cmdCatchUp env (st_sb b) (st_cluster b)) (\<lambda>_. go_return ())
   | ReadsUp \<Rightarrow> go_bind (readCatchUp env (st_sb b) (st_cluster b)) (\<lambda>_. go_return ())
   | CentralTick \<Rightarrow> refreshAndPushAll env subs_order (st_sb b))"

fun perform_all ::
  "'w env \<Rightarrow> ('k, 'p, 'o, 'l) hpke \<Rightarrow> (nat \<Rightarrow> bool) \<Rightarrow> ((string \<times> json) list \<Rightarrow> (string \<times> json) list) \<Rightarrow>
   ((string \<times> nat) list \<Rightarrow> (string \<times> nat) list) \<Rightarrow> 'w started \<Rightarrow> activity list \<Rightarrow> ('w agent, unit) go" where
  "perform_all env lib isprint order subs_order b [] = go_return ()"
| "perform_all env lib isprint order subs_order b (a # as) =
     go_bind (perform env lib isprint order subs_order b a) (\<lambda>_. perform_all env lib isprint order subs_order b as)"

context runtime_effect begin

lemma perform_all_R:
  assumes "st_sb b = c" "st_heartbeat b = hb"
  shows "changes R (perform_all env lib isprint order subs_order b as)"
proof (induction as)
  case (Cons a as)
  have "changes R (perform env lib isprint order subs_order b a)"
    unfolding perform_def assms
    by (cases a) (auto intro!: parts pushOnce_R commands_R catch_up_R central_tick_R)
  with Cons show ?case by (auto intro!: parts)
qed (simp add: pve.return)

end

section \<open>The configuration file while the agent works\<close>

definition keeps_disk_at :: "'w env \<Rightarrow> 'x yaml \<Rightarrow> string \<Rightarrow> File \<Rightarrow> string \<Rightarrow> 'w sb_client \<Rightarrow> 'w agent \<Rightarrow> 'w agent \<Rightarrow> bool" where
  "keeps_disk_at env y path base hb c s t \<longleftrightarrow> (hb \<noteq> path \<longrightarrow> keeps_disk env y path base c s t)"

lemma keeps_disk_atI: "(hb \<noteq> path \<Longrightarrow> changes (keeps_disk env y path base c) m) \<Longrightarrow> changes (keeps_disk_at env y path base hb c) m"
  by (simp add: changes_def keeps_disk_at_def)

lemma keeps_disk_touch: "hb \<noteq> path \<Longrightarrow> changes (keeps_disk env y path base c) (touchHeartbeat env hb)"
  by (auto simp: changes_def touchHeartbeat_def keeps_disk_def on_disk_def WriteFile_def go_try_def go_return_def
      split: prod.splits option.splits)

lemma keeps_disk_frame: "changes (keeps_disk env y path base c) (pushAccessToken env topic conn token)"
  by (auto simp: changes_def pushAccessToken_def nextRef_def writeJSON_def keeps_disk_def on_disk_def Let_def
      split: prod.splits option.splits)

interpretation keeps_disk_at: runtime_effect "keeps_disk_at env y path base hb c" env c hb
  for env :: "'w env" and y :: "'x yaml" and path base hb and c :: "'w sb_client"
proof unfold_locales
  fix s t u :: "'w agent" and rq d topic conn token
  show "keeps_disk_at env y path base hb c s s" by (simp add: keeps_disk_at_def keeps_disk.pve.R_refl)
  show "keeps_disk_at env y path base hb c s t \<Longrightarrow> keeps_disk_at env y path base hb c t u \<Longrightarrow>
      keeps_disk_at env y path base hb c s u"
    using keeps_disk.pve.R_trans by (auto simp: keeps_disk_at_def)
  show "keeps_disk_at env y path base hb c s (snd (now_val env s))"
    "keeps_disk_at env y path base hb c s (snd (sleep_val env d s))"
    by (simp_all add: keeps_disk_at_def keeps_disk.pve.now_val_R keeps_disk.pve.sleep_R)
qed (rule keeps_disk_atI keeps_disk.pve.any_R keeps_disk.sb.http_R refresh_keeps_disk keeps_disk_touch keeps_disk_frame;
    assumption?)+

section \<open>How much the agent writes\<close>

definition no_pve_write :: "'w sb_client \<Rightarrow> 'w agent \<Rightarrow> 'w agent \<Rightarrow> bool" where
  "no_pve_write c s t \<longleftrightarrow> (file_persist c \<longrightarrow> adds (\<lambda>e. \<not> pve_write e) s t)"

lemma no_pve_writeI: "(file_persist c \<Longrightarrow> changes (adds P) m) \<Longrightarrow> (\<And>e. P e \<Longrightarrow> \<not> pve_write e) \<Longrightarrow> changes (no_pve_write c) m"
  by (auto simp: changes_def no_pve_write_def intro: adds_mono)

interpretation no_pve_write: runtime_reads "no_pve_write c" env c hb
  for env :: "'w env" and c :: "'w sb_client" and hb
proof unfold_locales
  fix s t u :: "'w agent" and rq d topic conn token
  show "no_pve_write c s s" by (simp add: no_pve_write_def adds.R_refl)
  show "no_pve_write c s t \<Longrightarrow> no_pve_write c t u \<Longrightarrow> no_pve_write c s u"
    by (auto simp: no_pve_write_def intro: adds.R_trans)
  show "changes (no_pve_write c) (http_send env Pve rq)" if "rq_method rq = ''GET''"
    by (rule no_pve_writeI [of _ pve_get]) (use that in \<open>auto simp: pve_get_def pve_get_not_write intro!: adds_http\<close>)
  show "changes (no_pve_write c) (http_send env Sb rq)"
    by (rule no_pve_writeI [of _ "\<lambda>e. e = Sb rq"]) (auto simp: pve_write_def intro!: adds_http)
  show "no_pve_write c s (snd (now_val env s))" "no_pve_write c s (snd (sleep_val env d s))"
    by (auto simp: no_pve_write_def adds_def now_val_def sleep_val_def split: prod.splits)
  show "changes (no_pve_write c) (refresh env c)"
    by (rule no_pve_writeI [of _ sb_or_file]) (auto simp: sb_or_file_def file_event_def pve_write_def
        intro: sb_ops_adds split: event.splits)
  show "changes (no_pve_write c) (touchHeartbeat env hb)"
    by (rule no_pve_writeI [of _ file_event])
      (auto simp: touchHeartbeat_def file_event_def pve_write_def intro!: adds.combinators logged_files split: event.splits)
  show "changes (no_pve_write c) (pushAccessToken env topic conn token)"
    by (auto simp: changes_def no_pve_write_def pushAccessToken_def nextRef_def writeJSON_def adds_def Let_def pve_write_def
        split: prod.splits option.splits)
qed

lemma reads_only_no_write: "reads_only pc c s t \<Longrightarrow> no_pve_write c s t"
  unfolding reads_only_def no_pve_write_def
  by (auto elim!: adds_mono simp: read_event_def sb_or_file_def file_event_def pve_write_def pve_request_def
      split: event.splits)

lemma no_pve_write_raises: "changes (no_pve_write c) m \<Longrightarrow> file_persist c \<Longrightarrow> raises (count_events pve_write) 0 m"
  by (simp add: no_attempt_raises changes_def no_pve_write_def)

text \<open>How many of the activities may change something in Proxmox: one for each command.\<close>

definition is_command :: "activity \<Rightarrow> bool" where
  "is_command a = (case a of Commands _ \<Rightarrow> True | _ \<Rightarrow> False)"

lemma perform_raises:
  assumes c: "file_persist (st_sb b)"
  shows "raises (count_events pve_write) (if is_command a then 1 else 0) (perform env lib isprint order subs_order b a)"
proof (cases "is_command a")
  case False
  have "changes (no_pve_write (st_sb b)) (handleReadCommand env isprint order (st_pve b) (st_sb b) cmd)" for cmd
    unfolding handleReadCommand_def
    by (intro no_pve_write.pve.combinators changes_mono [OF reads.Handle_read_changes] reads_only_no_write)
  then have "changes (no_pve_write (st_sb b)) (perform env lib isprint order subs_order b a)"
    using False unfolding perform_def is_command_def
    by (cases a) (auto intro!: no_pve_write.parts no_pve_write.pushOnce_R no_pve_write.catch_up_R no_pve_write.central_tick_R)
  with c False show ?thesis by (simp add: no_pve_write_raises)
next
  case True
  then obtain cmd where a: "a = Commands cmd" by (auto simp: is_command_def split: activity.splits)
  have h: "raises (count_events pve_write) 1 (Handle (now_val env) (pve_actor env (st_pve b)) (sb_store env (st_sb b)) lib (st_dispatcher b) cmd)"
    using meter.Handle_at_most_one [where c = "st_sb b"] c by (simp add: raises_def writes_def)
  have "changes (no_pve_write (st_sb b)) (go_bind (waitForClusterStateMatch env (st_pve b) cmd) (\<lambda>_.
       go_try (pushOnce env (st_pve b) (st_sb b) (st_cluster b) (st_heartbeat b)) (\<lambda>_. go_return ())))"
    by (intro no_pve_write.parts no_pve_write.pushOnce_R no_pve_write.pve.waitForClusterStateMatch_R)
  from no_pve_write_raises [OF this c] have "raises (count_events pve_write) (1 + 0) (perform env lib isprint order subs_order b a)"
    unfolding a perform_def activity.case handleCommand_def
    by (intro raises_try [OF h]) (auto simp: raises_return split: sum.splits)
  with True show ?thesis by simp
qed

text \<open>
  Claim C4: whatever the agent does, in whatever order, it sends Proxmox at most one request that is
  not a GET for each command that was delivered to it, and none on its own account.
\<close>

theorem one_write_per_command:
  assumes "file_persist (st_sb b)" and run: "perform_all env lib isprint order subs_order b as s = (r, t)"
  shows "count_events pve_write t \<le> count_events pve_write s + length (filter is_command as)"
proof -
  have "raises (count_events pve_write) (length (filter is_command as)) (perform_all env lib isprint order subs_order b as)"
  proof (induction as)
    case (Cons a as)
    then have "raises (count_events pve_write) ((if is_command a then 1 else 0) + length (filter is_command as))
        (perform_all env lib isprint order subs_order b (a # as))"
      unfolding perform_all.simps by (intro raises_bind perform_raises [OF assms(1)])
    then show ?case by (auto split: if_splits)
  qed (simp add: raises_return)
  with run show ?thesis by (metis raisesD)
qed


section \<open>A start and the file\<close>

text \<open>The file decodes to \<open>base\<close> with some token.\<close>

definition file_complete :: "'x yaml \<Rightarrow> string \<Rightarrow> File \<Rightarrow> 'w agent \<Rightarrow> bool" where
  "file_complete y path base s \<longleftrightarrow>
     (\<exists>data tok. fs s path = Some data \<and> y_unmarshal y data = Inr (set_refresh_token tok base))"

lemma on_disk_complete: "on_disk y path base s \<Longrightarrow> file_complete y path base s"
  by (auto simp: on_disk_def file_complete_def)

lemma New_sb_state:
  assumes "New_sb isprint base key rt tok per s = (r, t)"
  shows "fs t = fs s \<and> (\<forall>sb. r = Ok sb \<longrightarrow> persist sb = per \<and> sb_refresh t = tok)"
  using assms by (auto simp: New_sb_def Let_def split: if_splits option.splits sum.splits)

lemma start_session_keeps_disk:
  assumes "sc_PrivateKey (f_Supabase cfg) \<noteq> ''''"
  shows "changes (keeps_disk env y path base sb) (start_session env y lib gen path cfg pve sb hb)"
  unfolding start_session_def Let_def EnsurePrivateKey_def UploadPublicKey_def
  by (auto simp: assms split: sum.splits
      intro!: keeps_disk.pve.combinators keeps_disk.pve.reads_R keeps_disk.sb.ops_R)

lemma start_session_Ok:
  "start_session env y lib gen path cfg pve sb hb s = (Ok b, t) \<Longrightarrow> st_sb b = sb \<and> st_heartbeat b = hb"
  unfolding start_session_def Let_def by (auto elim!: go_bind_OkE split: sum.splits)

lemma go_wrap_cases:
  assumes "go_wrap ctx m s = (r, t)"
  obtains r' where "m s = (r', t)" "\<And>x. r = Ok x \<longleftrightarrow> r' = Ok x"
  using assms by (cases "m s"; cases "fst (m s)") (auto simp: go_wrap_def)

lemma Start_boot_disk:
  fixes s t :: "'w agent"
  assumes y: "yaml_ok y" and start: "fs s path = Some data" "y_unmarshal y data = Inr cfg"
    and key: "sc_PrivateKey (f_Supabase cfg) \<noteq> ''''"
    and run: "Start_boot isprint env y lib gen path rc s = (r, t)"
  shows "file_complete y path cfg t \<and> (\<forall>b. r = Ok b \<longrightarrow> on_disk y path cfg t \<and>
    agent_client env y path (st_sb b) \<and> st_heartbeat b = path_join (path_dir path) ''.last-poll'')"
proof -
  have same: "file_complete y path cfg u" if "fs u = fs s" for u :: "'w agent"
    using start set_refresh_token_self [of cfg] that unfolding file_complete_def by metis
  obtain rl s1 where l: "go_wrap ''load config'' (Load env y path) s = (rl, s1)" by force
  then have f1: "fs s1 = fs s" using Load_fs by (elim go_wrap_cases)
  show ?thesis
  proof (cases "\<exists>cfg'. rl = Ok cfg' \<and> validate cfg' = None")
    case False
    with run l have "t = s1 \<and> (\<forall>b. r \<noteq> Ok b)"
      by (cases rl) (auto simp: Start_boot_def go_simps go_fail_def)
    with same f1 show ?thesis by blast
  next
    case True
    then obtain cfg' where c: "rl = Ok cfg'" "validate cfg' = None" by blast
    from l c(1) have "Load env y path s = (Ok cfg', s1)" by (elim go_wrap_cases) simp
    with start have "cfg' = cfg" by (auto dest: Load_Ok)
    let ?N = "New_sb isprint (SupabaseBaseURL rc) (SupabasePublishableKey rc) (SupabaseRealtimeURL rc)
        (sc_RefreshToken (f_Supabase cfg)) (Some (persistRefreshTo env y path)) :: ('w agent, 'w sb_client) go"
    obtain rn s2 where n: "go_wrap ''build supabase client'' ?N s1 = (rn, s2)" by force
    then obtain rn' where n': "?N s1 = (rn', s2)" "\<And>x. rn = Ok x \<longleftrightarrow> rn' = Ok x" by (elim go_wrap_cases) blast
    note N = New_sb_state [OF n'(1)]
    show ?thesis
    proof (cases "\<exists>sb. rn = Ok sb")
      case False
      with run l n c \<open>cfg' = cfg\<close> have "t = s2 \<and> (\<forall>b. r \<noteq> Ok b)"
        by (cases rn) (auto simp: Start_boot_def go_simps)
      with same f1 N show ?thesis by auto
    next
      case True
      then obtain sb where sb: "rn = Ok sb" by blast
      with run l n c \<open>cfg' = cfg\<close> have st: "start_session env y lib gen path cfg (New_pve (pve_config_of (f_Proxmox cfg))) sb
          (path_join (path_dir path) ''.last-poll'') s2 = (r, t)"
        by (simp add: Start_boot_def go_simps)
      have "agent_client env y path sb" "sb_refresh s2 = sc_RefreshToken (f_Supabase cfg)"
        using N n'(2) sb by (auto simp: agent_client_def)
      moreover from this have "on_disk y path cfg s2"
        using start set_refresh_token_self [of cfg] N f1 by (simp add: on_disk_def)
      ultimately have "on_disk y path cfg t"
        using y changesD [OF start_session_keeps_disk [OF key] st] unfolding keeps_disk_def by blast
      with \<open>agent_client env y path sb\<close> start_session_Ok st show ?thesis using on_disk_complete by blast
    qed
  qed
qed



section \<open>A first start\<close>

lemma set_keys_commute: "set_private_key k (set_refresh_token tok cfg) = set_refresh_token tok (set_private_key k cfg)"
  by (simp add: set_private_key_def set_refresh_token_def)

lemma EnsurePrivateKey_new:
  assumes "yaml_ok y" "EnsurePrivateKey env y lib gen cfg path s = (Ok (k, generated, cfg'), t)"
    "sc_PrivateKey (f_Supabase cfg) = ''''"
  shows "generated \<and> (\<exists>data. fs t path = Some data \<and> y_unmarshal y data = Inr (set_private_key k cfg)) \<and>
    sb_refresh t = sb_refresh s"
proof -
  have "Save env y path f s = (r, u) \<Longrightarrow> sb_refresh u = sb_refresh s" for f r u
    by (auto simp: Save_def WriteFile_def go_wrap_def go_fail_def
        split: sum.splits prod.splits option.splits outcome.splits)
  then have "sb_refresh t = sb_refresh s"
    using assms(2,3) by (auto simp: EnsurePrivateKey_def Let_def split: sum.splits elim!: go_bind_OkE go_wrap_OkE)
  moreover from EnsurePrivateKey_Ok [OF assms(2)] assms(3) obtain data where
    "generated" "saved y (set_private_key k cfg) = Some data" "fs t = (fs s)(path \<mapsto> data)"
    by auto
  ultimately show ?thesis using saved_reads [OF assms(1)] by auto
qed

lemma start_session_new_key:
  assumes y: "yaml_ok y" and key: "sc_PrivateKey (f_Supabase cfg) = ''''"
    and tok: "sb_refresh s = sc_RefreshToken (f_Supabase cfg)"
    and run: "start_session env y lib gen path cfg pve sb hb s = (Ok b, t)"
  shows "\<exists>v w u k data. sb_refresh v = sc_RefreshToken (f_Supabase cfg) \<and> Ping env sb v = (Ok (), w) \<and>
    sb_refresh u = sb_refresh w \<and> fs u path = Some data \<and> y_unmarshal y data = Inr (set_private_key k cfg) \<and>
    go_try (UploadPublicKey env lib sb (sc_ClusterID (f_Supabase cfg)) k) (\<lambda>_. go_return ()) u = (Ok (), t)"
proof -
  from run obtain x v w k generated cfg' u d where vs: "Version env pve s = (Ok x, v)"
    and p: "Ping env sb v = (Ok (), w)"
    and e: "EnsurePrivateKey env y lib gen cfg path w = (Ok (k, generated, cfg'), u)"
    and up: "(if generated then go_try (UploadPublicKey env lib sb (sc_ClusterID (f_Supabase cfg)) k) (\<lambda>_. go_return ())
       else go_return ()) u = (Ok (), d)"
    and fin: "(case b64_decode k of Inl e \<Rightarrow> go_fail (Wrap ''decode supabase.private_key'' e)
       | Inr privBytes \<Rightarrow> go_return \<lparr>st_pve = pve, st_sb = sb, st_cluster = sc_ClusterID (f_Supabase cfg),
          st_dispatcher = New_dispatcher\<lparr>PrivateKey := Some privBytes\<rparr>,
          st_interval = poll_interval (f_Agent cfg'), st_heartbeat = hb\<rparr>) d = (Ok b, t)"
    unfolding start_session_def Let_def by (elim go_bind_OkE go_wrap_OkE) (auto split: prod.splits elim!: go_bind_OkE)
  have "changes (\<lambda>s t. sb_refresh t = sb_refresh s) (Version env pve)"
    by (auto simp: changes_def Version_def getJSON_def pve_do_def http_send_def go_defs parse_response_def
        split: prod.splits outcome.splits http_outcome.splits sum.splits if_splits)
  from changesD [OF this vs] tok have "sb_refresh v = sc_RefreshToken (f_Supabase cfg)" by simp
  moreover note E = EnsurePrivateKey_new [OF y e key]
  moreover have "d = t" using fin by (auto split: sum.splits)
  ultimately show ?thesis using p up by (simp split: if_split_asm) blast
qed

text \<open>
  Claim C39: a start of an agent whose file has no private key writes the configuration that was read
  before the session was opened: when the new key is there, the file holds the refresh token that the
  session has just used up, and the token that the client holds is nowhere on the disk.
\<close>

theorem first_start_restores_used_token:
  assumes "yaml_ok y" "fs s path = Some data" "y_unmarshal y data = Inr cfg" "sc_PrivateKey (f_Supabase cfg) = ''''"
    and run: "Start_boot isprint env y lib gen path rc s = (Ok b, t)"
  shows "\<exists>v w u k data. sb_refresh v = sc_RefreshToken (f_Supabase cfg) \<and> Ping env (st_sb b) v = (Ok (), w) \<and>
    sb_refresh u = sb_refresh w \<and> fs u path = Some data \<and> y_unmarshal y data = Inr (set_private_key k cfg) \<and>
    go_try (UploadPublicKey env lib (st_sb b) (sc_ClusterID (f_Supabase cfg)) k) (\<lambda>_. go_return ()) u = (Ok (), t)"
proof -
  from run obtain cfg' s1 where l: "Load env y path s = (Ok cfg', s1)"
    and r: "(case validate cfg' of Some e \<Rightarrow> go_fail (Wrap ''config invalid'' e)
     | None \<Rightarrow>
        go_bind (go_wrap ''build supabase client''
          (New_sb isprint (SupabaseBaseURL rc) (SupabasePublishableKey rc) (SupabaseRealtimeURL rc)
             (sc_RefreshToken (f_Supabase cfg')) (Some (persistRefreshTo env y path)))) (\<lambda>sb.
        start_session env y lib gen path cfg' (New_pve (pve_config_of (f_Proxmox cfg'))) sb
          (path_join (path_dir path) ''.last-poll''))) s1 = (Ok b, t)"
    unfolding Start_boot_def by (elim go_bind_OkE go_wrap_OkE)
  from Load_Ok [OF l] assms(2,3) have [simp]: "cfg' = cfg" by simp
  from r obtain sb s2 where n: "New_sb isprint (SupabaseBaseURL rc) (SupabasePublishableKey rc) (SupabaseRealtimeURL rc)
             (sc_RefreshToken (f_Supabase cfg)) (Some (persistRefreshTo env y path)) s1 = (Ok sb, s2)"
    and st: "start_session env y lib gen path cfg (New_pve (pve_config_of (f_Proxmox cfg))) sb
          (path_join (path_dir path) ''.last-poll'') s2 = (Ok b, t)"
    by (auto split: option.splits elim!: go_bind_OkE go_wrap_OkE)
  from New_sb_state [OF n] have "sb_refresh s2 = sc_RefreshToken (f_Supabase cfg)" by simp
  from start_session_new_key [OF assms(1,4) this st] start_session_Ok [OF st] show ?thesis by simp
qed


section \<open>Waiting for the cluster\<close>

lemma ClusterResources_later: "clocked env clk \<Longrightarrow> changes (later clk) (ClusterResources env c)"
  unfolding ClusterResources_def by (intro go_effect)

lemma ClusterResources_one: "changes (\<lambda>s t. count_events P t \<le> Suc (count_events P s)) (ClusterResources env c)"
proof -
  have "changes some_request (ClusterResources env c)"
    unfolding ClusterResources_def getJSON_def
    by (rule some_requestI [OF wrap_one_request], rule bind_parse_one_request)
  then show ?thesis unfolding changes_def some_request_def using one_request_count by blast
qed

lemma match_loop_returns:
  assumes "clocked env clk"
  shows "\<exists>t. match_loop env pc vmid expected deadline s = Some (Ok (), t) \<and>
    count_events pve_get t \<le> count_events pve_get s + polls_left clk deadline s"
proof (induction "polls_left clk deadline s" arbitrary: s rule: less_induct)
  case less
  obtain t s1 where n: "now_val env s = (t, s1)" by force
  obtain r s2 where g: "ClusterResources env pc s1 = (r, s2)" by force
  obtain w s3 where sl: "sleep_val env pollInterval s2 = (w, s3)" by force
  have 1: "count_events pve_get s2 \<le> Suc (count_events pve_get s)"
    using changesD [OF ClusterResources_one [of pve_get] g] now_val_log [OF n] by (simp add: count_events_def)
  have 2: "count_events pve_get s1 = count_events pve_get s" "count_events pve_get s3 = count_events pve_get s2"
    using now_val_log [OF n] sleep_val_log [OF sl] by (simp_all add: count_events_def)
  note pos = polls_left_pos [of clk deadline s]
  show ?case
  proof (cases "t < deadline \<and> \<not> (case r of Ok res \<Rightarrow> hasGuestState res vmid expected | _ \<Rightarrow> False) \<and> w = None")
    case False
    then show ?thesis
      using 1 2 pos by (subst match_loop.simps) (auto simp: g n sl Let_def split: option.splits)
  next
    case True
    have t: "t = clk (ext s)" "clk (ext s) \<le> clk (ext s1)" using now_val_clock [OF assms n] by auto
    have c: "clk (ext s1) \<le> clk (ext s2)" using changesD [OF ClusterResources_later [OF assms] g] by (simp add: later_def)
    have w: "clk (ext s2) + pollInterval \<le> clk (ext s3)" using sleep_val_clock [OF assms] sl True by blast
    have step: "polls_left clk deadline s3 < polls_left clk deadline s"
      using c t w True by (intro polls_left_step) auto
    from less [OF this] obtain u where
      "match_loop env pc vmid expected deadline s3 = Some (Ok (), u)"
      "count_events pve_get u \<le> count_events pve_get s3 + polls_left clk deadline s3"
      by blast
    with True step 1 2 show ?thesis by (subst match_loop.simps) (simp add: g n sl Let_def)
  qed
qed

lemma ExpectedStateFor_timeout: "ExpectedStateFor kind = Some (st, timeout) \<Longrightarrow> 0 \<le> timeout \<and> timeout \<le> dur_s 10"
  by (auto simp: ExpectedStateFor_def expectedStates_def split: if_splits)

interpretation reads_loop: pve_loop "adds pve_get" env for env :: "'w env" ..

text \<open>
  Claim C40: the wait for the cluster to show the new state, which a goroutine makes after every command,
  always ends, after at most 22 polls; it reports nothing and only reads.
\<close>

theorem waitForClusterStateMatch_terminates:
  assumes clk: "clocked env clk" and run: "waitForClusterStateMatch env pc cmd s = (r, t)"
  shows "r = Ok () \<and> count_events pve_get t \<le> count_events pve_get s + 22 \<and> adds pve_get s t"
proof -
  have reads: "adds pve_get s t" using reads_loop.waitForClusterStateMatch_R run by (rule changesD)
  show ?thesis
  proof (cases "ExpectedStateFor (Kind cmd) = None \<or> ParseGuestRef cmd = None")
    case True
    with run reads show ?thesis by (auto simp: waitForClusterStateMatch_def split: option.splits)
  next
    case False
    then obtain st timeout ref where e: "ExpectedStateFor (Kind cmd) = Some (st, timeout)" "ParseGuestRef cmd = Some ref"
      by auto
    obtain n s1 where n: "now_val env s = (n, s1)" by force
    obtain u where u: "match_loop env pc (ref_VMID ref) st (n + timeout) s1 = Some (Ok (), u)"
      "count_events pve_get u \<le> count_events pve_get s1 + polls_left clk (n + timeout) s1"
      using match_loop_returns [OF clk] by blast
    have "polls_left clk (n + timeout) s1 \<le> nat (timeout div pollInterval) + 2"
      using now_val_clock [OF clk n] pollInterval_pos
      by (auto simp: polls_left_def intro!: nat_mono zdiv_mono1)
    moreover have "timeout div pollInterval \<le> dur_s 10 div pollInterval"
      using ExpectedStateFor_timeout [OF e(1)] pollInterval_pos by (intro zdiv_mono1) auto
    then have "nat (timeout div pollInterval) \<le> 20" by (simp add: pollInterval_def)
    moreover have "count_events pve_get s1 = count_events pve_get s"
      using now_val_log [OF n] by (simp add: count_events_def)
    ultimately show ?thesis using run e n u reads by (simp add: waitForClusterStateMatch_def)
  qed
qed

end
