(* ===== verification/Exits.thy ===== *)
theory Exits
  imports AgentMain Session
begin

text \<open>
  Why the agent ends. \<open>unrevoked told m\<close> says of a call that an error with \<open>ErrRefreshRevoked\<close> in its
  chain is returned only when the outside is in a state with \<open>told\<close>; it is closed under the combinators
  like \<open>returns\<close>. The locale \<open>telling\<close> asks of \<open>told\<close> that it holds after every answer of the token
  endpoint that says that the session is revoked; then everything that \<open>--run\<close> does is unrevoked. It is
  used for two \<open>told\<close>: that the endpoint can say so at all, and that it said so in this run.
\<close>

section \<open>Calls whose errors are not a revoked session\<close>

definition unrevoked :: "('w \<Rightarrow> bool) \<Rightarrow> ('w agent, 'a) go \<Rightarrow> bool" where
  "unrevoked told m \<longleftrightarrow> (\<forall>s e t. m s = (Fail e, t) \<longrightarrow> errors_is e ErrRefreshRevoked \<longrightarrow> told (ext t))"

abbreviation never_revoked :: "('w agent, 'a) go \<Rightarrow> bool" where
  "never_revoked \<equiv> unrevoked (\<lambda>_. False)"

named_theorems go_alive \<open>introduction rules: a call does not fail with a revoked session\<close>

lemma unrevokedD: "unrevoked told m \<Longrightarrow> m s = (Fail e, t) \<Longrightarrow> errors_is e ErrRefreshRevoked \<Longrightarrow> told (ext t)"
  by (simp add: unrevoked_def)

lemma unrevoked_atoms [go_alive]:
  "unrevoked told (go_return a)" "unrevoked told (go_gets g)" "unrevoked told (go_modify h)" "unrevoked told (go_panic p)"
  "unrevoked told (go_fail (Err t))" "unrevoked told (go_fail (Lib l))"
  "unrevoked told (go_fail e) \<Longrightarrow> unrevoked told (go_fail (Wrap ctx e))"
  by (auto simp: unrevoked_def go_defs)

lemma unrevoked_fail: "\<not> errors_is e ErrRefreshRevoked \<Longrightarrow> unrevoked told (go_fail e)"
  by (simp add: unrevoked_def go_defs)

lemma unrevoked_wrap [go_alive]: "unrevoked told m \<Longrightarrow> unrevoked told (go_wrap ctx m)"
  by (auto simp: unrevoked_def go_wrap_def split: outcome.splits prod.splits)

lemma unrevoked_bind [go_alive]: "unrevoked told m \<Longrightarrow> (\<And>a. unrevoked told (f a)) \<Longrightarrow> unrevoked told (go_bind m f)"
  by (auto simp: unrevoked_def go_bind_def split: outcome.splits prod.splits)

lemma unrevoked_try [go_alive]: "(\<And>a. unrevoked told (f a)) \<Longrightarrow> unrevoked told (go_try m f)"
  by (auto simp: unrevoked_def go_try_def split: outcome.splits prod.splits)

text \<open>For a handler that lets an error through, only the errors of the call count.\<close>

lemma unrevoked_handle:
  assumes "unrevoked told m" "\<And>a. unrevoked told (f (Inr a))"
    and "\<And>e. \<not> errors_is e ErrRefreshRevoked \<Longrightarrow> unrevoked told (f (Inl e))"
    and "\<And>e s t. m s = (Fail e, t) \<Longrightarrow> errors_is e ErrRefreshRevoked \<Longrightarrow> f (Inl e) = go_fail e"
  shows "unrevoked told (go_try m f)"
  unfolding unrevoked_def
proof (intro allI impI)
  fix s e t assume r: "go_try m f s = (Fail e, t)" "errors_is e ErrRefreshRevoked"
  obtain r1 u where m: "m s = (r1, u)" by force
  show "told (ext t)"
  proof (cases r1)
    case (Ok a)
    with r m assms(2) [of a] show ?thesis by (auto simp: go_simps dest: unrevokedD)
  next
    case (Fail e1)
    show ?thesis
    proof (cases "errors_is e1 ErrRefreshRevoked")
      case True
      with assms(4) [of s e1 u] r m Fail have "t = u" by (auto simp: go_simps)
      with unrevokedD [OF assms(1)] m Fail True show ?thesis by blast
    next
      case False
      with r m Fail assms(3) [OF False] show ?thesis by (auto simp: go_simps dest: unrevokedD)
    qed
  qed (use r m in \<open>simp_all add: go_simps\<close>)
qed

lemma unrevoked_calls [go_alive]:
  "unrevoked told (now env)" "unrevoked told (http_send env ev rq)" "unrevoked told (ReadFile env p)" "unrevoked told (WriteFile env p d)"
  "unrevoked told (CreateTemp env p d)" "unrevoked told (Chmod env p)" "unrevoked told (Rename env p d)" "unrevoked told (Remove env p)"
  by (auto simp: unrevoked_def now_def http_send_def file_ops split: prod.splits option.splits sum.splits if_split_asm)

lemma json_error: "json_unmarshal dec raw = Inl e \<Longrightarrow> \<not> errors_is e ErrRefreshRevoked"
  by (auto simp: json_unmarshal_def split: option.splits)

lemma unrevoked_parse [go_alive]: "unrevoked told (parse_response dec body)"
  by (auto simp: parse_response_def dest: json_error split: sum.splits intro!: go_alive unrevoked_fail)

lemma unrevoked_pve [go_alive]: "unrevoked told (Version env c)" "unrevoked told (ClusterResources env c)"
  unfolding Version_def ClusterResources_def getJSON_def pve_do_def
  by (auto split: http_outcome.splits intro!: go_alive)

lemma unrevoked_files [go_alive]: "unrevoked told (Load env y p)" "unrevoked told (Save env y p f)"
  unfolding Load_def Save_def by (auto split: sum.splits intro!: go_alive)

lemma unrevoked_removing [go_alive]: "never_revoked m \<Longrightarrow> unrevoked told (removing_on_error env tmp m)"
  unfolding removing_on_error_def
  by (rule unrevoked_handle) (auto simp: unrevoked_def [of _ m] intro!: go_alive unrevoked_fail)

lemma unrevoked_persist [go_alive]: "unrevoked told (persistRefreshTo env y path tok)"
  unfolding persistRefreshTo_def by (intro go_alive)

section \<open>When the endpoint says that the session is revoked\<close>

definition session_alive :: "'w env \<Rightarrow> bool" where
  "session_alive env \<longleftrightarrow> (\<forall>c body w. \<not> says_revoked (fst (env_http env (refresh_request (c :: 'w sb_client) body) w)))"

locale telling =
  fixes env :: "'w env" and told :: "'w \<Rightarrow> bool"
  assumes tells: "env_http env (refresh_request (c :: 'w sb_client) body) w = (res, w') \<Longrightarrow> says_revoked res \<Longrightarrow> told w'"
begin

lemma unrevoked_refresh:
  assumes "agent_client env y path c"
  shows "unrevoked told (refresh env c)"
  unfolding unrevoked_def
proof (intro allI impI)
  fix s e t
  assume f: "refresh env c s = (Fail e, t)" "errors_is e ErrRefreshRevoked"
  obtain res w where h: "env_http env (refresh_request c (refresh_body (sb_refresh s))) (ext s) = (res, w)" by force
  show "told (ext t)"
  proof (cases "says_revoked res")
    case True
    then have "ext t = w"
      using f(1) h unfolding refresh_eq
      by (auto simp: go_bind_def http_send_def go_fail_def says_revoked_def refresh_response_def
          split: http_outcome.splits sum.splits)
    with tells [OF h True] show ?thesis by simp
  next
    case False
    have "never_revoked (refresh_response env c status raw)" if "res = Response status raw" for status raw
    proof -
      have "never_revoked (store_tokens env p)" for p
        unfolding unrevoked_def using store_tokens_Ok [of env p] by (metis fst_conv outcome.distinct(1))
      moreover have "never_revoked (call_persist c tok)" for tok
        using assms by (simp add: call_persist_def agent_client_def unrevoked_persist)
      ultimately show ?thesis
        using False that unfolding refresh_response_def
        by (auto simp: says_revoked_def parse_refresh_def dest: json_error
            split: sum.splits intro!: unrevoked_bind unrevoked_wrap unrevoked_fail)
    qed
    with f h show ?thesis
      unfolding refresh_eq by (auto simp: go_bind_def http_send_def go_fail_def unrevoked_def split: http_outcome.splits)
  qed
qed

lemma unrevoked_push:
  assumes "agent_client env y path c"
  shows "unrevoked told (pushOnce env pve c cluster hb)" "unrevoked told (Ping env c)"
proof -
  note r = unrevoked_refresh [OF assms]
  have a: "unrevoked told (access env c)"
    using r by (auto simp: unrevoked_def access_def split: prod.splits if_split_asm)
  have att: "unrevoked told (attempt env rq)" for rq
    unfolding attempt_def by (auto split: http_outcome.splits intro!: go_alive)
  have w: "unrevoked told (with_token env c rq)" for rq
    unfolding with_token_def by (auto intro!: go_alive a att r)
  have "unrevoked told (PushSnapshot env c cluster payload)" for payload
    unfolding PushSnapshot_def postRow_def marshal_def by (auto split: option.splits intro!: go_alive w)
  then show "unrevoked told (pushOnce env pve c cluster hb)"
    unfolding pushOnce_def touchHeartbeat_def by (auto intro!: go_alive)
  show "unrevoked told (Ping env c)" unfolding Ping_def by (intro go_alive r)
qed

end

interpretation can_tell: telling env "\<lambda>_. \<not> session_alive env" for env :: "'w env"
  by unfold_locales (auto simp: session_alive_def, metis fst_conv)

text \<open>With the agent's own \<open>persist\<close> a push returns.\<close>

lemma push_returns:
  assumes "agent_client env y path c"
  shows "returns (pushOnce env pve c cluster hb)"
proof -
  have p: "returns (call_persist c tok)" for tok
    using assms by (simp add: call_persist_def agent_client_def persist_returns)
  have st: "returns (store_tokens env q)" for q by (simp add: returns_def store_tokens_Ok)
  have r: "returns (refresh env c)"
    unfolding refresh_def refresh_response_def
    by (auto split: option.splits http_outcome.splits sum.splits intro!: go_total p st)
  have a: "returns (access env c)"
    using r by (auto simp: returns_def access_def split: prod.splits)
  have att: "returns (attempt env rq)" for rq
    unfolding attempt_def by (auto split: http_outcome.splits intro!: go_total)
  have "returns (PushSnapshot env c cluster payload)" for payload
    unfolding PushSnapshot_def postRow_def marshal_def with_token_def
    by (auto split: option.splits intro!: go_total a att r)
  then show ?thesis
    unfolding pushOnce_def touchHeartbeat_def ClusterResources_def by (auto intro!: go_total)
qed

section \<open>The main loop\<close>

text \<open>
  Claim C10: the main loop survives every failure but one: it ends with an error only if that error is a
  revoked session, and as long as the endpoint revokes nothing it runs until its context is done,
  however often a push fails.
\<close>

theorem main_loop_survives:
  assumes c: "agent_client env y path c"
  shows "(case fst (main_loop env pve c cluster hb ws s) of
      Ok stopped \<Rightarrow> stopped = (CtxIsDone \<in> set ws)
    | Fail e \<Rightarrow> errors_is e ErrRefreshRevoked \<and> \<not> session_alive env
    | _ \<Rightarrow> False)"
proof (induction ws arbitrary: s)
  case (Cons w ws)
  obtain r u where p: "pushOnce env pve c cluster hb s = (r, u)" by force
  have "returned r" using push_returns [OF c] p by (rule returnsD)
  moreover have "\<not> errors_is e ErrRefreshRevoked" if "session_alive env" "r = Fail e" for e
    using unrevokedD [OF can_tell.unrevoked_push(1) [OF c]] p that by blast
  ultimately show ?case
    using Cons.IH [of u] p by (cases w; cases r) (auto simp: go_simps split: outcome.splits)
qed (simp add: go_simps)

section \<open>Exit codes\<close>

lemma New_sb_fails:
  "New_sb isprint base key rt tok per s = (r, t) \<Longrightarrow> \<forall>sb. r \<noteq> Ok sb \<Longrightarrow>
     \<exists>e. r = Fail e \<and> \<not> errors_is e ErrRefreshRevoked"
  by (auto simp: New_sb_def Let_def split: option.splits if_splits)

lemma EnsurePrivateKey_unrevoked: "unrevoked told (EnsurePrivateKey env y lib gen cfg path)"
  unfolding EnsurePrivateKey_def GenerateKeypair_def
  by (auto simp: Let_def split: sum.splits intro!: go_alive)

lemma validate_unrevoked: "validate cfg = Some e \<Longrightarrow> \<not> errors_is e ErrRefreshRevoked"
  by (auto simp: validate_def Valid_def split: if_splits)

lemma b64_error: "b64_decode k = Inl e \<Longrightarrow> \<not> errors_is e ErrRefreshRevoked"
  by (auto simp: b64_decode_def split: option.splits)

context telling begin

lemma start_session_unrevoked:
  assumes "agent_client env y path sb"
  shows "unrevoked told (start_session env y lib gen path cfg pve sb hb)"
  unfolding start_session_def Let_def
  by (auto split: sum.splits prod.splits dest!: b64_error
      intro!: go_alive EnsurePrivateKey_unrevoked unrevoked_push(2) unrevoked_fail assms)

lemma Start_boot_unrevoked: "unrevoked told (Start_boot isprint env y lib gen path rc)"
proof -
  let ?N = "\<lambda>cfg. New_sb isprint (SupabaseBaseURL rc) (SupabasePublishableKey rc) (SupabaseRealtimeURL rc)
      (sc_RefreshToken (f_Supabase cfg)) (Some (persistRefreshTo env y path))"
  have rest: "unrevoked told (go_bind (go_wrap ''build supabase client'' (?N cfg)) (\<lambda>sb.
      start_session env y lib gen path cfg (New_pve (pve_config_of (f_Proxmox cfg))) sb hb))" for cfg hb
    unfolding unrevoked_def
  proof (intro allI impI)
    fix s e t
    assume f: "go_bind (go_wrap ''build supabase client'' (?N cfg)) (\<lambda>sb.
      start_session env y lib gen path cfg (New_pve (pve_config_of (f_Proxmox cfg))) sb hb) s = (Fail e, t)"
      "errors_is e ErrRefreshRevoked"
    obtain r u where n: "?N cfg s = (r, u)" by force
    show "told (ext t)"
    proof (cases "\<exists>sb. r = Ok sb")
      case True
      then obtain sb where sb: "r = Ok sb" by blast
      with New_sb_state [OF n] have "agent_client env y path sb" by (simp add: agent_client_def)
      from unrevokedD [OF start_session_unrevoked [OF this]] f n sb show ?thesis
        by (auto simp: go_simps)
    next
      case False
      with New_sb_fails [OF n] obtain e' where "r = Fail e'" "\<not> errors_is e' ErrRefreshRevoked" by blast
      with f n show ?thesis by (auto simp: go_simps)
    qed
  qed
  show ?thesis
    unfolding Start_boot_def
    by (auto dest!: validate_unrevoked split: option.splits intro!: unrevoked_bind go_alive unrevoked_fail rest)
qed

lemma main_loop_unrevoked:
  assumes "agent_client env y path c"
  shows "unrevoked told (main_loop env pve c cluster hb ws)"
proof (induction ws)
  case (Cons w ws)
  show ?case
  proof (cases w)
    case Tick
    show ?thesis
      unfolding Tick main_loop.simps
      by (rule unrevoked_handle) (auto simp: Cons unrevoked_fail intro!: unrevoked_push assms)
  qed (simp add: go_alive)
qed (simp add: go_alive)

end

lemma Start_boot_client:
  assumes "Start_boot isprint env y lib gen path rc s = (Ok b, t)"
  shows "agent_client env y path (st_sb b)"
proof -
  from assms obtain cfg sb u v hb where n: "New_sb isprint (SupabaseBaseURL rc) (SupabasePublishableKey rc)
      (SupabaseRealtimeURL rc) (sc_RefreshToken (f_Supabase cfg)) (Some (persistRefreshTo env y path)) u = (Ok sb, v)"
    and st: "start_session env y lib gen path cfg (New_pve (pve_config_of (f_Proxmox cfg))) sb hb v = (Ok b, t)"
    unfolding Start_boot_def by (auto split: option.splits elim!: go_bind_OkE go_wrap_OkE)
  from New_sb_state [OF n] start_session_Ok [OF st] show ?thesis by (simp add: agent_client_def)
qed

context telling begin

lemma Start_unrevoked: "unrevoked told (Start isprint env y lib gen path rc ws)"
  unfolding unrevoked_def
proof (intro allI impI)
  fix s e t assume y: "Start isprint env y lib gen path rc ws s = (Fail e, t)" "errors_is e ErrRefreshRevoked"
  obtain r u where b: "Start_boot isprint env y lib gen path rc s = (r, u)" by force
  show "told (ext t)"
  proof (cases r)
    case (Ok b')
    let ?rest = "go_try (pushOnce env (st_pve b') (st_sb b') (st_cluster b') (st_heartbeat b')) (\<lambda>_.
       if st_interval b' \<le> 0 then go_panic ''non-positive interval for NewTicker''
       else main_loop env (st_pve b') (st_sb b') (st_cluster b') (st_heartbeat b') ws)"
    have "unrevoked told ?rest"
      using b Ok by (auto intro!: unrevoked_try go_alive main_loop_unrevoked Start_boot_client)
    moreover have "?rest u = (Fail e, t)" using y b Ok by (simp add: Start_def go_simps)
    ultimately show ?thesis using y(2) by (rule unrevokedD)
  next
    case (Fail e')
    with y b unrevokedD [OF Start_boot_unrevoked] show ?thesis by (auto simp: Start_def go_simps)
  qed (use y b in \<open>simp_all add: Start_def go_simps\<close>)
qed

end

lemma exit_code_of_die: "fst (die t code s) = Ok (Some code)"
  by (simp add: die_def exit_with_def errln_def err_out_def go_defs)

lemma parse_flags_exit: "parse_flags vals args = FlagExit code \<Longrightarrow> code = 0 \<or> code = 2"
  by (induction vals args rule: parse_flags.induct)
    (auto split: option.splits if_splits prod.splits list.splits)

lemma logging_setup_exit: "logging_setup env dp path s = (Ok (Inl code), t) \<Longrightarrow> code = 1"
  unfolding logging_setup_def
  by (auto simp: Let_def split: sum.splits option.splits elim!: go_try_OkE go_bind_OkE)

section \<open>What was answered\<close>

text \<open>The outside, with a record of every answer of an HTTP service.\<close>

type_synonym answers_log = "(http_request \<times> http_outcome) list"

definition beside :: "('w \<Rightarrow> 'r \<times> 'w) \<Rightarrow> 'w \<times> answers_log \<Rightarrow> 'r \<times> ('w \<times> answers_log)" where
  "beside f = (\<lambda>(w, l). case f w of (r, w') \<Rightarrow> (r, w', l))"

definition recording :: "'w env \<Rightarrow> ('w \<times> answers_log) env" where
  "recording env = \<lparr>env_http = (\<lambda>rq (w, l). case env_http env rq w of (res, w') \<Rightarrow> (res, w', l @ [(rq, res)])),
     env_now = beside (env_now env), env_sleep = (\<lambda>d. beside (env_sleep env d)),
     env_read = (\<lambda>p. beside (env_read env p)), env_write = (\<lambda>p d. beside (env_write env p d)),
     env_temp = (\<lambda>p d. beside (env_temp env p d)), env_chmod = (\<lambda>p. beside (env_chmod env p)),
     env_rename = (\<lambda>p d. beside (env_rename env p d)), env_remove = (\<lambda>p. beside (env_remove env p)),
     env_mkdir = (\<lambda>p. beside (env_mkdir env p)), env_open = (\<lambda>p. beside (env_open env p)),
     env_dial = (\<lambda>u. beside (env_dial env u)), env_ws_write = (\<lambda>k d. beside (env_ws_write env k d)),
     env_ws_read = (\<lambda>k. beside (env_ws_read env k)), env_rand = (\<lambda>n. beside (env_rand env n)),
     env_ctx = beside (env_ctx env), env_line = beside (env_line env), env_tty = beside (env_tty env),
     env_text = env_text env\<rparr>"

definition is_refresh :: "http_request \<Rightarrow> bool" where
  "is_refresh rq \<longleftrightarrow> rq_method rq = ''POST'' \<and> (\<exists>base. rq_url rq = base @ ''/token?grant_type=refresh_token'')"

definition told_revoked :: "'w \<times> answers_log \<Rightarrow> bool" where
  "told_revoked x \<longleftrightarrow> (\<exists>rq res. (rq, res) \<in> set (snd x) \<and> is_refresh rq \<and> says_revoked res)"

interpretation was_told: telling "recording env" told_revoked for env :: "'w env"
proof unfold_locales
  fix c :: "('w \<times> answers_log) sb_client" and body and w w' :: "'w \<times> answers_log" and res
  assume "env_http (recording env) (refresh_request c body) w = (res, w')" "says_revoked res"
  then have "(refresh_request c body, res) \<in> set (snd w')"
    by (auto simp: recording_def split: prod.splits)
  with \<open>says_revoked res\<close> show "told_revoked w'"
    unfolding told_revoked_def by (intro exI conjI) (auto simp: refresh_request_def is_refresh_def)
qed

text \<open>
  Claim C11: the exit code by which systemd is told not to start the agent again is given only if, in this
  run, the token endpoint answered a request of the agent by saying that the session is revoked.
\<close>

theorem exit_revoked_only_if_told:
  fixes env :: "'w env"
  assumes "runAgent (recording env) dp args ws s = (Ok (Some exitRevoked), t)" "snd (ext s) = []"
  shows "\<exists>rq res. (rq, res) \<in> set (snd (ext t)) \<and> is_refresh rq \<and> says_revoked res"
proof -
  let ?env = "recording env"
  note run = assms(1)
  then obtain vals rest where f: "parse_flags run_flags args = Parsed vals rest"
    using parse_flags_exit [of run_flags args]
    by (cases "parse_flags run_flags args") (auto simp: runAgent_def exit_with_def exitRevoked_def)
  let ?path = "flag_value vals ''config''"
  let ?boot = "\<lambda>rc. go_try (Start (d_isprint dp) ?env (d_yaml dp) (d_hpke dp) (d_gen dp) ?path rc ws) (\<lambda>r. case r of
            Inl e \<Rightarrow>
              if errors_is e ErrRefreshRevoked
              then die (''supabase session revoked '' @ dash @ '' re-enroll with --register'') exitRevoked
              else die (''agent exited: '' @ err_text ?env e) 1
          | Inr stopped \<Rightarrow> if stopped then exit_with 0 else go_return None)"
  from run f obtain su u where l: "logging_setup ?env dp ?path s = (Ok su, u)"
    and r: "(case su of Inl code \<Rightarrow> exit_with code
      | Inr (level, rotation) \<Rightarrow>
        go_bind (newLogSink ?env rotation) (\<lambda>_.
        go_bind (rc_Load ?env (NewFetcher (flag_value vals ''remote-config-cache''))) (\<lambda>(rc, source).
        if version_refused dp rc then exit_with 1 else ?boot rc))) u = (Ok (Some exitRevoked), t)"
    unfolding runAgent_def by (auto simp: Let_def elim!: go_bind_OkE)
  from logging_setup_exit [of ?env dp ?path s _ u] l r obtain level rotation where "su = Inr (level, rotation)"
    by (cases su) (auto simp: exit_with_def exitRevoked_def)
  with r obtain rc v where "?boot rc v = (Ok (Some exitRevoked), t)"
    by (auto simp: exit_with_def exitRevoked_def elim!: go_bind_OkE split: if_splits)
  then have "told_revoked (ext t)"
  proof (cases rule: go_try_OkE)
    case (ok stopped w)
    then show ?thesis by (auto simp: exit_with_def exitRevoked_def split: if_splits)
  next
    case (failed e w)
    then have e: "errors_is e ErrRefreshRevoked" "ext t = ext w"
      using exit_code_of_die [of "''agent exited: '' @ err_text ?env e" 1 w]
      by (auto simp: exitRevoked_def die_def errln_def err_out_def exit_with_def go_simps split: if_splits elim!: go_bind_OkE)
    with unrevokedD [OF was_told.Start_unrevoked failed(1)] show ?thesis by simp
  qed
  then show ?thesis by (simp add: told_revoked_def)
qed

end
