(* ===== verification/CommandOnce.thy ===== *)
theory CommandOnce
  imports Clients
begin

text \<open>
  The same row can reach the agent several times: from the Realtime stream, from the catch-up after
  a reconnect, and in a second agent of the cluster; each delivery is a run of \<open>Handle\<close> in its own
  goroutine. The claim decides between them. Its contract is what the filter
  \<open>status=eq.pending\<close> of the UPDATE promises: a row is returned to at most one of the updates
  that set it to claimed.
\<close>

section \<open>Any number of runs\<close>

text \<open>
  A job is a command together with the state in which its run starts; nothing relates the states of
  different jobs, so the runs can be interleaved in any way with one another and with the rest of the
  world.
\<close>

definition runs_of ::
  "('s \<Rightarrow> int \<times> 's) \<Rightarrow> 's ProxmoxActor \<Rightarrow> 's CommandStore \<Rightarrow> ('k, 'p, 'o, 'l) hpke \<Rightarrow> Dispatcher \<Rightarrow>
   (Command \<times> 's) list \<Rightarrow> int \<Rightarrow> call list list" where
  "runs_of nowf pve store lib d jobs i =
     map (\<lambda>(cmd, s). calls_of nowf pve store lib d cmd s) (filter (\<lambda>(cmd, _). ID cmd = i) jobs)"

definition granted :: "int \<Rightarrow> call list \<Rightarrow> bool" where
  "granted i tr \<longleftrightarrow> Claimed i (Ok True) \<in> set tr"

lemma handled_granted: "handled ex i T v tr \<Longrightarrow> length (filter is_acted tr) \<le> (if granted i tr then 1 else 0)"
  by (induction rule: handled.induct) (auto simp: granted_def)

lemma acted_le_granted:
  "\<forall>tr \<in> set trs. \<exists>ex T v. handled ex i T v tr \<Longrightarrow>
     length (filter is_acted (concat trs)) \<le> length (filter (granted i) trs)"
proof (induction trs)
  case (Cons tr trs)
  then obtain ex T v where "handled ex i T v tr" by auto
  from handled_granted [OF this] Cons show ?case by (auto split: if_splits)
qed simp

text \<open>
  Claim C5: however often a command is delivered and however the runs interleave, if the store grants
  its claim to at most one run, Proxmox is asked at most once to carry it out.
\<close>

theorem acts_at_most_once:
  assumes "length (filter (granted i) (runs_of nowf pve store lib d jobs i)) \<le> 1"
  shows "length (filter is_acted (concat (runs_of nowf pve store lib d jobs i))) \<le> 1"
proof -
  have "\<forall>tr \<in> set (runs_of nowf pve store lib d jobs i). \<exists>ex T v. handled ex i T v tr"
    using Handle_trace [folded calls_of_def] by (fastforce simp: runs_of_def)
  from acted_le_granted [OF this] assms show ?thesis by simp
qed


section \<open>What the backend promises for a claim\<close>

text \<open>
  \<open>pend\<close> is the set of the ids that are not yet granted: those of pending rows and of rows that do
  not exist yet. The promises: nothing returns an id to that set, and an answer with a row to an UPDATE
  filtered by \<open>status=eq.pending\<close> means that the id was in the set and no longer is.
\<close>

definition claim_rq :: "'w sb_client \<Rightarrow> int \<Rightarrow> string \<Rightarrow> string \<Rightarrow> http_request" where
  "claim_rq c i body token =
     patch_request c (claim_path ''commands'' i) body ''return=representation'' token"

definition row_answer :: "int \<Rightarrow> string \<Rightarrow> bool" where
  "row_answer status raw \<longleftrightarrow> ok_status status \<and>
     (case json_unmarshal (decode_list (\<lambda>r _. Some r)) raw of Inl _ \<Rightarrow> False | Inr rows \<Rightarrow> rows \<noteq> [])"

definition gives_row :: "http_outcome \<Rightarrow> bool" where
  "gives_row res = (case res of Response status raw \<Rightarrow> row_answer status raw
     | ReadFailed status raw _ \<Rightarrow> row_answer status raw | _ \<Rightarrow> False)"

definition atomic_claims :: "'w env \<Rightarrow> 'w sb_client \<Rightarrow> ('w \<Rightarrow> int set) \<Rightarrow> bool" where
  "atomic_claims env c pend \<longleftrightarrow>
     (\<forall>i body token w. gives_row (fst (env_http env (claim_rq c i body token) w)) \<longrightarrow>
        i \<in> pend w \<and> i \<notin> pend (snd (env_http env (claim_rq c i body token) w))) \<and>
     (\<forall>rq w. pend (snd (env_http env rq w)) \<subseteq> pend w) \<and>
     (\<forall>w. pend (snd (env_now env w)) \<subseteq> pend w) \<and>
     (\<forall>f tok s. persist c = Some f \<longrightarrow> pend (ext (snd (f tok s))) \<subseteq> pend (ext s))"

definition shrinks :: "'w env \<Rightarrow> 'w sb_client \<Rightarrow> ('w \<Rightarrow> int set) \<Rightarrow> 'w agent \<Rightarrow> 'w agent \<Rightarrow> bool" where
  "shrinks env c pend s t \<longleftrightarrow> (atomic_claims env c pend \<longrightarrow> pend (ext t) \<subseteq> pend (ext s))"

interpretation shrinks: sb_effect "shrinks env c pend" env c
  for env :: "'w env" and c :: "'w sb_client" and pend
proof unfold_locales
  fix rq
  show "changes (shrinks env c pend) (http_send env Sb rq)"
    by (auto simp: changes_def shrinks_def http_send_def atomic_claims_def split: prod.splits)
      (metis snd_conv subsetD)
next
  fix s :: "'w agent"
  show "shrinks env c pend s (snd (now_val env s))"
    by (auto simp: shrinks_def now_val_def atomic_claims_def split: prod.splits)
      (metis snd_conv subsetD)
qed (auto simp: changes_def shrinks_def atomic_claims_def)

lemma shrinksD:
  "changes (shrinks env c pend) m \<Longrightarrow> atomic_claims env c pend \<Longrightarrow> m s = (r, t) \<Longrightarrow>
     pend (ext t) \<subseteq> pend (ext s)"
  by (metis changesD shrinks_def)

lemma attempt_claims:
  assumes "atomic_claims env c pend" "attempt env (claim_rq c i body token) s = (Ok (status, raw), t)"
    "row_answer status raw"
  shows "i \<in> pend (ext s) \<and> i \<notin> pend (ext t)"
  using assms
  by (auto simp: attempt_def go_bind_def http_send_def atomic_claims_def gives_row_def
      split: prod.splits http_outcome.splits) (metis fst_conv snd_conv http_outcome.simps(15,16))+

lemma with_token_claims:
  assumes c: "atomic_claims env c pend"
    and w: "with_token env c (claim_rq c i body) s = (Ok (status, raw), t)" and a: "row_answer status raw"
  shows "i \<in> pend (ext s) \<and> i \<notin> pend (ext t)"
proof -
  from w obtain token u st rw v where acc: "access env c s = (Ok token, u)"
    and att: "attempt env (claim_rq c i body token) u = (Ok (st, rw), v)"
    and rest: "(if st = 401 then go_bind (refresh env c) (\<lambda>token'. attempt env (claim_rq c i body token'))
       else go_return (st, rw)) v = (Ok (status, raw), t)"
    unfolding with_token_def by (auto elim!: go_bind_OkE)
  have u: "pend (ext u) \<subseteq> pend (ext s)" by (rule shrinksD [OF shrinks.access_R c acc])
  have v: "pend (ext v) \<subseteq> pend (ext u)" by (rule shrinksD [OF shrinks.attempt_R c att])
  show ?thesis
  proof (cases "st = 401")
    case True
    with rest obtain token' x where "refresh env c v = (Ok token', x)"
      "attempt env (claim_rq c i body token') x = (Ok (status, raw), t)"
      by (auto elim!: go_bind_OkE)
    with attempt_claims [OF c _ a] shrinksD [OF shrinks.refresh_R c] u v show ?thesis by blast
  next
    case False
    with rest attempt_claims [OF c att] a u show ?thesis by auto
  qed
qed

lemma ClaimCommand_takes_row:
  assumes c: "atomic_claims env c pend" and r: "ClaimCommand env c i s = (Ok True, t)"
  shows "i \<in> pend (ext s) \<and> i \<notin> pend (ext t)"
proof -
  from r obtain n u body rows where n: "now env s = (Ok n, u)"
    and p: "patchRowReturning env c (claim_path ''commands'' i) body u = (Ok rows, t)" "rows \<noteq> []"
    unfolding ClaimCommand_def
    by (auto elim!: go_bind_OkE simp: marshal_def go_simps split: option.splits)
  from p obtain status raw where "with_token env c (claim_rq c i body) u = (Ok (status, raw), t)"
    "row_answer status raw"
    unfolding patchRowReturning_def patchWithAuth_def
    by (auto elim!: go_bind_OkE split: if_splits sum.splits simp: claim_rq_def [abs_def] row_answer_def)
  from with_token_claims [OF c this] shrinksD [OF shrinks.now_R c n] show ?thesis by blast
qed

text \<open>
  Claim C6: against a backend with atomic updates a command is granted once: after a claim that
  returned true, in this agent or in another one, no claim of the same command returns true, whatever
  happens in between.
\<close>

theorem ClaimCommand_once:
  assumes "atomic_claims env c pend" "atomic_claims env' c' pend"
    and "ClaimCommand env c i s = (Ok True, t)"
    and "pend (ext s') \<subseteq> pend (ext t)"
  shows "fst (ClaimCommand env' c' i s') \<noteq> Ok True"
proof
  assume "fst (ClaimCommand env' c' i s') = Ok True"
  then obtain t' where "ClaimCommand env' c' i s' = (Ok True, t')" by (metis prod.collapse)
  with ClaimCommand_takes_row assms show False by blast
qed

end
