(* ===== verification/Demo.thy ===== *)
theory Demo
  imports Exits CommandOnce
begin

text \<open>
  Concrete surroundings of the agent, on which the theorems are tried out: services that answer every
  request the same way, a clock that moves with the waits only, a YAML library and an HPKE library
  that are as small as their laws allow, and a command with its payload.
\<close>

section \<open>Services\<close>

text \<open>Every call of the operating system and of the WebSocket library succeeds.\<close>

definition plain_env :: "(http_request \<Rightarrow> 'w \<Rightarrow> http_outcome \<times> 'w) \<Rightarrow> 'w env" where
  "plain_env http = \<lparr>env_http = http, env_now = (\<lambda>w. (0, w)), env_sleep = (\<lambda>d w. (None, w)),
     env_read = (\<lambda>_ w. (None, w)), env_write = (\<lambda>_ _ w. (None, w)), env_temp = (\<lambda>_ _ w. (Inr ''t'', w)),
     env_chmod = (\<lambda>_ w. (None, w)), env_rename = (\<lambda>_ _ w. (None, w)), env_remove = (\<lambda>_ w. (None, w)),
     env_mkdir = (\<lambda>_ w. (None, w)), env_open = (\<lambda>_ w. (None, w)), env_dial = (\<lambda>_ w. (Inr 1, w)),
     env_ws_write = (\<lambda>_ _ w. (None, w)), env_ws_read = (\<lambda>_ w. (Inr '''', w)),
     env_rand = (\<lambda>_ w. (0, w)), env_ctx = (\<lambda>w. (None, w)), env_line = (\<lambda>w. (('''', Some (LibText ''EOF'')), w)), env_tty = (\<lambda>w. (False, w)),
     env_text = (\<lambda>_. '''')\<rparr>"

definition answers :: "http_outcome \<Rightarrow> unit env" where
  "answers res = plain_env (\<lambda>_ w. (res, w))"

definition clock_env :: "http_outcome \<Rightarrow> int env" where
  "clock_env res = (plain_env (\<lambda>_ w. (res, w)))\<lparr>env_now := (\<lambda>w. (w, w)),
     env_sleep := (\<lambda>d w. (None, w + max 0 d))\<rparr>"

lemmas demo_env = answers_def clock_env_def plain_env_def

lemma clock_env_clocked: "clocked (clock_env res) id"
  by (simp add: clocked_def demo_env)

section \<open>The agent\<close>

definition idle :: "'w \<Rightarrow> 'w agent" where
  "idle w = \<lparr>ext = w, log = [], sb_access = ''A'', sb_expires = dur_min 60, sb_refresh = ''R'',
     sb_subs = [], sb_refs = (\<lambda>_. 0), sb_loop = False, fs = (\<lambda>_. None)\<rparr>"

definition demo_client :: "(string \<Rightarrow> ('w agent, unit) go) option \<Rightarrow> 'w sb_client" where
  "demo_client per = \<lparr>baseURL = ''https://s'', publishableKey = ''k'', authBase = ''https://s/auth/v1'',
     restBase = ''https://s/rest/v1'', realtimeURL = ''wss://s'', persist = per\<rparr>"

definition no_persist :: "string \<Rightarrow> ('w agent, unit) go" where
  "no_persist tok = go_return ()"

definition demo_pve :: pve_client where
  "demo_pve = New_pve \<lparr>APIURL = ''https://p'', APITokenID = ''i'', APITokenSecret = ''s'', VerifyTLS = False\<rparr>"

lemma demo_client_persist [simp]: "persist (demo_client p) = p"
  by (simp add: demo_client_def)

lemma demo_client_file_persist: "file_persist (demo_client (Some no_persist))" "persists (demo_client (Some no_persist))"
  by (auto simp: file_persist_def persists_def no_persist_def [abs_def] intro: adds.return keeps_tokens.return)

text \<open>The client of a world without a state of its own.\<close>

abbreviation demo_sb :: "unit sb_client" where "demo_sb \<equiv> demo_client (Some no_persist)"

section \<open>JSON texts\<close>

definition quoted :: "string \<Rightarrow> string" where "quoted t = [CHR 0x22] @ t @ [CHR 0x22]"

definition start_cmd :: Command where
  "start_cmd = \<lparr>ID = 7, HostID = '''', Kind = ''start'',
     Payload = ''{'' @ quoted ''guest_kind'' @ '':'' @ quoted ''lxc'' @ '','' @ quoted ''node'' @ '':'' @ quoted ''p'' @ '','' @
       quoted ''vmid'' @ '':9}'', Status = '''', ExpiresAt = 0\<rparr>"

definition tokens_body :: string where
  "tokens_body = ''{'' @ quoted ''access_token'' @ '':'' @ quoted ''A2'' @ '','' @ quoted ''refresh_token'' @ '':'' @ quoted ''R2'' @
     '','' @ quoted ''expires_in'' @ '':3600}''"

definition revoked_body :: string where
  "revoked_body = ''{'' @ quoted ''error_code'' @ '':'' @ quoted ''refresh_token_already_used'' @ ''}''"

definition stopped_body :: string where
  "stopped_body = ''{'' @ quoted ''data'' @ '':{'' @ quoted ''status'' @ '':'' @ quoted ''stopped'' @ '','' @ quoted ''exitstatus'' @ '':'' @
     quoted ''OK'' @ ''}}''"

lemma demo_json:
  "parse_refresh tokens_body = Inr \<lparr>AccessToken = ''A2'', RefreshToken = ''R2'', ExpiresIn = 3600,
     TokenType = '''', ErrorCode = '''', ErrorMsg = ''''\<rparr>"
  "map_sum id ErrorCode (parse_refresh revoked_body) = Inr ''refresh_token_already_used''"
  "json_unmarshal (decode_list (\<lambda>r _. Some r)) ''[1]'' = Inr [''1'']"
  by code_simp+

section \<open>A store and an actor\<close>

text \<open>One row that is pending until it is claimed, and a Proxmox whose tasks end well.\<close>

definition one_row :: "bool CommandStore" where
  "one_row = \<lparr>cs_ClaimCommand = (\<lambda>_ pending. (Ok pending, False)),
     cs_CompleteCommand = (\<lambda>_ _ _ pending. (Ok (), pending))\<rparr>"

definition good_pve :: "'s ProxmoxActor" where
  "good_pve = \<lparr>pa_PerformAction = (\<lambda>_ _ _ _ s. (Ok ''U'', s)), pa_CreateSnapshot = (\<lambda>_ _ _ _ _ _ s. (Ok ''U'', s)),
     pa_DeleteSnapshot = (\<lambda>_ _ _ _ s. (Ok ''U'', s)), pa_RollbackSnapshot = (\<lambda>_ _ _ _ s. (Ok ''U'', s)),
     pa_CreateVM = (\<lambda>_ s. (Ok ''U'', s)), pa_CreateLXC = (\<lambda>_ s. (Ok ''U'', s)),
     pa_DeleteGuest = (\<lambda>_ _ _ _ _ s. (Ok ''U'', s)),
     pa_AwaitTaskCompletion = (\<lambda>_ _ _ s. (Ok \<lparr>UPID = ''U'', Done = True, ExitStatus = ''OK''\<rparr>, s))\<rparr>"


section \<open>Libraries\<close>

text \<open>A cipher that marks the text with the key: as little as \<open>hpke_correct\<close> allows.\<close>

definition demo_hpke :: "(string, string, string, string) hpke" where
  "demo_hpke = \<lparr>hp_unmarshal_private = Inr, hp_marshal_private = Inr, hp_public = id, hp_marshal_public = Inr,
     hp_unmarshal_public = Inr, hp_new_receiver = (\<lambda>_. None), hp_setup_receiver = (\<lambda>k _. Inr k),
     hp_open = (\<lambda>k ct. if take (length k) ct = k then Inr (drop (length k + 1) ct) else Inl (LibText ''open'')),
     hp_new_sender = (\<lambda>_. None), hp_setup_sender = (\<lambda>p _. Inr (replicate 32 CHR ''e'', p)),
     hp_seal = (\<lambda>p m. Inr (p @ CHR ''#'' # m))\<rparr>"

lemma demo_hpke_correct: "hpke_correct demo_hpke"
  by (simp add: hpke_correct_def demo_hpke_def)

text \<open>Configurations with a token and a key, written on one line; the rest is the same in all.\<close>

definition line_base :: File where
  "line_base = snd (EnsureDefaults (empty_file\<lparr>
     f_Supabase := (f_Supabase empty_file)\<lparr>sc_ClusterID := ''c''\<rparr>,
     f_Proxmox := (f_Proxmox empty_file)\<lparr>px_APIURL := ''https://p'', px_APITokenID := ''i'', px_APITokenSecret := ''s''\<rparr>\<rparr>))"

definition line_file :: "string \<Rightarrow> string \<Rightarrow> File" where
  "line_file tok key = set_private_key key (set_refresh_token tok line_base)"

definition on_line :: "string \<Rightarrow> bool" where
  "on_line v \<longleftrightarrow> CHR 0x0A \<notin> set v"

definition line_yaml :: "unit yaml" where
  "line_yaml = \<lparr>y_encode = (\<lambda>f. let tok = sc_RefreshToken (f_Supabase f); key = sc_PrivateKey (f_Supabase f) in
       if f = line_file tok key \<and> CHR '';'' \<notin> set tok
       then Inr (YNode OtherNode (tok @ CHR '';'' # key) [] '''' ()) else Inl (LibText ''encode'')),
     y_marshal = (\<lambda>n. if on_line (Value n) then Inr (Value n) else Inl (LibText ''marshal'')),
     y_unmarshal = (\<lambda>data. let l = rev (takeWhile (\<lambda>c. c \<noteq> CHR 0x0A) (rev data)) in
       Inr (line_file (takeWhile (\<lambda>c. c \<noteq> CHR '';'') l) (drop 1 (dropWhile (\<lambda>c. c \<noteq> CHR '';'') l))))\<rparr>"

lemma last_line:
  assumes "on_line v"
  shows "rev (takeWhile (\<lambda>c. c \<noteq> CHR 0x0A) (rev (concat (map (\<lambda>l. l @ [CHR 0x0A]) ls) @ v))) = v"
proof -
  have v: "takeWhile (\<lambda>c. c \<noteq> CHR 0x0A) (rev v @ w) = rev v @ takeWhile (\<lambda>c. c \<noteq> CHR 0x0A) w" for w
    using assms by (intro takeWhile_append2) (auto simp: on_line_def)
  have t: "takeWhile (\<lambda>c. c \<noteq> CHR 0x0A) (rev v) = rev v"
    using assms by (simp add: takeWhile_eq_all_conv on_line_def) metis
  show ?thesis by (cases ls rule: rev_cases) (simp_all add: v t)
qed

lemma split_line:
  "CHR '';'' \<notin> set t \<Longrightarrow> takeWhile (\<lambda>c. c \<noteq> CHR '';'') (t @ CHR '';'' # k) = t \<and>
     drop 1 (dropWhile (\<lambda>c. c \<noteq> CHR '';'') (t @ CHR '';'' # k)) = k"
  by (induction t) auto

lemma uncomment_Value: "uncomment m = uncomment n \<Longrightarrow> Value m = Value n"
  by (cases m; cases n) simp

lemma line_yaml_ok: "yaml_ok line_yaml"
proof -
  have "y_unmarshal line_yaml (concat (map (\<lambda>l. l @ [CHR 0x0A]) ls) @ data) = Inr f"
    if e: "y_encode line_yaml f = Inr root" and u: "uncomment root' = uncomment root"
      and m: "y_marshal line_yaml root' = Inr data" for f root root' ls data
  proof -
    let ?tok = "sc_RefreshToken (f_Supabase f)" and ?key = "sc_PrivateKey (f_Supabase f)"
    from e have f: "f = line_file ?tok ?key" "CHR '';'' \<notin> set ?tok" "Value root = ?tok @ CHR '';'' # ?key"
      by (auto simp: line_yaml_def Let_def split: if_splits)
    from m uncomment_Value [OF u] f(3) have d: "data = ?tok @ CHR '';'' # ?key" "on_line data"
      by (auto simp: line_yaml_def split: if_splits)
    show ?thesis
      using last_line [OF d(2), of ls] split_line [OF f(2), of ?key] f(1) d(1)
      by (simp add: line_yaml_def)
  qed
  then show ?thesis by (simp add: yaml_ok_def)
qed


section \<open>A cloud\<close>

text \<open>
  A Proxmox that has nothing to tell, an enrollment that always succeeds, a token endpoint that answers
  \<open>auth\<close>, no server for the remote
  configuration, and a REST service that knows no rows.
\<close>

definition enroll_body :: string where
  "enroll_body = ''{'' @ quoted ''cluster_id'' @ '':'' @ quoted ''c'' @ '','' @ quoted ''refresh_token'' @ '':'' @ quoted ''R3'' @ ''}''"

definition has_suffix :: "string \<Rightarrow> string \<Rightarrow> bool" where
  "has_suffix s x \<longleftrightarrow> has_prefix (rev s) (rev x)"

definition cloud_http :: "http_outcome \<Rightarrow> http_request \<Rightarrow> http_outcome" where
  "cloud_http auth rq =
     (if has_prefix (rq_url rq) ''https://p/'' then Response 200 (''{'' @ quoted ''data'' @ '':{}}'')
      else if has_suffix (rq_url rq) ''/token?grant_type=refresh_token'' then auth
      else if has_suffix (rq_url rq) ''/enroll-agent'' then Response 200 enroll_body
      else if rq_url rq = DefaultEndpoint then DoFailed CtxDeadline
      else Response 200 ''[]'')"

definition cloud :: "http_outcome \<Rightarrow> unit env" where
  "cloud auth = plain_env (\<lambda>rq w. (cloud_http auth rq, w))"

definition demo_deps :: "(unit, string, string, string, string) deps" where
  "demo_deps = \<lparr>d_isprint = (\<lambda>_. True), d_yaml = line_yaml, d_hpke = demo_hpke, d_gen = Inr (''p'', ''p''),
     d_sv_valid = (\<lambda>_. False), d_sv_compare = (\<lambda>_ _. 0), d_version = ''dev''\<rparr>"

definition installed_in :: "'w \<Rightarrow> string \<Rightarrow> string \<Rightarrow> 'w agent" where
  "installed_in w path text = (idle w)\<lparr>fs := (\<lambda>_. None)(path \<mapsto> text)\<rparr>"

definition installed :: "string \<Rightarrow> string \<Rightarrow> unit agent" where
  "installed path text = (idle ())\<lparr>fs := (\<lambda>_. None)(path \<mapsto> text)\<rparr>"

end
