(* ===== verification/Goroutines.thy ===== *)
theory Goroutines
  imports Session
begin

text \<open>
  Goroutines that overlap. \<open>refresh\<close> holds the mutex of the client while it reads the token and while it
  stores the new ones, but not in between, so several goroutines can be in the middle of a refresh. Here
  \<open>refresh\<close>, with the \<open>persist\<close> function that \<open>Start\<close> gives the client, is cut at every access to what
  goroutines share: the token fields, the token endpoint and the files. \<open>agent_step\<close> lets any number of
  goroutines take these steps in any order, between whatever else the agent does.
\<close>

section \<open>A refresh, step by step\<close>

text \<open>Where a goroutine is in \<open>refresh\<close>, with its local variables.\<close>

datatype refresh_phase =
    Resting
  | Presenting string
  | Answered refreshResponse
  | Reloaded refreshResponse File
  | Created refreshResponse File string
  | Written refreshResponse string
  | Restricted refreshResponse string
  | Dropping string
  | Persisted refreshResponse

text \<open>The tokens of an answer, if \<open>refresh\<close> goes on to \<open>persist\<close> with it.\<close>

definition offered :: "http_outcome \<Rightarrow> refreshResponse option" where
  "offered res = (case res of
     Response status raw \<Rightarrow> (case parse_refresh raw of
         Inl _ \<Rightarrow> None
       | Inr p \<Rightarrow> if status = 200 \<and> AccessToken p \<noteq> '''' \<and> RefreshToken p \<noteq> '''' then Some p else None)
   | _ \<Rightarrow> None)"

definition went :: "('w agent, 'a) go \<Rightarrow> ('a \<Rightarrow> refresh_phase) \<Rightarrow> refresh_phase \<Rightarrow> 'w agent \<Rightarrow> refresh_phase \<times> 'w agent" where
  "went m ok failed s = (case m s of (Ok a, t) \<Rightarrow> (ok a, t) | (_, t) \<Rightarrow> (failed, t))"

text \<open>The steps of \<open>persistRefreshTo\<close>; a rename that succeeded is the return of nil.\<close>

fun persist_step :: "'w env \<Rightarrow> 'x yaml \<Rightarrow> string \<Rightarrow> refresh_phase \<Rightarrow> 'w agent \<Rightarrow> refresh_phase \<times> 'w agent" where
  "persist_step env y path (Answered p) s = went (Load env y path) (Reloaded p) Resting s"
| "persist_step env y path (Reloaded p cfg) s =
     went (CreateTemp env (path_dir path) ''.config-*.yml'') (Created p cfg) Resting s"
| "persist_step env y path (Created p cfg tmp) s =
     went (Save env y tmp (set_refresh_token (RefreshToken p) cfg)) (\<lambda>_. Written p tmp) (Dropping tmp) s"
| "persist_step env y path (Written p tmp) s = went (Chmod env tmp) (\<lambda>_. Restricted p tmp) (Dropping tmp) s"
| "persist_step env y path (Restricted p tmp) s = went (Rename env tmp path) (\<lambda>_. Persisted p) (Dropping tmp) s"
| "persist_step env y path (Dropping tmp) s = went (Remove env tmp) (\<lambda>_. Resting) Resting s"
| "persist_step env y path ph s = (ph, s)"

text \<open>The steps of \<open>refresh\<close>; one that returns, with or without an error, rests.\<close>

fun refresh_step ::
  "'w env \<Rightarrow> 'x yaml \<Rightarrow> string \<Rightarrow> 'w sb_client \<Rightarrow> refresh_phase \<Rightarrow> 'w agent \<Rightarrow> refresh_phase \<times> 'w agent" where
  "refresh_step env y path c Resting s = (Presenting (sb_refresh s), s)"
| "refresh_step env y path c (Presenting current) s =
     went (http_send env Sb (refresh_request c (refresh_body current)))
       (\<lambda>res. case offered res of None \<Rightarrow> Resting | Some p \<Rightarrow> Answered p) Resting s"
| "refresh_step env y path c (Persisted p) s = went (store_tokens env p) (\<lambda>_. Resting) Resting s"
| "refresh_step env y path c ph s = persist_step env y path ph s"

text \<open>A goroutine alone: some of its steps, one after the other.\<close>

definition alone ::
  "'w env \<Rightarrow> 'x yaml \<Rightarrow> string \<Rightarrow> 'w sb_client \<Rightarrow> refresh_phase \<times> 'w agent \<Rightarrow> refresh_phase \<times> 'w agent \<Rightarrow> bool" where
  "alone env y path c = (\<lambda>x z. z = refresh_step env y path c (fst x) (snd x))\<^sup>*\<^sup>*"

lemma alone_refl: "alone env y path c x x"
  by (simp add: alone_def)

lemma alone_trans: "alone env y path c x z \<Longrightarrow> alone env y path c z w \<Longrightarrow> alone env y path c x w"
  unfolding alone_def by (rule rtranclp_trans)

lemma alone_step: "refresh_step env y path c ph s = (q, t) \<Longrightarrow> alone env y path c (q, t) w \<Longrightarrow> alone env y path c (ph, s) w"
  unfolding alone_def by (rule converse_rtranclp_into_rtranclp) simp_all

text \<open>A call under \<open>removing_on_error\<close>, and the same call with a text around its error.\<close>

lemma alone_removing:
  assumes "removing_on_error env tmp m s = (r, t)" "returns m"
    and "refresh_step env y path c ph s = went m (\<lambda>_. q) (Dropping tmp) s"
  shows "alone env y path c (ph, s) (if r = Ok () then q else Resting, t)"
proof -
  obtain r1 u where m: "m s = (r1, u)" by force
  have "returned r1" using assms(2) m by (rule returnsD)
  obtain r2 v where v: "Remove env tmp u = (r2, v)" by force
  have "returned r2" using file_ops_return(6) v by (rule returnsD)
  have drop: "refresh_step env y path c (Dropping tmp) u = (Resting, v)"
    using v by (simp add: went_def split: outcome.splits)
  from assms(1) m v \<open>returned r1\<close> \<open>returned r2\<close> assms(3) show ?thesis
    by (cases r1; cases r2)
      (auto simp: removing_on_error_def go_simps go_try_def went_def
        intro!: alone_step [OF drop] alone_step [of _ _ _ _ ph] alone_refl)
qed

lemma alone_removing_wrap:
  assumes "removing_on_error env tmp (go_wrap ctx m) s = (r, t)" "returns m"
    and "refresh_step env y path c ph s = went m (\<lambda>_. q) (Dropping tmp) s"
  shows "alone env y path c (ph, s) (if r = Ok () then q else Resting, t)"
proof -
  obtain r' where "removing_on_error env tmp m s = (r', t)" "r' = Ok () \<longleftrightarrow> r = Ok ()"
    using assms(1) by (auto simp: removing_on_error_def go_try_def go_wrap_def go_fail_def go_return_def
        split: outcome.splits prod.splits)
  with alone_removing [OF _ assms(2,3)] show ?thesis by force
qed

lemma alone_persist:
  assumes "persistRefreshTo env y path (RefreshToken p) s = (r, t)"
  shows "alone env y path c (Answered p, s) (if r = Ok () then Persisted p else Resting, t)"
proof -
  obtain r1 s1 where l: "Load env y path s = (r1, s1)" by force
  obtain r2 s2 where k: "CreateTemp env (path_dir path) ''.config-*.yml'' s1 = (r2, s2)" by force
  have ret: "returned r1" "returned r2"
    using returnsD [OF Load_returns l] returnsD [OF file_ops_return(3) k] by simp_all
  have step1: "refresh_step env y path c (Answered p) s = (case r1 of Ok cfg \<Rightarrow> Reloaded p cfg | _ \<Rightarrow> Resting, s1)"
    using l by (simp add: went_def split: outcome.splits)
  show ?thesis
  proof (cases "\<exists>cfg tmp. r1 = Ok cfg \<and> r2 = Ok tmp")
    case False
    then consider e where "r1 = Fail e" | cfg e where "r1 = Ok cfg" "r2 = Fail e"
      using ret by (cases r1; cases r2) auto
    then show ?thesis
    proof cases
      case 1
      then have "\<exists>e. r = Fail e \<and> t = s1"
        using assms l by (auto simp: persistRefreshTo_def go_bind_def go_wrap_def)
      then show ?thesis using step1 1 by (auto intro!: alone_step [OF step1] alone_refl)
    next
      case 2
      then have r: "\<exists>e. r = Fail e \<and> t = s2"
        using assms l k by (auto simp: persistRefreshTo_def go_bind_def go_wrap_def)
      have "refresh_step env y path c (Reloaded p cfg) s1 = (Resting, s2)" using k 2 by (simp add: went_def)
      with r show ?thesis using step1 2 by (auto intro!: alone_step [OF step1] alone_step [of _ _ _ _ "Reloaded p cfg"] alone_refl)
    qed
  next
    case True
    then obtain cfg tmp where ok: "r1 = Ok cfg" "r2 = Ok tmp" by blast
    have step2: "refresh_step env y path c (Reloaded p cfg) s1 = (Created p cfg tmp, s2)" using k ok by (simp add: went_def)
    have tail: "persist_tail env y path tmp (set_refresh_token (RefreshToken p) cfg) s2 = (r, t)"
      using assms l k ok by (simp add: persistRefreshTo_def persist_tail_def go_simps go_bind_def go_wrap_def)
    let ?S = "removing_on_error env tmp (Save env y tmp (set_refresh_token (RefreshToken p) cfg))"
    obtain r3 s3 where S: "?S s2 = (r3, s3)" by force
    have a3: "alone env y path c (Created p cfg tmp, s2) (if r3 = Ok () then Written p tmp else Resting, s3)"
      by (rule alone_removing [OF S Save_returns]) simp
    let ?M = "removing_on_error env tmp (go_wrap ''chmod temp'' (Chmod env tmp))"
    obtain r4 s4 where M: "?M s3 = (r4, s4)" by force
    have a4: "alone env y path c (Written p tmp, s3) (if r4 = Ok () then Restricted p tmp else Resting, s4)"
      by (rule alone_removing_wrap [OF M]) (simp_all add: file_ops_return)
    let ?N = "removing_on_error env tmp (go_wrap ''rename temp'' (Rename env tmp path))"
    obtain r5 s5 where N: "?N s4 = (r5, s5)" by force
    have a5: "alone env y path c (Restricted p tmp, s4) (if r5 = Ok () then Persisted p else Resting, s5)"
      by (rule alone_removing_wrap [OF N]) (simp_all add: file_ops_return)
    have "alone env y path c (Created p cfg tmp, s2) (if r = Ok () then Persisted p else Resting, t)"
    proof (cases "r3 = Ok ()")
      case False
      with tail S have "r \<noteq> Ok () \<and> t = s3" by (cases r3) (auto simp: persist_tail_def go_simps)
      with a3 False show ?thesis by simp
    next
      case True
      note a34 = alone_trans [OF a3 [simplified True simp_thms if_True] a4]
      show ?thesis
      proof (cases "r4 = Ok ()")
        case False
        with tail S M True have "r \<noteq> Ok () \<and> t = s4" by (cases r4) (auto simp: persist_tail_def go_simps)
        with a34 False show ?thesis by simp
      next
        case t4: True
        with tail S M N True have "r = r5 \<and> t = s5" by (simp add: persist_tail_def go_simps)
        with alone_trans [OF a34 [simplified t4 simp_thms if_True] a5] show ?thesis by simp
      qed
    qed
    then show ?thesis
      using step1 ok by (auto intro!: alone_step [OF step1] alone_step [OF step2])
  qed
qed

text \<open>\<open>refresh\<close> is what a goroutine does that nobody interrupts.\<close>

lemma refresh_offered:
  assumes "agent_client env y path c" "http_send env Sb (refresh_request c (refresh_body (sb_refresh s))) s = (Ok res, u)"
  shows "snd (refresh env c s) = (case offered res of
      None \<Rightarrow> u
    | Some p \<Rightarrow> (case persistRefreshTo env y path (RefreshToken p) u of
        (Ok _, v) \<Rightarrow> snd (store_tokens env p v) | (_, v) \<Rightarrow> v))"
  unfolding refresh_eq
  using assms by (auto simp: go_bind_def go_fail_def go_wrap_def refresh_response_def call_persist_def
      agent_client_def offered_def
      split: http_outcome.splits sum.splits outcome.splits prod.splits)

theorem refresh_alone:
  assumes "agent_client env y path c"
  shows "alone env y path c (Resting, s) (Resting, snd (refresh env c s))"
proof -
  obtain res u where h: "http_send env Sb (refresh_request c (refresh_body (sb_refresh s))) s = (Ok res, u)"
    by (cases "env_http env (refresh_request c (refresh_body (sb_refresh s))) (ext s)") (simp add: http_send_def)
  note R = refresh_offered [OF assms h]
  have send: "refresh_step env y path c (Presenting (sb_refresh s)) s =
      (case offered res of None \<Rightarrow> Resting | Some p \<Rightarrow> Answered p, u)"
    using h by (simp add: went_def)
  have "alone env y path c (case offered res of None \<Rightarrow> Resting | Some p \<Rightarrow> Answered p, u) (Resting, snd (refresh env c s))"
  proof (cases "offered res")
    case None
    then show ?thesis using R by (simp add: alone_refl)
  next
    case (Some p)
    obtain r v where p: "persistRefreshTo env y path (RefreshToken p) u = (r, v)" by force
    note a = alone_persist [OF p, of c]
    show ?thesis
    proof (cases "r = Ok ()")
      case True
      have "refresh_step env y path c (Persisted p) v = (Resting, snd (store_tokens env p v))"
        by (auto simp: went_def split: outcome.splits prod.splits)
      with True R Some p show ?thesis
        by (auto intro!: alone_trans [OF a] alone_step [of _ _ _ _ "Persisted p"] alone_refl)
    next
      case False
      with R Some p a show ?thesis by (cases r) auto
    qed
  qed
  then show ?thesis by (auto intro!: alone_step [of _ _ _ _ Resting] alone_step [OF send])
qed

section \<open>Any number of goroutines\<close>

text \<open>
  \<open>on_file\<close>, \<open>adopted\<close> and \<open>overlapped\<close> are kept for the theorems only: the tokens that were renamed
  into the configuration file, in order; the tokens that the client took over, in order; and whether two
  goroutines were in the middle of a refresh at the same time.
\<close>

record 'w process =
  proc :: "'w agent"
  phase :: "nat \<Rightarrow> refresh_phase"
  on_file :: "string list"
  adopted :: "string list"
  overlapped :: bool

definition token_of :: "refresh_phase \<Rightarrow> string list" where
  "token_of ph = (case ph of Persisted p \<Rightarrow> [RefreshToken p] | _ \<Rightarrow> [])"

definition moved :: "nat \<Rightarrow> refresh_phase \<Rightarrow> 'w agent \<Rightarrow> 'w process \<Rightarrow> 'w process" where
  "moved g q t x = x\<lparr>proc := t, phase := (phase x)(g := q), on_file := on_file x @ token_of q,
     adopted := adopted x @ token_of (phase x g),
     overlapped := overlapped x \<or> q \<noteq> Resting \<and> (\<exists>g'. g' \<noteq> g \<and> phase x g' \<noteq> Resting)\<rparr>"

text \<open>What the agent does beside refreshing: of the files it changes the heartbeat file only.\<close>

definition elsewhere_ok :: "string \<Rightarrow> 'w agent \<Rightarrow> 'w agent \<Rightarrow> bool" where
  "elsewhere_ok hb s t \<longleftrightarrow> tokens t = tokens s \<and> (\<forall>p. p \<noteq> hb \<longrightarrow> fs t p = fs s p)"

inductive agent_step ::
  "'w env \<Rightarrow> 'x yaml \<Rightarrow> string \<Rightarrow> string \<Rightarrow> 'w sb_client \<Rightarrow> 'w process \<Rightarrow> 'w process \<Rightarrow> bool"
  for env y path hb c where
  refreshing: "refresh_step env y path c (phase x g) (proc x) = (q, t) \<Longrightarrow>
     agent_step env y path hb c x (moved g q t x)"
| elsewhere: "elsewhere_ok hb (proc x) t \<Longrightarrow> agent_step env y path hb c x (x\<lparr>proc := t\<rparr>)"

definition agent_run ::
  "'w env \<Rightarrow> 'x yaml \<Rightarrow> string \<Rightarrow> string \<Rightarrow> 'w sb_client \<Rightarrow> 'w process \<Rightarrow> 'w process \<Rightarrow> bool" where
  "agent_run env y path hb c = (agent_step env y path hb c)\<^sup>*\<^sup>*"

definition all_resting :: "'w agent \<Rightarrow> 'w process" where
  "all_resting s = \<lparr>proc = s, phase = (\<lambda>_. Resting), on_file = [], adopted = [], overlapped = False\<rparr>"

text \<open>The documentation of \<open>os.CreateTemp\<close>: the name is made of the pattern, so it is not the heartbeat's.\<close>

definition temp_apart :: "'w env \<Rightarrow> string \<Rightarrow> string \<Rightarrow> bool" where
  "temp_apart env path hb \<longleftrightarrow> (\<forall>w. fst (env_temp env (path_dir path) ''.config-*.yml'' w) \<noteq> Inr hb)"

section \<open>Invariants\<close>

definition temp_of :: "refresh_phase \<Rightarrow> string option" where
  "temp_of ph = (case ph of Created p cfg tmp \<Rightarrow> Some tmp | Written p tmp \<Rightarrow> Some tmp
     | Restricted p tmp \<Rightarrow> Some tmp | Dropping tmp \<Rightarrow> Some tmp | _ \<Rightarrow> None)"

text \<open>\<open>holds y base tok data\<close>: the text decodes to the configuration with this token.\<close>

definition holds :: "'x yaml \<Rightarrow> File \<Rightarrow> string \<Rightarrow> string option \<Rightarrow> bool" where
  "holds y base tok data \<longleftrightarrow> (\<exists>d. data = Some d \<and> y_unmarshal y d = Inr (set_refresh_token tok base))"

definition local_inv :: "'x yaml \<Rightarrow> File \<Rightarrow> 'w process \<Rightarrow> refresh_phase \<Rightarrow> bool" where
  "local_inv y base x ph = (case ph of
     Reloaded p cfg \<Rightarrow> \<exists>tok. cfg = set_refresh_token tok base
   | Created p cfg tmp \<Rightarrow> \<exists>tok. cfg = set_refresh_token tok base
   | Written p tmp \<Rightarrow> holds y base (RefreshToken p) (fs (proc x) tmp)
   | Restricted p tmp \<Rightarrow> holds y base (RefreshToken p) (fs (proc x) tmp)
   | Persisted p \<Rightarrow> RefreshToken p \<in> set (on_file x)
   | _ \<Rightarrow> True)"

definition temps_inv :: "string \<Rightarrow> string \<Rightarrow> 'w process \<Rightarrow> bool" where
  "temps_inv path hb x \<longleftrightarrow>
     (\<forall>g tmp. temp_of (phase x g) = Some tmp \<longrightarrow> fs (proc x) tmp \<noteq> None \<and> tmp \<noteq> path \<and> tmp \<noteq> hb) \<and>
     (\<forall>g h tmp. temp_of (phase x g) = Some tmp \<longrightarrow> temp_of (phase x h) = Some tmp \<longrightarrow> g = h)"

definition tokens_inv :: "'x yaml \<Rightarrow> string \<Rightarrow> File \<Rightarrow> string \<Rightarrow> 'w process \<Rightarrow> bool" where
  "tokens_inv y path base tok0 x \<longleftrightarrow>
     holds y base (last (tok0 # on_file x)) (fs (proc x) path) \<and>
     sb_refresh (proc x) = last (tok0 # adopted x) \<and> set (adopted x) \<subseteq> set (on_file x) \<and>
     (\<forall>g. local_inv y base x (phase x g))"

definition order_inv :: "'w process \<Rightarrow> bool" where
  "order_inv x \<longleftrightarrow> (\<not> overlapped x \<longrightarrow>
     (\<exists>g. (\<forall>h. h \<noteq> g \<longrightarrow> phase x h = Resting) \<and> on_file x = adopted x @ token_of (phase x g)))"

lemma wentE:
  assumes "went m ok failed s = (q, t)"
  obtains a where "m s = (Ok a, t)" "q = ok a" | r where "m s = (r, t)" "\<forall>a. r \<noteq> Ok a" "q = failed"
  using assms by (cases "m s"; cases "fst (m s)") (auto simp: went_def)

lemma http_send_fs: "http_send env ev rq s = (r, t) \<Longrightarrow> fs t = fs s \<and> sb_refresh t = sb_refresh s"
  by (auto simp: http_send_def split: prod.splits)

lemma Save_files:
  assumes "Save env y tmp f s = (r, t)"
  shows "\<exists>d. fs t = (fs s)(tmp := d) \<and> (fs s tmp \<noteq> None \<longrightarrow> d \<noteq> None) \<and> (r = Ok () \<longrightarrow> d \<noteq> None \<and> saved y f = d)"
proof (cases "r = Ok ()")
  case True
  with Save_Ok [of env y tmp f s t] assms show ?thesis by auto
next
  case False
  have "fs t = fs s \<or> (\<exists>d. fs t = (fs s)(tmp \<mapsto> d))"
    using assms by (auto simp: Save_def go_wrap_def go_fail_def WriteFile_def
        split: sum.splits prod.splits option.splits outcome.splits)
  with False show ?thesis by (metis fun_upd_triv option.distinct(1))
qed

lemma CreateTemp_files:
  "CreateTemp env dir pat s = (r, t) \<Longrightarrow>
     (\<exists>tmp. r = Ok tmp \<and> fs s tmp = None \<and> fs t = (fs s)(tmp \<mapsto> '''') \<and> (\<exists>w. fst (env_temp env dir pat w) = Inr tmp)) \<or>
     (\<forall>tmp. r \<noteq> Ok tmp) \<and> fs t = fs s"
  unfolding CreateTemp_def
  by (cases "env_temp env dir pat (ext s)"; cases "fst (env_temp env dir pat (ext s))")
    (auto split: if_split_asm intro!: exI [of _ "ext s"])

lemma Chmod_files: "Chmod env p s = (r, t) \<Longrightarrow> fs t = fs s"
  by (auto simp: Chmod_def split: prod.splits option.splits)

lemma Rename_files:
  "Rename env old new s = (r, t) \<Longrightarrow>
     (if r = Ok () then \<exists>d. fs s old = Some d \<and> fs t = (fs s)(old := None, new \<mapsto> d) else fs t = fs s)"
  by (auto simp: Rename_def split: prod.splits option.splits)

lemma Remove_files: "Remove env p s = (r, t) \<Longrightarrow> fs t = fs s \<or> fs t = (fs s)(p := None)"
  by (auto simp: Remove_def split: prod.splits option.splits)

lemma file_calls_token:
  "Load env y p s = (a, t) \<Longrightarrow> sb_refresh t = sb_refresh s" "CreateTemp env d pat s = (b, t) \<Longrightarrow> sb_refresh t = sb_refresh s"
  "Save env y p f s = (r, t) \<Longrightarrow> sb_refresh t = sb_refresh s" "Chmod env p s = (r, t) \<Longrightarrow> sb_refresh t = sb_refresh s"
  "Rename env p o' s = (r, t) \<Longrightarrow> sb_refresh t = sb_refresh s" "Remove env p s = (r, t) \<Longrightarrow> sb_refresh t = sb_refresh s"
  by (auto simp: Save_def Load_def go_bind_def go_wrap_def go_fail_def go_return_def file_ops
      split: sum.splits prod.splits option.splits outcome.splits if_split_asm)

lemma step_calls:
  "http_send env ev rq s = (r, t) \<Longrightarrow> fs t = fs s" "store_tokens env p s = (r', t) \<Longrightarrow> fs t = fs s"
  by (auto simp: http_send_def store_tokens_def now_val_def split: prod.splits)

text \<open>What a step does to the token of the client and to the files.\<close>

lemma refresh_step_token:
  "refresh_step env y path c ph s = (q, t) \<Longrightarrow>
     sb_refresh t = (case ph of Persisted p \<Rightarrow> RefreshToken p | _ \<Rightarrow> sb_refresh s)"
  by (cases ph) (auto elim!: wentE dest: http_send_fs file_calls_token store_tokens_result)

text \<open>The ways of a step: which files it touches and where it leads.\<close>

definition untied :: "refresh_phase \<Rightarrow> bool" where
  "untied ph \<longleftrightarrow> (case ph of Reloaded p cfg \<Rightarrow> False | Persisted p \<Rightarrow> False | _ \<Rightarrow> temp_of ph = None)"

lemma refresh_step_cases:
  assumes "refresh_step env y path c ph s = (q, t)"
  obtains (quiet) "fs t = fs s" "untied q"
    | (reloaded) p cfg data where "ph = Answered p" "q = Reloaded p cfg" "fs t = fs s" "fs s path = Some data" "y_unmarshal y data = Inr cfg"
    | (created) p cfg tmp w where "ph = Reloaded p cfg" "q = Created p cfg tmp" "fs s tmp = None"
        "fs t = (fs s)(tmp \<mapsto> '''')" "fst (env_temp env (path_dir path) ''.config-*.yml'' w) = Inr tmp"
    | (saving) p cfg tmp d where "ph = Created p cfg tmp" "fs t = (fs s)(tmp := d)" "fs s tmp \<noteq> None \<longrightarrow> d \<noteq> None"
        "q = Dropping tmp \<or> q = Written p tmp \<and> d \<noteq> None \<and> saved y (set_refresh_token (RefreshToken p) cfg) = d"
    | (kept) p tmp where "ph = Written p tmp \<or> ph = Restricted p tmp" "q = Restricted p tmp \<and> ph = Written p tmp \<or> q = Dropping tmp" "fs t = fs s"
    | (renamed) p tmp d where "ph = Restricted p tmp" "q = Persisted p" "fs s tmp = Some d" "fs t = (fs s)(tmp := None, path \<mapsto> d)"
    | (removed) tmp where "ph = Dropping tmp" "q = Resting" "fs t = (fs s)(tmp := None)"
proof (cases ph)
  case (Answered p)
  with assms have "went (Load env y path) (Reloaded p) Resting s = (q, t)" by simp
  then show thesis
  proof (cases rule: wentE)
    case (1 cfg)
    with Load_Ok [OF 1(1)] Answered reloaded show thesis by blast
  next
    case (2 r)
    with Load_fs [OF 2(1)] quiet show thesis by (simp add: untied_def temp_of_def)
  qed
next
  case (Reloaded p cfg)
  with assms have "went (CreateTemp env (path_dir path) ''.config-*.yml'') (Created p cfg) Resting s = (q, t)" by simp
  then show thesis
  proof (cases rule: wentE)
    case (1 tmp)
    with CreateTemp_files [OF 1(1)] Reloaded created show thesis by auto
  next
    case (2 r)
    with CreateTemp_files [OF 2(1)] quiet show thesis by (auto simp: untied_def temp_of_def)
  qed
next
  case (Created p cfg tmp)
  with assms have "went (Save env y tmp (set_refresh_token (RefreshToken p) cfg)) (\<lambda>_. Written p tmp) (Dropping tmp) s = (q, t)"
    by simp
  then show thesis
  proof (cases rule: wentE)
    case (1 a)
    with Save_files [of env y tmp _ s "Ok ()" t] Created saving show thesis by force
  next
    case (2 r)
    with Save_files [OF 2(1)] Created saving show thesis by blast
  qed
next
  case (Written p tmp)
  with assms have "went (Chmod env tmp) (\<lambda>_. Restricted p tmp) (Dropping tmp) s = (q, t)" by simp
  then show thesis
    by (cases rule: wentE) (use Chmod_files [of env tmp s _ t] Written kept in blast)+
next
  case (Restricted p tmp)
  with assms have "went (Rename env tmp path) (\<lambda>_. Persisted p) (Dropping tmp) s = (q, t)" by simp
  then show thesis
  proof (cases rule: wentE)
    case (1 a)
    with Rename_files [of env tmp path s "Ok ()" t] Restricted renamed show thesis by auto
  next
    case (2 r)
    with Rename_files [OF 2(1)] Restricted kept [of p tmp] show thesis by auto
  qed
next
  case (Dropping tmp)
  with assms obtain r where "Remove env tmp s = (r, t)" "q = Resting" by (auto elim!: wentE)
  with Remove_files [OF this(1)] Dropping removed quiet show thesis by (auto simp: untied_def temp_of_def)
qed (use assms quiet in \<open>auto simp: untied_def temp_of_def elim!: wentE dest: step_calls split: option.splits\<close>)

section \<open>Every step keeps the invariants\<close>

lemma temp_of_simps [simp]:
  "temp_of Resting = None" "temp_of (Presenting k) = None" "temp_of (Answered p) = None" "temp_of (Reloaded p cfg) = None"
  "temp_of (Created p cfg tmp) = Some tmp" "temp_of (Written p tmp) = Some tmp" "temp_of (Restricted p tmp) = Some tmp"
  "temp_of (Dropping tmp) = Some tmp" "temp_of (Persisted p) = None"
  by (simp_all add: temp_of_def)

lemma moved_simps [simp]:
  "proc (moved g q t x) = t" "phase (moved g q t x) = (phase x)(g := q)"
  "on_file (moved g q t x) = on_file x @ token_of q" "adopted (moved g q t x) = adopted x @ token_of (phase x g)"
  "overlapped (moved g q t x) \<longleftrightarrow> overlapped x \<or> q \<noteq> Resting \<and> (\<exists>g'. g' \<noteq> g \<and> phase x g' \<noteq> Resting)"
  by (simp_all add: moved_def)

lemma untied_temp: "untied q \<Longrightarrow> temp_of q = None"
  by (cases q) (auto simp: untied_def)

text \<open>The temporary files of different goroutines are different files.\<close>

lemma temps_step:
  assumes "temps_inv path hb x" "refresh_step env y path c (phase x g) (proc x) = (q, t)"
    and "temp_apart env path hb" "fs (proc x) path \<noteq> None"
  shows "temps_inv path hb (moved g q t x)"
proof -
  have T: "\<And>g tmp. temp_of (phase x g) = Some tmp \<Longrightarrow> fs (proc x) tmp \<noteq> None \<and> tmp \<noteq> path \<and> tmp \<noteq> hb"
    "\<And>g h tmp. temp_of (phase x g) = Some tmp \<Longrightarrow> temp_of (phase x h) = Some tmp \<Longrightarrow> g = h"
    using assms(1) unfolding temps_inv_def by blast+
  have q: "temp_of q = Some tmp \<Longrightarrow> fs t tmp \<noteq> None \<and> tmp \<noteq> path \<and> tmp \<noteq> hb \<and>
      (temp_of (phase x g) = Some tmp \<or> fs (proc x) tmp = None)" for tmp
    using assms(2)
  proof (cases rule: refresh_step_cases)
    case (created p cfg tmp' w)
    then show "temp_of q = Some tmp \<Longrightarrow> ?thesis" using assms(3,4) by (auto simp: temp_apart_def)
  next
    case (saving p cfg tmp' d)
    then show "temp_of q = Some tmp \<Longrightarrow> ?thesis" using T(1) [of g] by auto
  next
    case (kept p tmp')
    then show "temp_of q = Some tmp \<Longrightarrow> ?thesis" using T(1) [of g] by auto
  qed (auto simp: untied_temp)
  have others: "fs t tmp \<noteq> None" if h: "temp_of (phase x h) = Some tmp" "h \<noteq> g" for h tmp
  proof -
    have ne: "temp_of (phase x g) \<noteq> Some tmp" using T(2) h by blast
    from assms(2) show ?thesis
      by (cases rule: refresh_step_cases) (use T(1) [OF h(1)] ne in simp_all)
  qed
  have apart: "g = h" if "temp_of q = Some tmp" "temp_of (phase x h) = Some tmp" for h tmp
    using q [OF that(1)] T that(2) by blast
  show ?thesis
    unfolding temps_inv_def moved_simps
  proof (intro conjI allI impI)
    fix h tmp assume "temp_of (((phase x)(g := q)) h) = Some tmp"
    then show "fs t tmp \<noteq> None" "tmp \<noteq> path" "tmp \<noteq> hb"
      using q [of tmp] others [of h tmp] T(1) [of h tmp] by (cases "h = g"; simp)+
  next
    fix h k tmp assume "temp_of (((phase x)(g := q)) h) = Some tmp" "temp_of (((phase x)(g := q)) k) = Some tmp"
    then show "h = k" using apart [of tmp h] apart [of tmp k] T(2) [of h tmp k] by (auto split: if_split_asm)
  qed
qed

text \<open>What the goroutines hold, and what the file and the client hold.\<close>

lemma holds_base: "holds y base tok (Some d) \<Longrightarrow> y_unmarshal y d = Inr cfg \<Longrightarrow> cfg = set_refresh_token tok base"
  by (simp add: holds_def)

lemma saved_holds:
  "yaml_ok y \<Longrightarrow> saved y (set_refresh_token tok (set_refresh_token tok' base)) = d \<Longrightarrow> d \<noteq> None \<Longrightarrow> holds y base tok d"
  using saved_reads by (auto simp: holds_def)

lemma local_inv_mono:
  "local_inv y base x ph \<Longrightarrow> (\<And>tmp. temp_of ph = Some tmp \<Longrightarrow> fs (proc x') tmp = fs (proc x) tmp) \<Longrightarrow>
     set (on_file x) \<subseteq> set (on_file x') \<Longrightarrow> local_inv y base x' ph"
  by (cases ph) (auto simp: local_inv_def)

lemma untied_local: "untied q \<Longrightarrow> local_inv y base x q"
  by (cases q) (auto simp: untied_def local_inv_def)

lemma tokens_step:
  assumes y: "yaml_ok y" and I: "tokens_inv y path base tok0 x" "temps_inv path hb x"
    and step: "refresh_step env y path c (phase x g) (proc x) = (q, t)"
  shows "tokens_inv y path base tok0 (moved g q t x)"
proof -
  have T: "\<And>g tmp. temp_of (phase x g) = Some tmp \<Longrightarrow> fs (proc x) tmp \<noteq> None \<and> tmp \<noteq> path \<and> tmp \<noteq> hb"
    "\<And>g h tmp. temp_of (phase x g) = Some tmp \<Longrightarrow> temp_of (phase x h) = Some tmp \<Longrightarrow> g = h"
    using I(2) unfolding temps_inv_def by blast+
  have disk: "holds y base (last (tok0 # on_file x)) (fs (proc x) path)"
    and client: "sb_refresh (proc x) = last (tok0 # adopted x)" "set (adopted x) \<subseteq> set (on_file x)"
    and loc: "\<And>g. local_inv y base x (phase x g)"
    using I(1) by (auto simp: tokens_inv_def)
  have frame: "fs t p = fs (proc x) p"
    if "p \<noteq> path" "temp_of (phase x g) \<noteq> Some p" "fs (proc x) p \<noteq> None" for p
    using step by (cases rule: refresh_step_cases) (use that in auto)
  have "local_inv y base (moved g q t x) (phase x h)" if h: "h \<noteq> g" for h
    using loc [of h]
  proof (rule local_inv_mono)
    fix tmp assume "temp_of (phase x h) = Some tmp"
    with frame [of tmp] T(1) [of h tmp] T(2) [of h tmp g] h show "fs (proc (moved g q t x)) tmp = fs (proc x) tmp" by auto
  qed simp
  moreover have "holds y base (last (tok0 # on_file x @ token_of q)) (fs t path) \<and> local_inv y base (moved g q t x) q"
    using step
  proof (cases rule: refresh_step_cases)
    case quiet
    then have "token_of q = []" by (auto simp: token_of_def untied_def split: refresh_phase.splits)
    with quiet disk show ?thesis by (simp add: untied_local)
  next
    case (reloaded p cfg data)
    with disk holds_base [of y base _ data cfg] show ?thesis by (auto simp: local_inv_def token_of_def)
  next
    case (created p cfg tmp w)
    with disk loc [of g] show ?thesis by (auto simp: local_inv_def token_of_def holds_def)
  next
    case (saving p cfg tmp d)
    with loc [of g] obtain tok where "cfg = set_refresh_token tok base" by (auto simp: local_inv_def)
    with saving disk T(1) [of g tmp] saved_holds [OF y, of "RefreshToken p" tok base d] show ?thesis
      by (auto simp: local_inv_def token_of_def simp del: set_refresh_token_twice)
  next
    case (kept p tmp)
    with disk loc [of g] show ?thesis by (auto simp: local_inv_def token_of_def)
  next
    case (renamed p tmp d)
    with loc [of g] T(1) [of g tmp] show ?thesis by (auto simp: local_inv_def token_of_def)
  next
    case (removed tmp)
    with disk T(1) [of g tmp] show ?thesis by (auto simp: local_inv_def token_of_def)
  qed
  moreover have "sb_refresh t = last (tok0 # adopted x @ token_of (phase x g))"
    using refresh_step_token [OF step] client(1) by (cases "phase x g") (simp_all add: token_of_def)
  moreover have "set (adopted x @ token_of (phase x g)) \<subseteq> set (on_file x @ token_of q)"
    using client(2) loc [of g] by (cases "phase x g") (auto simp: token_of_def local_inv_def)
  ultimately show ?thesis unfolding tokens_inv_def moved_simps by simp
qed

lemma order_step:
  assumes "order_inv x" "refresh_step env y path c (phase x g) (proc x) = (q, t)"
  shows "order_inv (moved g q t x)"
  unfolding order_inv_def moved_simps
proof
  assume no: "\<not> (overlapped x \<or> q \<noteq> Resting \<and> (\<exists>g'. g' \<noteq> g \<and> phase x g' \<noteq> Resting))"
  with assms(1) obtain k where k: "\<forall>h. h \<noteq> k \<longrightarrow> phase x h = Resting" "on_file x = adopted x @ token_of (phase x k)"
    by (auto simp: order_inv_def)
  have new: "token_of q \<noteq> [] \<Longrightarrow> token_of (phase x g) = []"
    using assms(2) by (cases "phase x g") (auto simp: token_of_def elim!: wentE)
  show "\<exists>g'. (\<forall>h. h \<noteq> g' \<longrightarrow> ((phase x)(g := q)) h = Resting) \<and>
      on_file x @ token_of q = (adopted x @ token_of (phase x g)) @ token_of (((phase x)(g := q)) g')"
  proof (cases "q = Resting \<and> g \<noteq> k")
    case True
    then have "phase x g = Resting" using k by blast
    with True k show ?thesis by (intro exI [of _ k]) (auto simp: token_of_def)
  next
    case False
    with no have "\<forall>h. h \<noteq> g \<longrightarrow> phase x h = Resting" using k(1) by blast
    moreover from this k have "on_file x = adopted x @ token_of (phase x g)"
      by (cases "g = k") (auto simp: token_of_def)
    ultimately show ?thesis by (intro exI [of _ g]) simp
  qed
qed

section \<open>The file and the client, however the goroutines interleave\<close>

definition process_inv :: "'x yaml \<Rightarrow> string \<Rightarrow> string \<Rightarrow> File \<Rightarrow> string \<Rightarrow> 'w process \<Rightarrow> bool" where
  "process_inv y path hb base tok0 x \<longleftrightarrow> tokens_inv y path base tok0 x \<and> temps_inv path hb x \<and> order_inv x"

lemma start_inv: "holds y base (sb_refresh s) (fs s path) \<Longrightarrow> process_inv y path hb base (sb_refresh s) (all_resting s)"
  by (simp add: process_inv_def tokens_inv_def temps_inv_def order_inv_def all_resting_def local_inv_def token_of_def)

lemma elsewhere_inv:
  assumes "elsewhere_ok hb (proc x) t" "hb \<noteq> path" "process_inv y path hb base tok0 x"
  shows "process_inv y path hb base tok0 (x\<lparr>proc := t\<rparr>)"
proof -
  have same: "fs t p = fs (proc x) p" if "p \<noteq> hb" for p using assms(1) that by (simp add: elsewhere_ok_def)
  have T: "\<And>g tmp. temp_of (phase x g) = Some tmp \<Longrightarrow> tmp \<noteq> hb"
    using assms(3) unfolding process_inv_def temps_inv_def by blast
  have "local_inv y base (x\<lparr>proc := t\<rparr>) (phase x g)" if "local_inv y base x (phase x g)" for g
    by (rule local_inv_mono [OF that]) (auto dest: T simp: same)
  moreover have "sb_refresh t = sb_refresh (proc x)" using assms(1) by (simp add: elsewhere_ok_def tokens_def)
  ultimately have "tokens_inv y path base tok0 (x\<lparr>proc := t\<rparr>)"
    using assms(2,3) by (simp add: process_inv_def tokens_inv_def same [of path])
  moreover have "fs t tmp = fs (proc x) tmp" if "temp_of (phase x g) = Some tmp" for g tmp
    using same T [OF that] by blast
  then have "temps_inv path hb (x\<lparr>proc := t\<rparr>)"
    using assms(3) by (simp add: process_inv_def temps_inv_def)
  ultimately show ?thesis using assms(3) by (simp add: process_inv_def order_inv_def)
qed

lemma agent_step_inv:
  assumes "agent_step env y path hb c x z" "yaml_ok y" "temp_apart env path hb" "hb \<noteq> path"
    and I: "process_inv y path hb base tok0 x"
  shows "process_inv y path hb base tok0 z"
  using assms(1)
proof cases
  case (refreshing g q t)
  have "fs (proc x) path \<noteq> None" using I by (auto simp: process_inv_def tokens_inv_def holds_def)
  then show ?thesis
    using refreshing assms(2,3) I temps_step order_step tokens_step unfolding process_inv_def by metis
next
  case (elsewhere t)
  then show ?thesis using elsewhere_inv assms(4) I by blast
qed

lemma agent_run_inv:
  assumes "agent_run env y path hb c x z" "yaml_ok y" "temp_apart env path hb" "hb \<noteq> path" "process_inv y path hb base tok0 x"
  shows "process_inv y path hb base tok0 z"
  using assms(1,5) unfolding agent_run_def
  by (induction rule: rtranclp_induct) (auto intro: agent_step_inv [OF _ assms(2-4)])

text \<open>
  Claim C3: while the agent works, however its goroutines interleave and whatever the services and the
  operating system answer, the configuration file decodes at every moment to the configuration it had,
  with the token that was persisted last; the client holds the token that it took over last, and takes
  over no token that was not on the disk before. As long as no two refreshes overlap, the token in the
  file is the one that the client holds, or the one that it is about to take over.
\<close>

theorem token_stays_on_disk:
  assumes "yaml_ok y" "temp_apart env path hb" "hb \<noteq> path"
    and "fs s path = Some data" "y_unmarshal y data = Inr cfg" "sc_RefreshToken (f_Supabase cfg) = sb_refresh s"
    and run: "agent_run env y path hb c (all_resting s) x"
  shows "\<exists>data' tok. fs (proc x) path = Some data' \<and> y_unmarshal y data' = Inr (set_refresh_token tok cfg) \<and>
    tok = last (sb_refresh s # on_file x) \<and> sb_refresh (proc x) = last (sb_refresh s # adopted x) \<and>
    set (adopted x) \<subseteq> set (on_file x) \<and>
    (\<not> overlapped x \<longrightarrow> tok = sb_refresh (proc x) \<or> (\<exists>g p. phase x g = Persisted p \<and> tok = RefreshToken p))"
proof -
  have "holds y cfg (sb_refresh s) (fs s path)"
    using assms(4,5) set_refresh_token_self [of cfg, unfolded assms(6)] by (simp add: holds_def)
  then have I: "process_inv y path hb cfg (sb_refresh s) x"
    using agent_run_inv [OF run assms(1-3)] start_inv by blast
  then have T: "sb_refresh (proc x) = last (sb_refresh s # adopted x)" "set (adopted x) \<subseteq> set (on_file x)"
    "holds y cfg (last (sb_refresh s # on_file x)) (fs (proc x) path)"
    by (simp_all add: process_inv_def tokens_inv_def)
  have "last (sb_refresh s # on_file x) = sb_refresh (proc x) \<or>
      (\<exists>g p. phase x g = Persisted p \<and> last (sb_refresh s # on_file x) = RefreshToken p)" if "\<not> overlapped x"
  proof -
    from I that obtain g where "on_file x = adopted x @ token_of (phase x g)"
      by (auto simp: process_inv_def order_inv_def)
    with T(1) show ?thesis by (cases "phase x g") (auto simp: token_of_def)
  qed
  with T show ?thesis by (auto simp: holds_def)
qed

section \<open>What the code does alone is a run\<close>

text \<open>
  From any state of the process in which some goroutine rests, the goroutine can lead the agent from \<open>s\<close>
  to \<open>t\<close> while the others stay where they are.
\<close>

definition leads ::
  "'w env \<Rightarrow> 'x yaml \<Rightarrow> string \<Rightarrow> string \<Rightarrow> 'w sb_client \<Rightarrow> 'w agent \<Rightarrow> 'w agent \<Rightarrow> bool" where
  "leads env y path hb c s t \<longleftrightarrow> (agent_client env y path c \<longrightarrow>
     (\<forall>x g. proc x = s \<longrightarrow> phase x g = Resting \<longrightarrow>
        (\<exists>z. agent_run env y path hb c x z \<and> proc z = t \<and> phase z = phase x)))"

lemma alone_run:
  fixes x :: "'w process"
  assumes "alone env y path c (ph, s) w" "proc x = s" "phase x g = ph"
  shows "\<exists>z. agent_run env y path hb c x z \<and> proc z = snd w \<and> phase z = (phase x)(g := fst w)"
  using assms(1) unfolding alone_def
proof (induction rule: rtranclp_induct)
  case base
  then show ?case using assms(2,3) unfolding agent_run_def by (auto intro!: exI [of _ x])
next
  case (step v w)
  then obtain z where z: "agent_run env y path hb c x z" "proc z = snd v" "phase z = (phase x)(g := fst v)" by blast
  then have "refresh_step env y path c (phase z g) (proc z) = (fst w, snd w)" using step.hyps(2) by simp
  then have "agent_step env y path hb c z (moved g (fst w) (snd w) z)" by (rule refreshing)
  with z show ?case unfolding agent_run_def
    by (intro exI [of _ "moved g (fst w) (snd w) z"]) (auto intro: rtranclp.rtrancl_into_rtrancl)
qed

lemma leads_elsewhere:
  fixes m :: "('w agent, 'a) go"
  assumes "\<And>s. elsewhere_ok hb s (snd (m s))"
  shows "changes (leads env y path hb c) m"
  unfolding changes_def leads_def agent_run_def
proof (intro allI impI)
  fix s and x :: "'w process" and g
  assume x: "proc x = s"
  have "agent_step env y path hb c x (x\<lparr>proc := snd (m s)\<rparr>)" using assms [of s] x by (intro elsewhere) simp
  then show "\<exists>z. (agent_step env y path hb c)\<^sup>*\<^sup>* x z \<and> proc z = snd (m s) \<and> phase z = phase x"
    by (intro exI [of _ "x\<lparr>proc := snd (m s)\<rparr>"]) auto
qed

lemma leads_refresh: "changes (leads env y path hb c) (refresh env c)"
  unfolding changes_def leads_def
proof (intro allI impI)
  fix s and x :: "'a process" and g
  assume c: "agent_client env y path c" and x: "proc x = s" "phase x g = Resting"
  from alone_run [OF refresh_alone [OF c] x, of hb] x(2)
  show "\<exists>z. agent_run env y path hb c x z \<and> proc z = snd (refresh env c s) \<and> phase z = phase x"
    by (simp add: fun_upd_idem)
qed

interpretation leads: runtime_effect "leads env y path hb c" env c hb
  for env :: "'w env" and y :: "'x yaml" and path hb and c :: "'w sb_client"
proof unfold_locales
  fix s t u :: "'w agent" and rq d topic conn token
  show "leads env y path hb c s s" by (auto simp: leads_def agent_run_def)
  show "leads env y path hb c s t \<Longrightarrow> leads env y path hb c t u \<Longrightarrow> leads env y path hb c s u"
    unfolding leads_def agent_run_def by (metis rtranclp_trans)
  show "changes (leads env y path hb c) (http_send env Pve rq)"
    "changes (leads env y path hb c) (http_send env Pve rq)"
    "changes (leads env y path hb c) (http_send env Sb rq)"
    by (rule leads_elsewhere; auto simp: elsewhere_ok_def http_send_def tokens_def split: prod.splits)+
  show "changes (leads env y path hb c) (touchHeartbeat env hb)"
    by (rule leads_elsewhere) (auto simp: elsewhere_ok_def touchHeartbeat_def WriteFile_def go_try_def go_return_def tokens_def
      split: prod.splits option.splits)
  show "changes (leads env y path hb c) (pushAccessToken env topic conn token)"
    by (rule leads_elsewhere) (auto simp: elsewhere_ok_def pushAccessToken_def nextRef_def writeJSON_def Let_def tokens_def
      split: prod.splits option.splits)
  have "changes (leads env y path hb c) (\<lambda>s. (Ok (), snd (now_val env s)))"
    "changes (leads env y path hb c) (\<lambda>s. (Ok (), snd (sleep_val env d s)))"
    by (rule leads_elsewhere; auto simp: elsewhere_ok_def now_val_def sleep_val_def tokens_def split: prod.splits)+
  then show "leads env y path hb c s (snd (now_val env s))" "leads env y path hb c s (snd (sleep_val env d s))"
    by (simp_all add: changes_def)
qed (rule leads_refresh)

text \<open>
  Claim C17: whatever the goroutines of the agent do (pushes, commands, read commands, catch-ups and ticks
  of the central loop), when nothing interrupts it, is a run of the steps of one goroutine, during which
  the others stay where they are.
\<close>

theorem activities_are_runs:
  assumes "agent_client env y path (st_sb b)"
    and run: "perform_all env lib isprint order subs_order b as s = (r, t)"
    and x: "proc x = s" "phase x g = Resting"
  shows "\<exists>z. agent_run env y path (st_heartbeat b) (st_sb b) x z \<and> proc z = t \<and> phase z = phase x"
proof -
  have "leads env y path (st_heartbeat b) (st_sb b) s t"
    using leads.perform_all_R [OF refl refl] run by (rule changesD)
  with assms(1) x show ?thesis unfolding leads_def by blast
qed

section \<open>Two refreshes that overlap\<close>

lemma set_refresh_token_inject: "set_refresh_token a base = set_refresh_token b base \<longleftrightarrow> a = b"
proof
  assume "set_refresh_token a base = set_refresh_token b base"
  then have "sc_RefreshToken (f_Supabase (set_refresh_token a base)) = sc_RefreshToken (f_Supabase (set_refresh_token b base))"
    by simp
  then show "a = b" by (simp add: set_refresh_token_def)
qed simp

lemma persist_holds:
  assumes "yaml_ok y" "persistRefreshTo env y path tok s = (Ok (), t)" "holds y base tok0 (fs s path)"
  shows "holds y base tok (fs t path)"
  using persist_cases [OF assms(2)] assms(3) saved_reads [OF assms(1)]
  by (auto simp: persisted_def holds_def)

lemma goroutine_runs:
  assumes "agent_run env y path hb c x z" "alone env y path c (phase z g, proc z) (q, t)"
  shows "\<exists>z'. agent_run env y path hb c x z' \<and> proc z' = t \<and> phase z' = (phase z)(g := q)"
  using alone_run [OF assms(2) refl refl, of hb] assms(1) unfolding agent_run_def by (auto intro: rtranclp_trans)

lemma store_alone:
  "store_tokens env p s = (r, t) \<Longrightarrow> alone env y path c (Persisted p, s) (Resting, t)"
  by (rule alone_step [OF _ alone_refl]) (use store_tokens_result [of env p s r t] in \<open>simp add: went_def\<close>)

text \<open>
  Claim C23: the order in which the file and the client take the new tokens over is not kept when two
  refreshes overlap. Two goroutines present the same token; the service, which accepts a token a second
  time shortly after its use, answers both, with different tokens; both rewrites of the file succeed. Then
  both refreshes can succeed, and at the end, when no refresh is under way, the client holds one of the
  new tokens and the file the other one.
\<close>

theorem overlapping_refreshes:
  assumes y: "yaml_ok y" and start: "fs s path = Some data" "y_unmarshal y data = Inr (set_refresh_token (sb_refresh s) base)"
    and answers: "http_send env Sb (refresh_request c (refresh_body (sb_refresh s))) s = (Ok res1, s1)"
      "http_send env Sb (refresh_request c (refresh_body (sb_refresh s))) s1 = (Ok res2, s2)"
      "offered res1 = Some p" "offered res2 = Some q" "RefreshToken p \<noteq> RefreshToken q"
    and rewritten: "persistRefreshTo env y path (RefreshToken p) s2 = (Ok (), s3)"
      "persistRefreshTo env y path (RefreshToken q) s3 = (Ok (), s4)"
  shows "\<exists>x. agent_run env y path hb c (all_resting s) x \<and> phase x = (\<lambda>_. Resting) \<and>
    sb_refresh (proc x) = RefreshToken p \<and> \<not> on_disk y path base (proc x) \<and>
    (\<exists>data'. fs (proc x) path = Some data' \<and> y_unmarshal y data' = Inr (set_refresh_token (RefreshToken q) base))"
proof -
  let ?run = "agent_run env y path hb c (all_resting s)" and ?cur = "sb_refresh s"
  have pres: "alone env y path c (Resting, s) (Presenting ?cur, s)" by (rule alone_step [OF _ alone_refl]) simp
  have ans: "alone env y path c (Presenting ?cur, s) (Answered p, s1)" "alone env y path c (Presenting ?cur, s1) (Answered q, s2)"
    by (rule alone_step [OF _ alone_refl]; simp add: went_def answers)+
  obtain r5 s5 where st5: "store_tokens env q s4 = (r5, s5)" by force
  obtain r6 s6 where st6: "store_tokens env p s5 = (r6, s6)" by force
  have "?run (all_resting s)" by (simp add: agent_run_def)
  from goroutine_runs [OF this, of 0 "Presenting ?cur" s] pres obtain x1 where
    x1: "?run x1" "proc x1 = s" "phase x1 = (\<lambda>_. Resting)(0 := Presenting ?cur)"
    by (auto simp: all_resting_def)
  from goroutine_runs [OF x1(1), of 1 "Presenting ?cur" s] x1(2,3) pres obtain x2 where
    x2: "?run x2" "proc x2 = s" "phase x2 = (\<lambda>_. Resting)(0 := Presenting ?cur, 1 := Presenting ?cur)"
    by auto
  from goroutine_runs [OF x2(1), of 0 "Answered p" s1] x2(2,3) ans obtain x3 where
    x3: "?run x3" "proc x3 = s1" "phase x3 = (\<lambda>_. Resting)(0 := Answered p, 1 := Presenting ?cur)"
    by (auto simp: fun_upd_twist)
  from goroutine_runs [OF x3(1), of 1 "Answered q" s2] x3(2,3) ans obtain x4 where
    x4: "?run x4" "proc x4 = s2" "phase x4 = (\<lambda>_. Resting)(0 := Answered p, 1 := Answered q)"
    by auto
  from goroutine_runs [OF x4(1), of 0 "Persisted p" s3] x4(2,3) alone_persist [OF rewritten(1), of c] obtain x5 where
    x5: "?run x5" "proc x5 = s3" "phase x5 = (\<lambda>_. Resting)(0 := Persisted p, 1 := Answered q)"
    by (auto simp: fun_upd_twist)
  from goroutine_runs [OF x5(1), of 1 "Persisted q" s4] x5(2,3) alone_persist [OF rewritten(2), of c] obtain x6 where
    x6: "?run x6" "proc x6 = s4" "phase x6 = (\<lambda>_. Resting)(0 := Persisted p, 1 := Persisted q)"
    by auto
  from goroutine_runs [OF x6(1), of 1 Resting s5] x6(2,3) store_alone [OF st5, of y path c] obtain x7 where
    x7: "?run x7" "proc x7 = s5" "phase x7 = (\<lambda>_. Resting)(0 := Persisted p)"
    by (auto simp: fun_upd_idem)
  from goroutine_runs [OF x7(1), of 0 Resting s6] x7(2,3) store_alone [OF st6, of y path c] obtain x8 where
    x8: "?run x8" "proc x8 = s6" "phase x8 = (\<lambda>_. Resting)"
    by (auto simp: fun_upd_idem)
  have "fs s2 = fs s" using answers(1,2) step_calls(1) by metis
  with start have "holds y base ?cur (fs s2 path)" by (simp add: holds_def)
  with persist_holds [OF y rewritten(1)] have "holds y base (RefreshToken p) (fs s3 path)" by blast
  with persist_holds [OF y rewritten(2)] have q: "holds y base (RefreshToken q) (fs s4 path)" by blast
  have "fs s6 = fs s4" "sb_refresh s6 = RefreshToken p"
    using store_tokens_result [OF st5] store_tokens_result [OF st6] by simp_all
  with q x8 answers(5) show ?thesis
    by (intro exI [of _ x8]) (auto simp: holds_def on_disk_def set_refresh_token_inject)
qed

end
