(* ===== verification/Witnesses.thy ===== *)
theory Witnesses
  imports Demo Goroutines
begin

text \<open>The theorems with hypotheses, each applied at a concrete input of theory \<open>Demo\<close>.\<close>

section \<open>The dispatcher\<close>

lemma start_cmd_calls:
  "calls_of (\<lambda>s. (0, s)) good_pve one_row lib New_dispatcher start_cmd True =
     [Claimed 7 (Ok True), Acted (Power ''lxc'' ''p'' 9 ''start'') (Ok ''U''),
      Awaited ''p'' ''U'' (dur_min 5) (Ok \<lparr>UPID = ''U'', Done = True, ExitStatus = ''OK''\<rparr>),
      Completed 7 ''done'' [(''upid'', RStr ''U''), (''exitstatus'', RStr ''OK'')] (Ok ())]"
  by code_simp


lemma Handle_completes_once_witness:
  "\<exists>st res r. filter is_completed (calls_of (\<lambda>s. (0, s)) good_pve one_row demo_hpke New_dispatcher start_cmd True)
      = [Completed (ID start_cmd) st res r]"
proof -
  let ?tr = "calls_of (\<lambda>s. (0, s)) good_pve one_row demo_hpke New_dispatcher start_cmd True"
  have "hd ?tr = Claimed (ID start_cmd) (Ok True)" "list_all call_returned ?tr"
    unfolding start_cmd_calls by (simp_all add: start_cmd_def)
  from Handle_completes_once [OF this] show ?thesis by blast
qed

text \<open>The same command delivered twice: the second run starts where the row is no longer pending.\<close>

lemma acts_at_most_once_witness:
  "length (filter is_acted (concat (runs_of (\<lambda>s. (0, s)) good_pve one_row demo_hpke New_dispatcher
      [(start_cmd, True), (start_cmd, False)] 7))) \<le> 1"
proof (rule acts_at_most_once)
  show "length (filter (granted 7) (runs_of (\<lambda>s. (0, s)) good_pve one_row demo_hpke New_dispatcher
      [(start_cmd, True), (start_cmd, False)] 7)) \<le> 1"
    by code_simp
qed

section \<open>The clients\<close>

lemma Handle_one_write_witness:
  "count_events pve_write (snd (Handle (now_val (answers (Response 200 ''[1]'')))
      (pve_actor (answers (Response 200 ''[1]'')) demo_pve)
      (sb_store (answers (Response 200 ''[1]'')) (demo_client (Some no_persist))) demo_hpke New_dispatcher start_cmd
      (idle ()))) \<le> count_events pve_write (idle ()) + 1"
  by (rule Handle_one_write) (rule demo_client_file_persist)

lemma down_claim:
  "fst (ClaimCommand (answers (DoFailed e)) (demo_client p) i (idle ())) \<noteq> Ok True"
  by (auto simp: ClaimCommand_def patchRowReturning_def patchWithAuth_def with_token_def access_def attempt_def
      http_send_def now_def now_val_def go_simps go_bind_def go_wrap_def marshal_def demo_env idle_def
      go_defs refreshSkew_def split: option.splits)

lemma Handle_no_write_unclaimed_witness:
  "count_events pve_write (snd (Handle (now_val (answers (DoFailed CtxDone)))
      (pve_actor (answers (DoFailed CtxDone)) demo_pve)
      (sb_store (answers (DoFailed CtxDone)) (demo_client (Some no_persist))) demo_hpke New_dispatcher start_cmd
      (idle ()))) = count_events pve_write (idle ())"
proof (rule Handle_no_write_unclaimed)
  show "file_persist (demo_client (Some no_persist))" by (rule demo_client_file_persist)
  have "snd (is_expired (now_val (answers (DoFailed CtxDone))) (ExpiresAt start_cmd) (idle ())) = idle ()"
    by (simp add: is_expired_def start_cmd_def)
  with down_claim show "fst (ClaimCommand (answers (DoFailed CtxDone)) (demo_client (Some no_persist))
      (ID start_cmd) (snd (is_expired (now_val (answers (DoFailed CtxDone))) (ExpiresAt start_cmd) (idle ())))) \<noteq> Ok True"
    by metis
qed


text \<open>A backend that grants the row 7 once; its state is the set of the ids that are not yet granted.\<close>

definition row7_url :: string where
  "row7_url = ''https://s/rest/v1'' @ claim_path ''commands'' 7"

definition granting :: "int set env" where
  "granting = plain_env (\<lambda>rq w. if rq_url rq = row7_url \<and> 7 \<in> w then (Response 200 ''[1]'', w - {7})
     else (Response 200 ''[]'', w))"

lemma claim_url:
  "rq_url (claim_rq (demo_client p) i body token) = row7_url \<longleftrightarrow> i = 7"
  by (auto simp: claim_rq_def patch_request_def rest_request_def row7_url_def demo_client_def claim_path_def
      dest: int_dec_inj)

lemma granting_http:
  "env_http granting rq w = (if rq_url rq = row7_url \<and> 7 \<in> w then (Response 200 ''[1]'', w - {7})
     else (Response 200 ''[]'', w))"
  by (simp add: granting_def plain_env_def)

lemma no_rows: "\<not> gives_row (Response 200 ''[]'')"
  by code_simp

lemma granting_atomic: "atomic_claims granting (demo_client (Some no_persist)) id"
  unfolding atomic_claims_def granting_http claim_url
  by (auto simp: no_rows no_persist_def go_defs granting_def plain_env_def)

lemma granting_claim:
  "ClaimCommand granting (demo_client (Some no_persist)) 7 (idle {7}) =
     (Ok True, snd (ClaimCommand granting (demo_client (Some no_persist)) 7 (idle {7})))"
proof -
  have m: "\<exists>raw. json_marshal (claim_body t) = Some raw" for t
    by (simp add: claim_body_def)
  then obtain raw where raw: "json_marshal (claim_body 0) = Some raw" by blast
  have url: "rq_url (patch_request (demo_client (Some no_persist) :: int set sb_client) (claim_path ''commands'' 7) raw
      ''return=representation'' ''A'') = row7_url"
    using claim_url [of "Some no_persist" 7 raw "''A''"] by (simp add: claim_rq_def)
  have "fst (ClaimCommand granting (demo_client (Some no_persist)) 7 (idle {7})) = Ok True"
    using url raw
    by (simp add: ClaimCommand_def patchRowReturning_def patchWithAuth_def with_token_def access_def attempt_def
      http_send_def now_def now_val_def go_bind_def marshal_def granting_http idle_def go_defs refreshSkew_def
      demo_json ok_status_def granting_def plain_env_def)
  then show ?thesis by (metis prod.collapse)
qed

lemma ClaimCommand_once_witness:
  "fst (ClaimCommand granting (demo_client (Some no_persist)) 7
     (snd (ClaimCommand granting (demo_client (Some no_persist)) 7 (idle {7})))) \<noteq> Ok True"
  by (rule ClaimCommand_once [OF granting_atomic granting_atomic granting_claim]) simp

section \<open>The session\<close>

lemma refresh_demo:
  "refresh (answers (Response 200 tokens_body)) demo_sb (idle ()) =
     (Ok ''A2'', snd (refresh (answers (Response 200 tokens_body)) demo_sb (idle ())))"
proof -
  have "fst (refresh (answers (Response 200 tokens_body)) demo_sb (idle ())) = Ok ''A2''"
    by (simp add: refresh_eq http_send_def refresh_response_def demo_env go_bind_def go_wrap_def demo_json
      call_persist_def no_persist_def store_tokens_def now_def now_val_def go_defs)
  then show ?thesis by (metis prod.collapse)
qed

lemma refresh_persists_first_witness:
  "sb_refresh (snd (refresh (answers (Response 200 tokens_body)) demo_sb (idle ()))) \<noteq> ''''"
  using refresh_persists_first [OF refresh_demo] by blast

lemma refresh_failure_keeps_tokens_witness:
  "sb_refresh (snd (refresh (answers (DoFailed CtxDone)) demo_sb (idle ()))) = ''R''"
proof -
  have "fst (refresh (answers (DoFailed CtxDone)) demo_sb (idle ())) =
      Fail (Wrap ''POST token refresh'' (Lib CtxDone))"
    by (simp add: refresh_eq http_send_def demo_env go_bind_def go_defs)
  then have "refresh (answers (DoFailed CtxDone)) demo_sb (idle ()) =
      (Fail (Wrap ''POST token refresh'' (Lib CtxDone)),
       snd (refresh (answers (DoFailed CtxDone)) demo_sb (idle ())))"
    by (metis prod.collapse)
  from refresh_failure_keeps_tokens [OF demo_client_file_persist(2) this] show ?thesis
    by (simp add: idle_def)
qed

lemma refresh_without_persist_witness:
  "fst (refresh (answers (Response 200 tokens_body)) (demo_client None) (idle ()))
     = Panic ''invalid memory address or nil pointer dereference''"
proof -
  have "hands_out (Response 200 tokens_body)" by code_simp
  then show ?thesis
    using refresh_without_persist [of "demo_client None" "answers (Response 200 tokens_body)" "idle ()"]
    by (simp add: demo_env)
qed

lemma with_token_at_most_twice_witness:
  "count_events (attempts (get_request demo_sb ''/x''))
     (snd (with_token (answers (Response 401 '''')) demo_sb
        (get_request demo_sb ''/x'') (idle ()))) \<le>
   count_events (attempts (get_request demo_sb ''/x'')) (idle ()) + 2"
  by (rule with_token_at_most_twice [OF demo_client_file_persist(1) rest_not_refresh(1)])

lemma refreshAndPushAll_broadcasts_witness:
  "\<exists>k. log (snd (refreshAndPushAll (answers (Response 200 tokens_body)) rev demo_sb
        ((idle ())\<lparr>sb_subs := [(''t'', 3)]\<rparr>))) =
     log (snd (refresh (answers (Response 200 tokens_body)) demo_sb
        ((idle ())\<lparr>sb_subs := [(''t'', 3)]\<rparr>))) @ [WsSend 3 (token_frame ''t'' ''A2'' (int_dec k))]"
proof -
  let ?c = "demo_sb" and ?e = "answers (Response 200 tokens_body)"
  let ?s = "(idle ())\<lparr>sb_subs := [(''t'', 3)]\<rparr>"
  have "fst (refresh ?e ?c ?s) = Ok ''A2'' \<and> sb_subs (snd (refresh ?e ?c ?s)) = [(''t'', 3)]"
    by (simp add: refresh_eq http_send_def refresh_response_def demo_env go_bind_def go_wrap_def demo_json
      call_persist_def no_persist_def store_tokens_def now_def now_val_def go_defs idle_def)
  then obtain u where u: "refresh ?e ?c ?s = (Ok ''A2'', u)" "sb_subs u = [(''t'', 3)]" by (metis prod.collapse)
  obtain r t where t: "refreshAndPushAll ?e rev ?c ?s = (r, t)" by force
  have "mset (rev xs) = mset xs" for xs :: "(string \<times> nat) list" by simp
  from refreshAndPushAll_broadcasts [OF this, of ?e ?c ?s] u t
  obtain refs where "length refs = 1" "log t = log u @ map (\<lambda>((topic, conn), i).
      WsSend conn (token_frame topic ''A2'' (int_dec i))) (zip [(''t'', 3)] refs)"
    by auto
  with u t show ?thesis by (cases refs) auto
qed


lemma access_fresh_enough_witness:
  "\<exists>r t. access (answers (DoFailed CtxDone)) demo_sb (idle ()) = (r, t) \<and> r = Ok ''A'' \<and>
     refreshSkew < sb_expires (idle ()) - fst (now_val (answers (DoFailed CtxDone)) (idle ()))"
proof -
  obtain r t where a: "access (answers (DoFailed CtxDone)) demo_sb (idle ()) = (r, t)" by force
  then have "r = Ok ''A''"
    by (simp add: access_def demo_env idle_def now_val_def refreshSkew_def)
  moreover have "fst (refresh (answers (DoFailed CtxDone)) demo_sb u) \<noteq> Ok ''A''" for u
    by (simp add: refresh_eq http_send_def demo_env go_bind_def go_defs)
  ultimately show ?thesis using access_fresh_enough [OF a] a by (metis fst_conv)
qed

section \<open>Read commands\<close>

lemma Handle_read_only_witness:
  "adds (read_event demo_pve) (idle ())
    (snd (Handle_read (now_val (answers (Response 200 ''[1]''))) (\<lambda>_. True) id (error_text (\<lambda>_. ''''))
       (pve_reader (answers (Response 200 ''[1]'')) demo_pve)
       (sb_read_store (answers (Response 200 ''[1]'')) demo_sb) read_timeout empty_read_command (idle ())))"
  by (rule Handle_read_only) (rule demo_client_file_persist)

lemma CompleteReadCommand_bad_body_witness:
  "fst (CompleteReadCommand (answers (Response 204 '''')) demo_sb 7 ''done'' (Some ''<html>'') '''' (idle ()))
     = Fail (Wrap ''marshal complete'' (Lib JsonSyntax))"
proof -
  have "json_parse ''<html>'' = None" by code_simp
  from CompleteReadCommand_bad_body [OF this] show ?thesis by blast
qed

lemma endpointAllowed_area_witness:
  "\<exists>area rest. area \<in> {''cluster'', ''nodes''} \<and>
     ''/api2/json/cluster/status'' = path_of ([''api2'', ''json'', area] @ rest)"
proof -
  have "endpointAllowed ''/api2/json/cluster/status''" by code_simp
  then show ?thesis by (rule endpointAllowed_area)
qed

lemma endpoint_question_mark_witness:
  "\<exists>rq :: http_request. rq_method rq = ''GET'' \<and> url_path (rq_url rq) = APIURL (pve_cfg demo_pve) @ ''/api2/json/nodes/pve1'' \<and>
     \<not> endpointAllowed ''/api2/json/nodes/pve1''"
proof -
  let ?cmd = "\<lparr>rc_ID = 1, rc_HostID = '''', rc_Endpoint = ''/api2/json/nodes/'' @ ''pve1'' @ ''?'' @ ''x=y'' @ ''/status'',
     rc_Params = '''', rc_Status = '''', rc_ExpiresAt = 0\<rparr>"
  have api: "APIURL (pve_cfg demo_pve) = ''https://p''" by code_simp
  have "CHR ''/'' \<notin> set ''pve1''" "CHR ''/'' \<notin> set ''x=y''" "CHR ''?'' \<notin> set (APIURL (pve_cfg demo_pve) @ ''pve1'')"
    "CHR ''#'' \<notin> set (APIURL (pve_cfg demo_pve) @ ''pve1'')"
    "rc_Endpoint ?cmd = ''/api2/json/nodes/'' @ ''pve1'' @ ''?'' @ ''x=y'' @ ''/status''" "rc_Params ?cmd = ''''"
    by (simp_all add: api)
  from endpoint_question_mark [OF this, of "\<lambda>_. True" id "\<lambda>_. ''''" "answers (DoFailed CtxDone)"
      "sb_read_store (answers (DoFailed CtxDone)) demo_sb" 1]
  obtain rq :: http_request where "rq_method rq = ''GET''" "url_path (rq_url rq) = APIURL (pve_cfg demo_pve) @ ''/api2/json/nodes/'' @ ''pve1''"
    "\<not> endpointAllowed (''/api2/json/nodes/'' @ ''pve1'')"
    by blast
  then show ?thesis by (intro exI [of _ rq]) simp
qed

lemma buildPath_extends_witness:
  "\<exists>path. buildPath (\<lambda>_. True) id ''/e'' (''{'' @ quoted ''l'' @ '':'' @ quoted ''a/b'' @ ''}'') = Inr path \<and>
     (path = ''/e'' \<or> (\<exists>qu. path = ''/e'' @ ''?'' @ values_encode qu \<and>
        (\<forall>c \<in> set (values_encode qu). c \<notin> set ''/?# '')))"
proof -
  have e: "buildPath (\<lambda>_. True) id ''/e'' (''{'' @ quoted ''l'' @ '':'' @ quoted ''a/b'' @ ''}'') = Inr ''/e?l=a%2Fb''"
    by code_simp
  from buildPath_extends [OF e] show ?thesis unfolding e by blast
qed

lemma param_value_integer_witness: "param_value (JNum (nat_dec 50)) = Some (nat_dec 50)"
  by (rule param_value_integer) simp

section \<open>Configuration and keys\<close>

lemma redacted_witness:
  "String_supabase (f_Supabase (line_file ''t1'' ''k1'')) = String_supabase (f_Supabase (line_file ''t2'' ''k2''))
   \<and> String_proxmox (f_Proxmox empty_file) = String_proxmox (f_Proxmox empty_file)"
  by (rule redacted) (simp_all add: line_file_def set_private_key_def set_refresh_token_def)

lemma EffectiveLogRotation_agrees_witness:
  "0 < lr_MaxSizeMB (EffectiveLogRotation (f_Agent empty_file))"
proof -
  have "ValidateLogging (f_Agent empty_file) = None" by code_simp
  with EffectiveLogRotation_agrees [of empty_file] show ?thesis by (auto simp: Let_def)
qed

lemma save_line:
  "fst (Save (answers (DoFailed CtxDone)) line_yaml ''c.yml'' (line_file ''t'' ''k'') s) = Ok ()"
proof -
  have "y_encode line_yaml (line_file ''t'' ''k'') = Inr (YNode OtherNode ''t;k'' [] '''' ())"
    "y_marshal line_yaml (annotateComments '''' (YNode OtherNode ''t;k'' [] '''' ())) = Inr ''t;k''"
    by code_simp+
  then show ?thesis by (simp add: Save_def WriteFile_def go_wrap_def demo_env)
qed

lemma Load_Save_witness:
  "fst (Load (answers (DoFailed CtxDone)) line_yaml ''c.yml''
     (snd (Save (answers (DoFailed CtxDone)) line_yaml ''c.yml'' (line_file ''t'' ''k'') (idle ())))) = Ok (line_file ''t'' ''k'')"
proof -
  let ?e = "answers (DoFailed CtxDone)"
  obtain t where t: "Save ?e line_yaml ''c.yml'' (line_file ''t'' ''k'') (idle ()) = (Ok (), t)"
    using save_line by (metis prod.collapse)
  have "fst (env_read ?e p w) = None" for p w by (simp add: demo_env)
  with Load_Save [OF line_yaml_ok t refl] t show ?thesis
    by (auto split: outcome.splits)
qed

lemma EnsurePrivateKey_saved_witness:
  "\<exists>cfg' t data. EnsurePrivateKey (answers (DoFailed CtxDone)) line_yaml demo_hpke (Inr (''p'', ''p''))
       (line_file ''t'' '''') ''c.yml'' (idle ()) = (Ok (''cA=='', True, cfg'), t) \<and>
     saved line_yaml cfg' = Some data \<and> fs t = (fs (idle ()))(''c.yml'' \<mapsto> data)"
proof -
  let ?e = "answers (DoFailed CtxDone)"
  have g: "GenerateKeypair demo_hpke (Inr (''p'', ''p'')) = Inr (''p'', ''p'')" "b64_encode ''p'' = ''cA==''"
    "y_encode line_yaml (line_file ''t'' ''cA=='') = Inr (YNode OtherNode ''t;cA=='' [] '''' ())"
    "y_marshal line_yaml (YNode OtherNode ''t;cA=='' [] '''' ()) = Inr ''t;cA==''"
    by code_simp+
  have k: "set_private_key ''cA=='' (line_file ''t'' '''') = line_file ''t'' ''cA==''"
    "sc_PrivateKey (f_Supabase (line_file ''t'' '''')) = ''''"
    by (simp_all add: line_file_def set_private_key_def)
  have "\<exists>t. EnsurePrivateKey ?e line_yaml demo_hpke (Inr (''p'', ''p'')) (line_file ''t'' '''') ''c.yml'' (idle ()) =
      (Ok (''cA=='', True, line_file ''t'' ''cA==''), t)"
    by (simp add: EnsurePrivateKey_def Save_def WriteFile_def go_wrap_def go_bind_def demo_env go_defs Let_def g k)
  then obtain t where t: "EnsurePrivateKey ?e line_yaml demo_hpke (Inr (''p'', ''p'')) (line_file ''t'' '''') ''c.yml''
      (idle ()) = (Ok (''cA=='', True, line_file ''t'' ''cA==''), t)" by blast
  with EnsurePrivateKey_saved [OF t] k show ?thesis by auto
qed

lemma password_end_to_end_witness:
  "\<exists>payload. resolveLXCPassword demo_hpke (New_dispatcher\<lparr>PrivateKey := Some ''key''\<rparr>)
     (empty_payload\<lparr>PasswordEnc := b64_encode payload\<rparr>) = Inr ''secret''"
proof -
  have "PublicKeyFromPrivate demo_hpke ''key'' = Inr ''key''" by code_simp
  moreover have "EncryptForTest demo_hpke '''' (the (bytea_decode (bytesToBytea ''key''))) ''secret'' =
      Inr (replicate 32 CHR ''e'' @ ''key#secret'')" by code_simp
  moreover have "b64_decode (b64_encode ''key'') = Inr ''key''" by code_simp
  ultimately show ?thesis
    by (intro exI password_end_to_end [OF demo_hpke_correct]) simp_all
qed


section \<open>Running\<close>

lemma persistRefreshTo_atomic_witness:
  "\<exists>t. persistRefreshTo (cloud (DoFailed CtxDone)) line_yaml ''d/c.yml'' ''R2'' (installed ''d/c.yml'' ''R;k'') = (Ok (), t) \<and>
     persisted line_yaml ''d/c.yml'' ''R2'' (installed ''d/c.yml'' ''R;k'') t"
proof -
  let ?p = "persistRefreshTo (cloud (DoFailed CtxDone)) line_yaml ''d/c.yml'' ''R2'' (installed ''d/c.yml'' ''R;k'')"
  have "fst ?p = Ok ()" by code_simp
  then obtain t where "?p = (Ok (), t)" by (metis prod.collapse)
  with persistRefreshTo_atomic [OF this] show ?thesis by blast
qed

lemma AwaitTaskCompletion_terminates_witness:
  "returned (fst (AwaitTaskCompletion (clock_env (DoFailed CtxDone)) demo_pve ''p'' ''U'' (dur_s 10) (idle 0))) \<and>
   count_events pve_get (snd (AwaitTaskCompletion (clock_env (DoFailed CtxDone)) demo_pve ''p'' ''U'' (dur_s 10) (idle 0)))
     \<le> 22"
proof -
  obtain r t where rt: "AwaitTaskCompletion (clock_env (DoFailed CtxDone)) demo_pve ''p'' ''U'' (dur_s 10) (idle 0) = (r, t)"
    by force
  have "nat (dur_s 10 div pollInterval) + 2 = 22" by (simp add: pollInterval_def)
  with AwaitTaskCompletion_terminates [OF clock_env_clocked _ rt] rt show ?thesis
    by (simp add: count_events_def idle_def)
qed

text \<open>Two heartbeats that nobody answers.\<close>

abbreviation silent_turn :: "step_label list" where
  "silent_turn \<equiv> [TakeRef, Beat, CountBeat, LoadAcks]"

lemma silent_turn_run:
  assumes "session_run (answers (DoFailed CtxDone)) 1 x ls (s, c)" "hb_at c = HbSelecting"
  shows "\<exists>t. session_run (answers (DoFailed CtxDone)) 1 x (ls @ silent_turn)
    (t, c\<lparr>hbSent := hbSent c + 1, hb_at := HbLoaded (hbSent c + 1) (hbAcked c)\<rparr>)"
proof -
  let ?e = "answers (DoFailed CtxDone)"
  obtain r s1 s2 where w: "nextRef 1 s = (r, s1)" "writeJSON ?e 1 (heartbeat_frame r) s1 = (Ok (), s2)"
    by (simp add: nextRef_def Let_def writeJSON_def heartbeat_frame_def demo_env)
  let ?c1 = "c\<lparr>hb_at := HbWriting r\<rparr>" and ?c2 = "c\<lparr>hb_at := HbWritten\<rparr>"
  let ?c3 = "c\<lparr>hbSent := hbSent c + 1, hb_at := HbCounted (hbSent c + 1)\<rparr>"
  have "session_step ?e 1 (s, c) TakeRef (s1, ?c1)" using assms(2) w(1) by (rule take_ref)
  moreover have "session_step ?e 1 (s1, ?c1) Beat (s2, ?c2)" using beat [of ?c1 r ?e 1 s1 s2] w(2) by simp
  moreover have "session_step ?e 1 (s2, ?c2) CountBeat (s2, ?c3)" using count_beat [of ?c2 ?e 1 s2] by simp
  moreover have "session_step ?e 1 (s2, ?c3) LoadAcks (s2, c\<lparr>hbSent := hbSent c + 1, hb_at := HbLoaded (hbSent c + 1) (hbAcked c)\<rparr>)"
    using load_acks [of ?c3 "hbSent c + 1" ?e 1 s2] by simp
  ultimately have "session_run ?e 1 x ((((ls @ [TakeRef]) @ [Beat]) @ [CountBeat]) @ [LoadAcks])
      (s2, c\<lparr>hbSent := hbSent c + 1, hb_at := HbLoaded (hbSent c + 1) (hbAcked c)\<rparr>)"
    using assms(1) by (blast intro: run_step)
  then show ?thesis by auto
qed

abbreviation silent_peer_steps :: "step_label list" where
  "silent_peer_steps \<equiv> silent_turn @ [LagFine] @ silent_turn @ [LagFound, CloseNow]"

lemma silent_peer:
  "\<exists>t c. session_run (answers (DoFailed CtxDone)) 1 (s, joined) silent_peer_steps (t, c) \<and> ws_closed c"
proof -
  let ?e = "answers (DoFailed CtxDone)" and ?x = "(s, joined)"
  let ?c1 = "joined\<lparr>hbSent := 1, hb_at := HbLoaded 1 0\<rparr>" and ?c2 = "joined\<lparr>hbSent := 1\<rparr>"
  let ?c3 = "joined\<lparr>hbSent := 2, hb_at := HbLoaded 2 0\<rparr>"
  let ?c4 = "(setReason ''ack-lag'' ?c3)\<lparr>hb_at := HbClosing\<rparr>"
  let ?c5 = "?c4\<lparr>hb_at := HbReturned, ws_closed := True\<rparr>"
  have "session_run ?e 1 ?x [] ?x" by (rule run_nil)
  from silent_turn_run [OF this] obtain t1 where r1: "session_run ?e 1 ?x silent_turn (t1, ?c1)"
    by (auto simp: joined_def)
  have "session_step ?e 1 (t1, ?c1) LagFine (t1, ?c2)"
    using lag_fine [of ?c1 1 0 ?e 1 t1] by (simp add: joined_def ackLagThreshold_def)
  with r1 have "session_run ?e 1 ?x (silent_turn @ [LagFine]) (t1, ?c2)" by (rule run_step)
  from silent_turn_run [OF this] obtain t2 where
    r2: "session_run ?e 1 ?x ((silent_turn @ [LagFine]) @ silent_turn) (t2, ?c3)"
    by (auto simp: joined_def)
  have "session_step ?e 1 (t2, ?c3) LagFound (t2, ?c4)"
    using lag_found [of ?c3 2 0 ?e 1 t2] by (simp add: joined_def ackLagThreshold_def)
  with r2 have r3: "session_run ?e 1 ?x (((silent_turn @ [LagFine]) @ silent_turn) @ [LagFound]) (t2, ?c4)" by (rule run_step)
  have "session_step ?e 1 (t2, ?c4) CloseNow (t2\<lparr>log := log t2 @ [WsClose 1]\<rparr>, ?c5)"
    using close_now [of ?c4 ?e 1 t2] by simp
  with r3 have "session_run ?e 1 ?x ((((silent_turn @ [LagFine]) @ silent_turn) @ [LagFound]) @ [CloseNow])
      (t2\<lparr>log := log t2 @ [WsClose 1]\<rparr>, ?c5)"
    by (rule run_step)
  then show ?thesis by (intro exI [of _ ?c5] exI [of _ "t2\<lparr>log := log t2 @ [WsClose 1]\<rparr>"]) simp
qed

lemma heartbeat_lag_bounded_witness:
  "\<exists>t c. session_run (answers (DoFailed CtxDone)) 1 (idle (), joined) silent_peer_steps (t, c) \<and> ws_closed c \<and>
     beats silent_peer_steps - acks silent_peer_steps \<le> ackLagThreshold"
proof -
  obtain t c where r: "session_run (answers (DoFailed CtxDone)) 1 (idle (), joined) silent_peer_steps (t, c)"
    "ws_closed c"
    using silent_peer by blast
  from heartbeat_lag_bounded [OF r(1)] r show ?thesis by blast
qed

lemma delivered_inserts_witness:
  "\<exists>t c. session_run (answers (DoFailed CtxDone)) 1 (idle (), joined) silent_peer_steps (t, c) \<and> delivered c = []"
proof -
  obtain t c where r: "session_run (answers (DoFailed CtxDone)) 1 (idle (), joined) silent_peer_steps (t, c)"
    using silent_peer by blast
  have "inserts silent_peer_steps = []" by (simp add: inserts_def List.map_filter_def)
  with delivered_inserts [OF r] r show ?thesis by auto
qed

text \<open>One attempt that gets no token, and the wait after it.\<close>

lemma rejected_once:
  "\<exists>t. subscription_loop (\<lambda>_. True) (answers (DoFailed CtxDone)) demo_sb ''c'' ''commands'' first_backoff
     ((idle ())\<lparr>sb_access := ''''\<rparr>) [(first_backoff, 750000000)] [] t"
proof -
  let ?e = "answers (DoFailed CtxDone)" and ?s = "(idle ())\<lparr>sb_access := ''''\<rparr>"
  let ?j = "subscribe_join (\<lambda>_. True) ?e demo_sb ''c'' ''commands'' ?s"
  have "(case fst ?j of Fail _ \<Rightarrow> True | _ \<Rightarrow> False)" by code_simp
  then obtain e t where j: "?j = (Fail e, t)" by (cases ?j) (auto split: outcome.splits)
  have w: "backoff_wait ?e first_backoff t = (Ok (750000000, Some (next_backoff first_backoff)), t)"
    by (simp add: backoff_wait_def sleep_val_def first_backoff_def Let_def demo_env)
  have c: "ctx_err ?e ?s = (None, ?s)" by (simp add: ctx_err_def demo_env)
  have "subscription_loop (\<lambda>_. True) ?e demo_sb ''c'' ''commands'' first_backoff ?s [(first_backoff, 750000000)] ([] @ []) t"
    by (rule subscription_loop.again [OF c subscribe_once.rejected [OF j] w subscription_loop.between])
  then show ?thesis by auto
qed

lemma backoff_bounds_witness:
  "\<exists>t. subscription_loop (\<lambda>_. True) (answers (DoFailed CtxDone)) demo_sb ''c'' ''commands'' first_backoff
     ((idle ())\<lparr>sb_access := ''''\<rparr>) [(first_backoff, 750000000)] [] t \<and> 3 * dur_s 1 \<le> 4 * 750000000"
proof -
  obtain t where l: "subscription_loop (\<lambda>_. True) (answers (DoFailed CtxDone)) demo_sb ''c'' ''commands'' first_backoff
     ((idle ())\<lparr>sb_access := ''''\<rparr>) [(first_backoff, 750000000)] [] t"
    using rejected_once by blast
  have "rand_in_range (answers (DoFailed CtxDone))" by (simp add: rand_in_range_def demo_env)
  from backoff_bounds [OF this l, of 0] l show ?thesis by auto
qed

lemma subscription_registry_witness:
  "\<exists>r t. after_join (answers (DoFailed CtxDone)) ''c'' ''commands'' 1 ''1'' (idle ()) = (r, t) \<and>
     map_of (sb_subs t) (sub_topic ''commands'' ''c'') = Some 1 \<and> sb_loop t"
proof -
  obtain r t where "after_join (answers (DoFailed CtxDone)) ''c'' ''commands'' 1 ''1'' (idle ()) = (r, t)" by force
  with subscription_registry show ?thesis by blast
qed


section \<open>The agent at work\<close>

definition demo_started :: "unit started" where
  "demo_started = \<lparr>st_pve = demo_pve,
     st_sb = demo_client (Some (persistRefreshTo (cloud (Response 200 tokens_body)) line_yaml ''d/c.yml'')),
     st_cluster = ''c'', st_dispatcher = New_dispatcher, st_interval = dur_s 30, st_heartbeat = ''d/.last-poll''\<rparr>"

abbreviation work :: "activity list \<Rightarrow> (unit agent, unit) go" where
  "work \<equiv> perform_all (cloud (Response 200 tokens_body)) demo_hpke (\<lambda>_. True) id id demo_started"

lemma demo_started_client:
  "agent_client (cloud (Response 200 tokens_body)) line_yaml ''d/c.yml'' (st_sb demo_started)"
  by (simp add: agent_client_def demo_started_def)

lemma installed_file:
  "fs (installed p text) p = Some text" "y_unmarshal line_yaml ''R;k'' = Inr (line_file ''R'' ''k'')"
  by (simp add: installed_def) code_simp

text \<open>A push and a tick of the central loop, which rotates the token.\<close>

lemma demo_temp_apart: "temp_apart (cloud (Response 200 tokens_body)) ''d/c.yml'' ''d/.last-poll''"
  by (simp add: temp_apart_def cloud_def plain_env_def)

lemma token_stays_on_disk_witness:
  "\<exists>x data tok. agent_run (cloud (Response 200 tokens_body)) line_yaml ''d/c.yml'' ''d/.last-poll'' (st_sb demo_started)
      (all_resting (installed ''d/c.yml'' ''R;k'')) x \<and> sb_refresh (proc x) = ''R2'' \<and>
     fs (proc x) ''d/c.yml'' = Some data \<and> y_unmarshal line_yaml data = Inr (set_refresh_token tok (line_file ''R'' ''k''))"
proof -
  let ?s = "installed ''d/c.yml'' ''R;k''"
  obtain r t where w: "work [Pushes, CentralTick] ?s = (r, t)" by force
  have "sb_refresh (snd (work [Pushes, CentralTick] ?s)) = ''R2''" by code_simp
  with w have t: "sb_refresh t = ''R2''" by simp
  have hb: "st_heartbeat demo_started = ''d/.last-poll''" by (simp add: demo_started_def)
  have "leads (cloud (Response 200 tokens_body)) line_yaml ''d/c.yml'' (st_heartbeat demo_started) (st_sb demo_started) ?s t"
    using leads.perform_all_R [OF refl refl] w by (rule changesD)
  moreover have "proc (all_resting ?s) = ?s" "phase (all_resting ?s) 0 = Resting" by (simp_all add: all_resting_def)
  ultimately obtain x where x: "agent_run (cloud (Response 200 tokens_body)) line_yaml ''d/c.yml'' ''d/.last-poll'' (st_sb demo_started)
      (all_resting ?s) x" "proc x = t"
    using demo_started_client unfolding leads_def hb by blast
  have "sc_RefreshToken (f_Supabase (line_file ''R'' ''k'')) = sb_refresh ?s"
    by (simp add: line_file_def set_private_key_def set_refresh_token_def installed_def idle_def)
  from token_stays_on_disk [OF line_yaml_ok demo_temp_apart _ installed_file this x(1)] x t show ?thesis by auto
qed

lemma activities_are_runs_witness:
  "\<exists>z. agent_run (cloud (Response 200 tokens_body)) line_yaml ''d/c.yml'' (st_heartbeat demo_started) (st_sb demo_started)
      (all_resting (installed ''d/c.yml'' ''R;k'')) z \<and> sb_refresh (proc z) = ''R2''"
proof -
  let ?s = "installed ''d/c.yml'' ''R;k''"
  obtain r t where w: "work [Pushes, CentralTick] ?s = (r, t)" by force
  have "sb_refresh (snd (work [Pushes, CentralTick] ?s)) = ''R2''" by code_simp
  with w have "sb_refresh t = ''R2''" by simp
  moreover have "proc (all_resting ?s) = ?s" "phase (all_resting ?s) 0 = Resting" by (simp_all add: all_resting_def)
  ultimately show ?thesis using activities_are_runs [OF demo_started_client w] by metis
qed

lemma one_write_per_command_witness:
  "count_events pve_write (snd (work [Pushes, Commands start_cmd, CentralTick] (idle ()))) \<le> 1"
proof -
  obtain r t where w: "work [Pushes, Commands start_cmd, CentralTick] (idle ()) = (r, t)" by force
  from one_write_per_command [OF agent_client_persists(1) [OF demo_started_client] w] w show ?thesis
    by (simp add: is_command_def count_events_def idle_def)
qed

lemma waitForClusterStateMatch_terminates_witness:
  "fst (waitForClusterStateMatch (clock_env (DoFailed CtxDone)) demo_pve start_cmd (idle 0)) = Ok () \<and>
   count_events pve_get (snd (waitForClusterStateMatch (clock_env (DoFailed CtxDone)) demo_pve start_cmd (idle 0))) \<le> 22"
proof -
  obtain r t where rt: "waitForClusterStateMatch (clock_env (DoFailed CtxDone)) demo_pve start_cmd (idle 0) = (r, t)"
    by force
  from waitForClusterStateMatch_terminates [OF clock_env_clocked rt] rt show ?thesis
    by (simp add: count_events_def idle_def)
qed

section \<open>Starts and ends\<close>


lemma first_start_restores_used_token_witness:
  "\<exists>u k data. sb_refresh u \<noteq> '''' \<and> fs (u :: unit agent) ''d/c.yml'' = Some data \<and>
     y_unmarshal line_yaml data = Inr (set_private_key k (line_file ''R'' ''''))"
proof -
  let ?run = "Start_boot (\<lambda>_. True) (cloud (Response 200 tokens_body)) line_yaml demo_hpke (Inr (''p'', ''p'')) ''d/c.yml''
       BakedInDefault (installed ''d/c.yml'' ''R;'')"
  have "(case fst ?run of Ok _ \<Rightarrow> True | _ \<Rightarrow> False)" by code_simp
  then obtain b t where run: "?run = (Ok b, t)" by (cases ?run) (auto split: outcome.splits)
  have "y_unmarshal line_yaml ''R;'' = Inr (line_file ''R'' '''')"
    "sc_PrivateKey (f_Supabase (line_file ''R'' '''')) = ''''"
    by code_simp+
  from first_start_restores_used_token [OF line_yaml_ok installed_file(1) this run]
  obtain v w and u :: "unit agent" and k data where "Ping (cloud (Response 200 tokens_body)) (st_sb b) v = (Ok (), w)" "sb_refresh u = sb_refresh w"
    "fs u ''d/c.yml'' = Some data" "y_unmarshal line_yaml data = Inr (set_private_key k (line_file ''R'' ''''))"
    by blast
  moreover from this(1) obtain tok x where "refresh (cloud (Response 200 tokens_body)) (st_sb b) v = (Ok tok, x)" "x = w"
    by (auto simp: Ping_def elim!: go_bind_OkE)
  then have "sb_refresh w \<noteq> ''''"
    by (elim refresh_Ok_cases) (auto dest: store_tokens_result)
  ultimately show ?thesis by metis
qed

lemma main_loop_survives_witness:
  "fst (main_loop (cloud (Response 200 tokens_body)) demo_pve (st_sb demo_started) ''c'' ''d/.last-poll'' [Tick, CtxIsDone]
     (installed ''d/c.yml'' ''R;k'')) = Ok True"
proof -
  have "fst (main_loop (cloud (Response 200 tokens_body)) demo_pve (st_sb demo_started) ''c'' ''d/.last-poll'' [Tick, CtxIsDone]
     (installed ''d/c.yml'' ''R;k'')) \<in> {Ok True, Ok False}" by code_simp
  with main_loop_survives [OF demo_started_client, where pve = demo_pve and cluster = "''c''" and hb = "''d/.last-poll''"
      and ws = "[Tick, CtxIsDone]" and s = "installed ''d/c.yml'' ''R;k''"]
  show ?thesis by auto
qed

lemma exit_revoked_only_if_told_witness:
  "\<exists>t rq res. runAgent (recording (cloud (Response 400 revoked_body))) demo_deps [] []
       (installed_in ((), []) defaultConfigPath ''R;cA=='') = (Ok (Some exitRevoked), t) \<and>
     (rq, res) \<in> set (snd (ext t)) \<and> is_refresh rq \<and> says_revoked res"
proof -
  let ?run = "runAgent (recording (cloud (Response 400 revoked_body))) demo_deps [] []
       (installed_in ((), []) defaultConfigPath ''R;cA=='')"
  have "fst ?run = Ok (Some exitRevoked)" by code_simp
  then obtain t where run: "?run = (Ok (Some exitRevoked), t)" by (metis prod.collapse)
  have "snd (ext (installed_in ((), []) defaultConfigPath ''R;cA=='')) = []" by (simp add: installed_in_def idle_def)
  from exit_revoked_only_if_told [OF run this] run show ?thesis by blast
qed

text \<open>A host that is enrolled again: the new token, the old key.\<close>

lemma runRegister_merges_witness:
  "\<exists>t data cfg. runRegister (cloud (DoFailed CtxDone)) demo_deps [''CODE''] (installed defaultConfigPath ''R;cA=='') = (Ok (Some 0), t) \<and>
     fs t defaultConfigPath = Some data \<and> saved line_yaml cfg = Some data \<and> sc_PrivateKey (f_Supabase cfg) = ''cA==''"
proof -
  let ?run = "runRegister (cloud (DoFailed CtxDone)) demo_deps [''CODE''] (installed defaultConfigPath ''R;cA=='')"
  have "fst ?run = Ok (Some 0)" by code_simp
  then obtain t where run: "?run = (Ok (Some 0), t)" by (metis prod.collapse)
  have p: "parse_flags register_flags [''CODE''] = Parsed register_flags [''CODE'']"
    "flag_value register_flags ''config'' = defaultConfigPath"
    "flag_value register_flags ''config'' \<noteq> flag_value register_flags ''remote-config-cache''"
    "flag_value register_flags ''config'' \<noteq> flag_value register_flags ''remote-config-cache'' @ ''.tmp''"
    by code_simp+
  have h: "honest_files (cloud (DoFailed CtxDone)) (d_yaml demo_deps) (flag_value register_flags ''config'')"
    by (simp add: honest_files_def cloud_def plain_env_def demo_deps_def line_yaml_def Let_def)
  have u: "y_unmarshal (d_yaml demo_deps) ''R;cA=='' = Inr (line_file ''R'' ''cA=='')"
    "sc_PrivateKey (f_Supabase (line_file ''R'' ''cA=='')) = ''cA==''" "d_yaml demo_deps = line_yaml"
    by (code_simp, code_simp, simp add: demo_deps_def)
  from runRegister_merges [OF p(1,3,4) h run] obtain existing cfg data where
    "case fs (installed defaultConfigPath ''R;cA=='') defaultConfigPath of None \<Rightarrow> existing = empty_file
     | Some d \<Rightarrow> y_unmarshal (d_yaml demo_deps) d = Inr existing"
    "fs t defaultConfigPath = Some data" "saved (d_yaml demo_deps) cfg = Some data"
    "sc_PrivateKey (f_Supabase existing) \<noteq> '''' \<longrightarrow> sc_PrivateKey (f_Supabase cfg) = sc_PrivateKey (f_Supabase existing)"
    unfolding p(2) by blast
  with u run show ?thesis by (auto simp: installed_file(1))
qed

section \<open>Overlapping refreshes\<close>

text \<open>A service that accepts a token twice and hands out another one each time.\<close>

definition reuse_body :: "bool \<Rightarrow> string" where
  "reuse_body first = ''{'' @ quoted ''access_token'' @ '':'' @ quoted ''A2'' @ '','' @ quoted ''refresh_token'' @ '':'' @
     quoted (if first then ''R2'' else ''R3'') @ '','' @ quoted ''expires_in'' @ '':3600}''"

definition reuse_env :: "bool env" where
  "reuse_env = plain_env (\<lambda>rq first. (Response 200 (reuse_body first), False))"

abbreviation reuse_persist :: "string \<Rightarrow> (bool agent, unit) go" where
  "reuse_persist \<equiv> persistRefreshTo reuse_env line_yaml ''d/c.yml''"

lemma reuse_answers:
  "map_option RefreshToken (offered (Response 200 (reuse_body True))) = Some ''R2''"
  "map_option RefreshToken (offered (Response 200 (reuse_body False))) = Some ''R3''"
  by code_simp+

lemma overlapping_refreshes_witness:
  "\<exists>x. agent_run reuse_env line_yaml ''d/c.yml'' ''d/.last-poll'' (demo_client (Some reuse_persist))
      (all_resting (installed_in True ''d/c.yml'' ''R;k'')) x \<and> sb_refresh (proc x) = ''R2'' \<and>
     (\<exists>data'. fs (proc x) ''d/c.yml'' = Some data' \<and>
        y_unmarshal line_yaml data' = Inr (set_refresh_token ''R3'' (line_file ''R'' ''k'')))"
proof -
  let ?c = "demo_client (Some reuse_persist)" and ?s = "installed_in True ''d/c.yml'' ''R;k''"
  let ?rq = "refresh_request ?c (refresh_body (sb_refresh ?s))"
  obtain p q where p: "offered (Response 200 (reuse_body True)) = Some p" "RefreshToken p = ''R2''"
    and q: "offered (Response 200 (reuse_body False)) = Some q" "RefreshToken q = ''R3''"
    using reuse_answers by (auto simp: map_option_eq_Some)
  let ?s1 = "?s\<lparr>ext := False, log := [Sb ?rq]\<rparr>" and ?s2 = "?s\<lparr>ext := False, log := [Sb ?rq, Sb ?rq]\<rparr>"
  have h: "http_send reuse_env Sb ?rq ?s = (Ok (Response 200 (reuse_body True)), ?s1)"
    "http_send reuse_env Sb ?rq ?s1 = (Ok (Response 200 (reuse_body False)), ?s2)"
    by (simp_all add: http_send_def reuse_env_def plain_env_def installed_in_def idle_def)
  have "fst (reuse_persist ''R2'' ?s2) = Ok ()" "fst (reuse_persist ''R3'' (snd (reuse_persist ''R2'' ?s2))) = Ok ()"
    by code_simp+
  then obtain s3 s4 where w: "reuse_persist (RefreshToken p) ?s2 = (Ok (), s3)" "reuse_persist (RefreshToken q) s3 = (Ok (), s4)"
    by (metis p(2) q(2) prod.collapse snd_conv)
  have f: "fs ?s ''d/c.yml'' = Some ''R;k''" by (simp add: installed_in_def)
  have u: "y_unmarshal line_yaml ''R;k'' = Inr (set_refresh_token (sb_refresh ?s) (line_file ''R'' ''k''))"
    using installed_file(2) by (simp add: installed_in_def idle_def line_file_def set_keys_commute)
  from overlapping_refreshes [OF line_yaml_ok f u h p(1) q(1) _ w, of "''d/.last-poll''"] p(2) q(2) show ?thesis by auto
qed

end
