(* ===== verification/Spec2Isabelle.thy ===== *)
theory Spec2Isabelle
  imports Witnesses
begin

text \<open>
  \<^bold>\<open>The ProxmoxVue agent.\<close> The agent runs beside a Proxmox VE cluster and connects it to a cloud: it
  pushes a snapshot of the cluster to Supabase every 30 seconds, carries out the commands that a phone
  inserts as rows of a table there (start, stop, snapshots, creating and deleting guests), and answers
  read commands with the body of a GET request to Proxmox. It authenticates to Supabase with a refresh
  token that is good for one use: every refresh gives a new one, which must be on the disk before the
  old one is forgotten. Passwords of new containers come sealed for a key that the agent made.

  \<^bold>\<open>How the model is built.\<close> A function of the program with effects is a function of type
  \<^typ>\<open>('s, 'a) go\<close>: from a state to an outcome (a value, an error, a panic, or not returning) and a
  state. The state of the process is the record \<open>agent\<close> of theory \<open>World\<close>: the mutable fields of the
  Supabase client, the files, and a log of what was sent and written, which only the theorems read.
  Everything outside of the process is the record \<open>env\<close>, over a state of its own of any type: the HTTP
  services, the WebSocket library, the clock, waiting, the calls of the operating system, random
  numbers, the terminal. A theorem that says nothing about \<open>env\<close> holds however the outside behaves,
  failures of every call included. Go's errors are the datatype \<open>error\<close>: a text, a wrapping with
  \<open>%w\<close>, an error of a library, and the two sentinels.

  \<^bold>\<open>The theories\<close>, in the order of their imports; \<open>src/\<close> is left out of the paths.

  \<^item> \<open>GoPrelude\<close>: outcomes and errors, the locale \<open>effect\<close> of preorders that calls respect, the calls
    that return, and what is used of packages \<open>strings\<close>, \<open>strconv\<close> and \<open>time.Duration\<close>.
  \<^item> \<open>World\<close>: environment, state, primitive effects, and logs and clocks.
  \<^item> \<open>GoJson\<close>, \<open>GoEncoding\<close>, \<open>GoFloat\<close>, \<open>GoRegexp\<close>, \<open>GoTime\<close>, \<open>GoUrl\<close>, \<open>Files\<close>: the parts of the
    standard library that the code uses: \<open>encoding/json\<close> (a parser with a fuel of the length of its
    input, which \<open>p_value_fuel\<close> shows to be enough, struct decoding, printing), base64 and percent
    encoding, the rounding of decimals to binary64 and its printing, regular expressions by
    derivatives, RFC 3339 times, URLs and quoting, and the file calls with path cleaning.
  \<^item> \<open>Config\<close> (internal/config/config.go): the file, its defaults and their validation, the redacted
    texts, the comments, loading and saving. The YAML library is the record \<open>yaml\<close>, with the law
    \<open>yaml_ok\<close> that comments do not matter and that what was encoded is what is decoded.
  \<^item> \<open>Crypto\<close> (internal/crypto/hpke.go): the four functions over the record \<open>hpke\<close> of the operations
    of the HPKE library, with the law \<open>hpke_correct\<close>.
  \<^item> \<open>Supabase\<close> (internal/supabase/client.go) and \<open>SupabaseRest\<close> (rest.go, commands.go,
    read_commands.go and clusters.go of the same package): the session, that is, refreshing and
    persisting tokens, the registry of subscriptions and the broadcast of a token; and the requests
    with one retry after a 401. The locales \<open>sb_session\<close> and \<open>sb_effect\<close> say of a preorder what it
    must respect to be respected by all of it.
  \<^item> \<open>ProxmoxClient\<close> and \<open>ProxmoxActions\<close> (internal/proxmox): requests, and the actions with the
    polling of a task, a loop that may not end, so a partial function. Locales \<open>pve_reads\<close> and
    \<open>pve_effect\<close>.
  \<^item> \<open>Dispatcher\<close> (internal/commands/dispatcher.go): \<open>Handle\<close> over abstract records
    \<open>ProxmoxActor\<close> and \<open>CommandStore\<close>, the interfaces of the code; the specification \<open>verdict\<close>, a
    pure function from a command to a refusal or one action, and the eight traces \<open>handled\<close> of the
    protocol. Locales \<open>dispatch_effect\<close> and \<open>dispatch_meter\<close>.
  \<^item> \<open>ReadDispatcher\<close> (read_dispatcher.go): whitelist, query, \<open>Handle\<close> of the read commands.
  \<^item> \<open>Clients\<close> and \<open>ReadClients\<close>: the two dispatchers on the agent's own clients; the locales above
    are interpreted on them, and \<open>agent_effect\<close> joins the contracts of both clients.
  \<^item> \<open>CommandOnce\<close>: any number of deliveries of the same row, and what the claim of a backend with
    atomic updates guarantees.
  \<^item> \<open>Keysync\<close> (internal/keysync/keysync.go and internal/enroll/enroll.go): the life of the key, and
    the registration.
  \<^item> \<open>RemoteConfig\<close> (internal/remoteconfig/fetcher.go): live configuration, cache, built-in default.
  \<^item> \<open>Realtime\<close> (internal/supabase/realtime.go): the subscription. A joined connection is the step
    relation \<open>session_step\<close>, one step for each access of the heartbeat goroutine and of the reader to a
    shared counter, the close reason or the connection, in any order; its state is \<open>conn_state\<close>;
    \<open>subscribe_once\<close> is one connection from dial to end, \<open>subscription_loop\<close> the reconnecting, with the
    backoffs and the durations that were waited for.
  \<^item> \<open>Runtime\<close> (internal/runtime/runtime.go): the start, the snapshot loop over its wake-ups, what is
    done with a command, and the atomic rewrite of the configuration.
  \<^item> \<open>Session\<close>: what the goroutines of \<open>Start\<close> do, each without interruption. Locales \<open>pve_loop\<close>,
    \<open>runtime_reads\<close> and \<open>runtime_effect\<close>.
  \<^item> \<open>Goroutines\<close>: \<open>refresh\<close> and \<open>persistRefreshTo\<close> cut at every access to the token fields, the token
    endpoint and the files (\<open>refresh_step\<close>, \<open>persist_step\<close>), and \<open>agent_step\<close>, in which any number of
    goroutines take these steps in any order. \<open>activities_are_runs\<close> ties it to the code: whatever
    \<open>Session\<close> says of a goroutine is a run of these steps.
  \<^item> \<open>AgentMain\<close> (cmd/proxmoxvue-agent/main.go): the command line, with flags, prompts, output and
    exit codes. \<open>Exits\<close>: why \<open>--run\<close> ends.
  \<^item> \<open>Demo\<close> and \<open>Witnesses\<close>: small concrete surroundings, on which whole runs of the agent are
    evaluated, and every theorem with a hypothesis applied at one of them.

  \<^bold>\<open>What the theorems show.\<close>

  \<^item> Commands. \<open>Handle\<close> is the decision \<open>verdict\<close> followed by a fixed protocol; a claimed command whose
    calls return is completed exactly once; with the real clients one command makes at most one
    request to Proxmox that is not a GET, none if it was not claimed, and the agent as a whole makes at
    most one for each delivered command. However runs interleave, one grant of the claim means at most
    one action, and a backend with atomic updates grants one.
  \<^item> Read commands reach Proxmox as GET requests for whitelisted paths with an encoded query only; the
    whitelist is exactly the listed templates (and a question mark can stand in a segment).
  \<^item> The token. A refresh persists before it adopts and changes nothing when it fails; the rewrite of
    the file is atomic; however the goroutines interleave, the file decodes to the same configuration
    with the token that was persisted last, and the client adopts only tokens that were on the disk; as
    long as refreshes do not overlap the two tokens are the same. When they overlap, the two can part.
    However a start with a key goes, the configuration stays complete; without a private key the first
    start puts the used-up token back; and a client without \<open>persist\<close> (enrolling, rotating the key)
    never uploads anything.
  \<^item> Ends. Only a revoked session ends the main loop, and the exit code of a revoked session is given
    only if the token endpoint said so in an answer of that run (\<open>recording\<close> keeps the answers).
  \<^item> Termination: awaiting a task and waiting for the cluster state end, with a bound on the polls,
    under a clock that timers move on (\<open>clocked\<close>).
  \<^item> The connection: the lag of heartbeats, the registry, the backoff and its waits, the broadcast of a
    new token.
  \<^item> Files: configuration round trip, defaults, the remote configuration and its cache, the merge of a
    registration; and a sealed password arrives, through bytea, base64 and HPKE.

  \<^bold>\<open>Bounds and fuel.\<close> The JSON parser runs with the length of its input as fuel, which is enough by a
  lemma; \<open>trim_left_within\<close>, used for evaluation only, likewise. Polling loops have no fuel: they are
  partial functions, shown to be defined. Durations are Go's nanoseconds as \<open>int\<close>, with the wrap-around
  of \<open>int64\<close> written out (\<open>wrap64\<close>) where a number from outside is multiplied; JSON integers outside of
  \<open>int64\<close> are refused as Go does. Bytes of the bytea format are words.

  \<^bold>\<open>Concurrency.\<close> \<open>Goroutines\<close> interleaves refreshes and rewrites of the configuration down to the
  single access, beside steps of anything else, which by \<open>elsewhere_ok\<close> leaves the token fields and all
  files but the heartbeat file alone. \<open>session_step\<close> does the same for a connection. \<open>CommandOnce\<close> lets the
  runs of a command start in unrelated states, so its theorems hold for overlapping runs. The sequences of
  \<open>Session\<close>, with which requests to Proxmox are counted, have no overlap: a goroutine sends its requests
  whatever the others do, and only what the others leave in the shared state differs. \<open>Start\<close> is its main
  goroutine alone.

  \<^bold>\<open>Not modelled.\<close> The log lines of \<open>slog\<close> and their rotation, what package \<open>flag\<close> prints about a wrong
  command line, signal handling, TLS settings and time limits of the HTTP clients (they are ways in
  which the environment may fail a request), the presence frames (they are sent and tracked, nothing
  depends on the answers), package \<open>semver\<close> (a parameter), the scripts, container files and documents.
\<close>

end
